theory Spec2Isabelle
  imports Complex_Main "HOL-Library.Word"
begin

section \<open>Values of the JavaScript platform\<close>

text \<open>
  The program is TypeScript on the WebCrypto platform. A JavaScript string is a sequence
  of 16-bit code units, an \<open>ArrayBuffer\<close> a sequence of bytes. A typed array the program
  makes itself views its whole buffer, so that its \<open>.buffer\<close> is the same bytes; one it is
  handed (the salt of \<^verbatim>\<open>deriveMasterKey\<close>) may view a part of a larger buffer and is a
  \<open>Uint8Array\<close> record below.
  String literals of the source are ASCII; \<open>ascii\<close> writes them as code units.
\<close>

type_synonym byte = "8 word"
type_synonym jschar = "16 word"
type_synonym jsstring = "16 word list"
type_synonym bytes = "8 word list"

definition ascii :: "string \<Rightarrow> jsstring" where
  "ascii s = map (\<lambda>c. of_nat (of_char c)) s"

definition byte_of_nat :: "nat \<Rightarrow> byte" where
  "byte_of_nat n = of_nat n"

definition unit_of_nat :: "nat \<Rightarrow> jschar" where
  "unit_of_nat n = of_nat n"

text \<open>
  What the platform throws (\<open>DOMException\<close> names), and what the program throws. The
  program throws plain \<open>Error\<close> objects told apart by their message only; the
  constructors carry the names of the specification's error taxonomy where it has one:
  \<^item> \<open>UnsupportedAlgorithm a\<close>: \<^verbatim>\<open>Unsupported algorithm: ${a}\<close>
  \<^item> \<open>DecryptionFailed\<close>: \<^verbatim>\<open>Failed to decrypt data: Invalid key or corrupted data\<close>
  \<^item> \<open>SenderMismatch\<close>: \<^verbatim>\<open>Sender public key mismatch\<close>
  \<^item> \<open>KeyIntegrityViolation\<close>: \<^verbatim>\<open>Vault key fingerprint mismatch - possible tampering\<close>
  \<^item> \<open>InvalidPolicy\<close>: \<^verbatim>\<open>At least one character type must be selected\<close>
  \<^item> \<open>EntryNotFound\<close>: \<^verbatim>\<open>Entry not found\<close>
  \<^item> \<open>SyntaxError\<close>: thrown by \<^verbatim>\<open>JSON.parse\<close>
  \<^item> \<open>TypeError\<close>: thrown by the language on reading a property of \<^verbatim>\<open>null\<close> and on
    converting an object without a callable \<^verbatim>\<open>toString\<close> to a string
  \<^item> \<open>RangeError\<close>: thrown by \<^verbatim>\<open>new Uint8Array(length)\<close> for a length that is no array
    length or that the engine cannot allocate
  \<^item> \<open>DOMException d\<close>: thrown by \<^verbatim>\<open>atob\<close>, \<^verbatim>\<open>btoa\<close>, \<^verbatim>\<open>crypto.getRandomValues\<close> or
    a \<^verbatim>\<open>crypto.subtle\<close> operation.
\<close>

datatype dom_exception =
    InvalidCharacterError
  | QuotaExceededError
  | OperationError
  | InvalidAccessError
  | NotSupportedError
  | DataError

datatype error =
    UnsupportedAlgorithm jsstring
  | DecryptionFailed
  | SenderMismatch
  | KeyIntegrityViolation
  | InvalidPolicy
  | EntryNotFound
  | SyntaxError
  | TypeError
  | RangeError
  | DOMException dom_exception

subsection \<open>\<^verbatim>\<open>btoa\<close> and \<^verbatim>\<open>atob\<close>\<close>

text \<open>
  \<^verbatim>\<open>btoa\<close> throws on a code unit above U+00FF and otherwise encodes the bytes in
  base64 (RFC 4648): each group of three bytes is four 6-bit values, a last group of two
  or one byte is three or two values and one or two \<open>=\<close>. The shifts and masks of the
  standard are written as \<open>div\<close> and \<open>mod\<close> on the byte values.
\<close>

definition base64_alphabet :: jsstring where
  "base64_alphabet =
     ascii ''ABCDEFGHIJKLMNOPQRSTUVWXYZabcdefghijklmnopqrstuvwxyz0123456789+/''"

fun sextets :: "bytes \<Rightarrow> nat list" where
  "sextets (a # b # c # r) =
     [unat a div 4, (unat a mod 4) * 16 + unat b div 16,
      (unat b mod 16) * 4 + unat c div 64, unat c mod 64] @ sextets r"
| "sextets [a, b] = [unat a div 4, (unat a mod 4) * 16 + unat b div 16, (unat b mod 16) * 4]"
| "sextets [a] = [unat a div 4, (unat a mod 4) * 16]"
| "sextets [] = []"

fun pad_len :: "bytes \<Rightarrow> nat" where
  "pad_len (a # b # c # r) = pad_len r"
| "pad_len [a, b] = 1"
| "pad_len [a] = 2"
| "pad_len [] = 0"

definition base64_encode :: "bytes \<Rightarrow> jsstring" where
  "base64_encode bs =
     map (\<lambda>v. base64_alphabet ! v) (sextets bs) @ replicate (pad_len bs) 0x3D"

definition body :: "bytes \<Rightarrow> jsstring" where
  "body bs = map (\<lambda>v. base64_alphabet ! v) (sextets bs)"

definition btoa :: "jsstring \<Rightarrow> error + jsstring" where
  "btoa s = (if \<exists>c \<in> set s. 0xFF < c then Inl (DOMException InvalidCharacterError)
             else Inr (base64_encode (map ucast s)))"

text \<open>
  \<^verbatim>\<open>atob\<close> is the forgiving-base64 decode of the HTML standard: ASCII whitespace is
  removed; when the length is a multiple of four, one or two trailing \<open>=\<close> are removed;
  a length that leaves remainder one, or any character outside the alphabet, throws;
  the 6-bit values are then read in groups of four (three bytes), a last group of three
  or two values giving two bytes or one.
\<close>

definition ascii_whitespace :: "jschar list" where
  "ascii_whitespace = [0x09, 0x0A, 0x0C, 0x0D, 0x20]"

definition strip_padding :: "jsstring \<Rightarrow> jsstring" where
  "strip_padding s =
     (if s \<noteq> [] \<and> last s = 0x3D
      then (if butlast s \<noteq> [] \<and> last (butlast s) = 0x3D
            then butlast (butlast s) else butlast s)
      else s)"

definition base64_index :: "jschar \<Rightarrow> nat" where
  "base64_index c = length (takeWhile (\<lambda>x. x \<noteq> c) base64_alphabet)"

fun unsextets :: "nat list \<Rightarrow> bytes" where
  "unsextets (a # b # c # d # r) =
     [of_nat (a * 4 + b div 16), of_nat ((b mod 16) * 16 + c div 4),
      of_nat ((c mod 4) * 64 + d)] @ unsextets r"
| "unsextets [a, b, c] = [of_nat (a * 4 + b div 16), of_nat ((b mod 16) * 16 + c div 4)]"
| "unsextets [a, b] = [of_nat (a * 4 + b div 16)]"
| "unsextets [a] = []"
| "unsextets [] = []"

definition atob :: "jsstring \<Rightarrow> error + jsstring" where
  "atob s =
     (let d1 = filter (\<lambda>c. c \<notin> set ascii_whitespace) s;
          d2 = (if length d1 mod 4 = 0 then strip_padding d1 else d1)
      in if length d2 mod 4 = 1 then Inl (DOMException InvalidCharacterError)
         else if \<exists>c \<in> set d2. c \<notin> set base64_alphabet
           then Inl (DOMException InvalidCharacterError)
         else Inr (map ucast (unsextets (map base64_index d2))))"

subsection \<open>\<^verbatim>\<open>TextEncoder\<close> and \<^verbatim>\<open>TextDecoder\<close>\<close>

text \<open>
  \<^verbatim>\<open>new TextEncoder().encode(s)\<close> takes a \<open>USVString\<close>: the code units are first read
  as scalar values, a surrogate pair as one value and every unpaired surrogate as U+FFFD
  (Web IDL), and each scalar value is then written in UTF-8 (Encoding standard).
\<close>

definition is_surrogate :: "jschar \<Rightarrow> bool" where
  "is_surrogate c = (0xD800 \<le> unat c \<and> unat c \<le> 0xDFFF)"

definition is_lead :: "jschar \<Rightarrow> bool" where
  "is_lead c = (0xD800 \<le> unat c \<and> unat c \<le> 0xDBFF)"

definition is_trail :: "jschar \<Rightarrow> bool" where
  "is_trail c = (0xDC00 \<le> unat c \<and> unat c \<le> 0xDFFF)"

fun to_scalar_values :: "jsstring \<Rightarrow> nat list" where
  "to_scalar_values [] = []"
| "to_scalar_values [c] = [if is_surrogate c then 0xFFFD else unat c]"
| "to_scalar_values (c # d # r) =
     (if \<not> is_surrogate c then unat c # to_scalar_values (d # r)
      else if is_lead c \<and> is_trail d
        then (0x10000 + (unat c - 0xD800) * 0x400 + (unat d - 0xDC00)) # to_scalar_values r
      else 0xFFFD # to_scalar_values (d # r))"

definition utf8_encode_scalar :: "nat \<Rightarrow> bytes" where
  "utf8_encode_scalar cp =
     (if cp \<le> 0x7F then [byte_of_nat cp]
      else if cp \<le> 0x7FF then
        [byte_of_nat (cp div 64 + 0xC0), byte_of_nat (0x80 + cp mod 64)]
      else if cp \<le> 0xFFFF then
        [byte_of_nat (cp div 4096 + 0xE0), byte_of_nat (0x80 + cp div 64 mod 64),
         byte_of_nat (0x80 + cp mod 64)]
      else
        [byte_of_nat (cp div 262144 + 0xF0), byte_of_nat (0x80 + cp div 4096 mod 64),
         byte_of_nat (0x80 + cp div 64 mod 64), byte_of_nat (0x80 + cp mod 64)])"

definition utf8_encode :: "nat list \<Rightarrow> bytes" where
  "utf8_encode cps = concat (map utf8_encode_scalar cps)"

definition TextEncoder_encode :: "jsstring \<Rightarrow> bytes" where
  "TextEncoder_encode s = utf8_encode (to_scalar_values s)"

text \<open>
  \<^verbatim>\<open>new TextDecoder().decode(b)\<close> runs the UTF-8 decoder of the Encoding standard in
  replacement mode. Its state is the code point under construction, the continuation
  bytes seen and needed, and the bounds of the next continuation byte. A byte out of
  bounds gives U+FFFD and is read again from the initial state; input that ends inside
  a sequence gives U+FFFD. The decoder is made with the default options, so
  \<open>ignoreBOM\<close> is false and a first scalar value U+FEFF is left out of the result. The
  scalar values are stored as UTF-16 code units.
\<close>

function utf8_decoder :: "nat \<Rightarrow> nat \<Rightarrow> nat \<Rightarrow> nat \<Rightarrow> nat \<Rightarrow> bytes \<Rightarrow> nat list" where
  "utf8_decoder cp seen needed lower upper [] = (if needed \<noteq> 0 then [0xFFFD] else [])"
| "utf8_decoder cp seen needed lower upper (b # bs) =
     (if needed = 0 then
        (if unat b \<le> 0x7F then unat b # utf8_decoder 0 0 0 0x80 0xBF bs
         else if 0xC2 \<le> unat b \<and> unat b \<le> 0xDF then
           utf8_decoder (unat b mod 32) 0 1 0x80 0xBF bs
         else if 0xE0 \<le> unat b \<and> unat b \<le> 0xEF then
           utf8_decoder (unat b mod 16) 0 2
             (if unat b = 0xE0 then 0xA0 else 0x80) (if unat b = 0xED then 0x9F else 0xBF) bs
         else if 0xF0 \<le> unat b \<and> unat b \<le> 0xF4 then
           utf8_decoder (unat b mod 8) 0 3
             (if unat b = 0xF0 then 0x90 else 0x80) (if unat b = 0xF4 then 0x8F else 0xBF) bs
         else 0xFFFD # utf8_decoder 0 0 0 0x80 0xBF bs)
      else if unat b < lower \<or> upper < unat b then
        0xFFFD # utf8_decoder 0 0 0 0x80 0xBF (b # bs)
      else if seen + 1 \<noteq> needed then
        utf8_decoder (cp * 64 + unat b mod 64) (seen + 1) needed 0x80 0xBF bs
      else (cp * 64 + unat b mod 64) # utf8_decoder 0 0 0 0x80 0xBF bs)"
  by pat_completeness auto
termination
  by (relation "measure (\<lambda>(cp, seen, needed, lower, upper, bs).
        2 * length bs + (if needed = 0 then 0 else 1))") auto

definition utf8_decode :: "bytes \<Rightarrow> nat list" where
  "utf8_decode bs = utf8_decoder 0 0 0 0x80 0xBF bs"

definition strip_bom :: "nat list \<Rightarrow> nat list" where
  "strip_bom cps = (case cps of [] \<Rightarrow> [] | c # r \<Rightarrow> if c = 0xFEFF then r else c # r)"

definition utf16_units :: "nat \<Rightarrow> jsstring" where
  "utf16_units cp =
     (if cp < 0x10000 then [unit_of_nat cp]
      else [unit_of_nat (0xD800 + (cp - 0x10000) div 0x400),
            unit_of_nat (0xDC00 + (cp - 0x10000) mod 0x400)])"

definition from_scalar_values :: "nat list \<Rightarrow> jsstring" where
  "from_scalar_values cps = concat (map utf16_units cps)"

definition TextDecoder_decode :: "bytes \<Rightarrow> jsstring" where
  "TextDecoder_decode bs = from_scalar_values (strip_bom (utf8_decode bs))"

text \<open>
  A string survives the encoder unchanged when it has no unpaired surrogate; a scalar
  value is a code point that is not a surrogate.
\<close>

fun well_formed_utf16 :: "jsstring \<Rightarrow> bool" where
  "well_formed_utf16 [] = True"
| "well_formed_utf16 [c] = (\<not> is_surrogate c)"
| "well_formed_utf16 (c # d # r) =
     (if \<not> is_surrogate c then well_formed_utf16 (d # r)
      else is_lead c \<and> is_trail d \<and> well_formed_utf16 r)"

definition is_scalar_value :: "nat \<Rightarrow> bool" where
  "is_scalar_value cp = (cp < 0xD800 \<or> (0xE000 \<le> cp \<and> cp \<le> 0x10FFFF))"

section \<open>Effects: promises, the random source, the clock and the crypto provider\<close>

text \<open>
  An \<^verbatim>\<open>async\<close> function runs to its result or to an exception, changing the state it
  can reach on the way: \<open>('s, 'a) io\<close> takes the state and returns the result (\<open>Inl\<close> an
  exception) with the new state. \<open>await m f\<close> is \<^verbatim>\<open>const x = await m; f(x)\<close>: an
  exception of \<open>m\<close> ends the function.
\<close>

type_synonym ('s, 'a) io = "'s \<Rightarrow> (error + 'a) \<times> 's"

definition resolve :: "'a \<Rightarrow> ('s, 'a) io" where
  "resolve a s = (Inr a, s)"

definition throw :: "error \<Rightarrow> ('s, 'a) io" where
  "throw e s = (Inl e, s)"

definition of_result :: "error + 'a \<Rightarrow> ('s, 'a) io" where
  "of_result r s = (r, s)"

definition await :: "('s, 'a) io \<Rightarrow> ('a \<Rightarrow> ('s, 'b) io) \<Rightarrow> ('s, 'b) io" where
  "await m f s = (case m s of (Inl e, s') \<Rightarrow> (Inl e, s') | (Inr a, s') \<Rightarrow> f a s')"

definition try_catch :: "('s, 'a) io \<Rightarrow> (error \<Rightarrow> ('s, 'a) io) \<Rightarrow> ('s, 'a) io" where
  "try_catch m h s = (case m s of (Inl e, s') \<Rightarrow> h e s' | (Inr a, s') \<Rightarrow> (Inr a, s'))"

subsection \<open>Numbers, typed arrays, parsed JSON, objects with identity\<close>

text \<open>
  A \<^verbatim>\<open>number\<close> is a double: a finite value, NaN or an infinity. The finite values are
  taken from the rationals, which hold every finite double.
\<close>

datatype number = Finite rat | NaN | PosInfinity | NegInfinity

text \<open>
  \<open>ToIndex\<close> is the conversion \<^verbatim>\<open>new Uint8Array(length)\<close> applies to its argument: NaN
  counts as 0, a fraction is dropped (truncation towards zero), and a result below 0 or
  above \<open>2\<^sup>5\<^sup>3 - 1\<close> is a \<open>RangeError\<close>.
\<close>

definition ToIndex :: "number \<Rightarrow> error + nat" where
  "ToIndex x =
     (case x of
        NaN \<Rightarrow> Inr 0
      | PosInfinity \<Rightarrow> Inl RangeError
      | NegInfinity \<Rightarrow> Inl RangeError
      | Finite q \<Rightarrow>
          (let i = (if 0 \<le> q then \<lfloor>q\<rfloor> else \<lceil>q\<rceil>)
           in if i < 0 \<or> 2 ^ 53 - 1 < i then Inl RangeError else Inr (nat i)))"

text \<open>\<^verbatim>\<open>i < x\<close> for a loop counter \<open>i\<close>; a comparison with NaN is false.\<close>

definition less_number :: "nat \<Rightarrow> number \<Rightarrow> bool" where
  "less_number i x =
     (case x of Finite q \<Rightarrow> of_nat i < q | NaN \<Rightarrow> False | PosInfinity \<Rightarrow> True
      | NegInfinity \<Rightarrow> False)"

text \<open>
  A \<open>Uint8Array\<close> views \<open>u8_length\<close> bytes of its buffer from \<open>u8_byteOffset\<close> on;
  \<open>bytes_of\<close> are the bytes it holds, \<open>u8_buffer\<close> is what \<^verbatim>\<open>.buffer\<close> returns.
\<close>

record Uint8Array =
  u8_buffer :: bytes
  u8_byteOffset :: nat
  u8_length :: nat

definition bytes_of :: "Uint8Array \<Rightarrow> bytes" where
  "bytes_of a = take (u8_length a) (drop (u8_byteOffset a) (u8_buffer a))"

text \<open>The array \<^verbatim>\<open>new Uint8Array(n)\<close> makes, once filled: it views the whole of its buffer.\<close>

definition Uint8Array_of :: "bytes \<Rightarrow> Uint8Array" where
  "Uint8Array_of b = \<lparr>u8_buffer = b, u8_byteOffset = 0, u8_length = length b\<rparr>"

text \<open>
  What \<^verbatim>\<open>JSON.parse\<close> returns. The program reads the properties \<open>algorithm\<close>, \<open>data\<close> and
  \<open>iv\<close> of such a value: reading a property of \<^verbatim>\<open>null\<close> throws, an object has the
  properties of its list (each name once), and any other value has none of the three
  (\<open>None\<close> is \<^verbatim>\<open>undefined\<close>).
\<close>

datatype json =
    JNull
  | JBool bool
  | JNumber number
  | JString jsstring
  | JArray "json list"
  | JObject "(jsstring \<times> json) list"

definition get_property :: "json \<Rightarrow> jsstring \<Rightarrow> error + json option" where
  "get_property x name =
     (case x of JNull \<Rightarrow> Inl TypeError | JObject ps \<Rightarrow> Inr (map_of ps name) | _ \<Rightarrow> Inr None)"

text \<open>
  The conversion to a string that a template literal and the argument of \<^verbatim>\<open>atob\<close> apply.
  \<open>num\<close> writes a number. An array joins the strings of its elements with commas, an
  element \<^verbatim>\<open>null\<close> counting as the empty string; an object is \<^verbatim>\<open>[object Object]\<close>, unless
  it has a property \<open>toString\<close> of its own, which no parsed value can call.
\<close>

fun json_ToString :: "(number \<Rightarrow> jsstring) \<Rightarrow> json \<Rightarrow> error + jsstring"
  and join_elements :: "(number \<Rightarrow> jsstring) \<Rightarrow> json list \<Rightarrow> error + jsstring" where
  "json_ToString num JNull = Inr (ascii ''null'')"
| "json_ToString num (JBool b) = Inr (if b then ascii ''true'' else ascii ''false'')"
| "json_ToString num (JNumber n) = Inr (num n)"
| "json_ToString num (JString s) = Inr s"
| "json_ToString num (JArray xs) = join_elements num xs"
| "json_ToString num (JObject ps) =
     (if map_of ps (ascii ''toString'') = None then Inr (ascii ''[object Object]'')
      else Inl TypeError)"
| "join_elements num [] = Inr []"
| "join_elements num (x # xs) =
     (case (if x = JNull then Inr [] else json_ToString num x) of
        Inl e \<Rightarrow> Inl e
      | Inr s \<Rightarrow>
          (if xs = [] then Inr s
           else (case join_elements num xs of
                   Inl e \<Rightarrow> Inl e
                 | Inr t \<Rightarrow> Inr (s @ ascii '','' @ t))))"

definition ToString :: "(number \<Rightarrow> jsstring) \<Rightarrow> json option \<Rightarrow> error + jsstring" where
  "ToString num v = (case v of None \<Rightarrow> Inr (ascii ''undefined'') | Some x \<Rightarrow> json_ToString num x)"

text \<open>
  Objects with identity. Two object kinds of the program are written to or replaced in
  place: \<open>Date\<close> objects and the arrays of a vault. Each carries the reference that tells
  it from every other object, next to what it holds: a \<open>Date\<close> its time value
  (milliseconds, or the invalid date), an array its elements. References are handed out
  in order by the world (\<open>allocated\<close> below), so that an object made later never has the
  reference of one made before.
\<close>

type_synonym ref = nat

datatype time_value = TimeValue int | InvalidDate

record Date =
  date_ref :: ref
  date_value :: time_value

record 'a Array =
  array_ref :: ref
  elems :: "'a list"

subsection \<open>Data of \<^verbatim>\<open>types/crypto.ts\<close> and \<^verbatim>\<open>types/vault.ts\<close>\<close>

text \<open>
  Field names that two interfaces share, or that HOL or a local variable of the source
  already uses, carry a prefix: \<open>ed_\<close> (EncryptedData), \<open>kp_\<close> (KeyPair), \<open>mk_\<close>
  (MasterKey), \<open>ss_\<close> (SharedSecret), \<open>pw_\<close> (PasswordGenerationOptions), \<open>fld_\<close>
  (VaultEntryField), \<open>e_\<close> (VaultEntry), \<open>p_\<close> (Partial of VaultEntry), \<open>n_\<close> and
  \<open>nf_\<close> (a VaultEntry and a VaultFolder without id and time stamps), \<open>f_\<close>
  (VaultFolder), \<open>v_\<close> (Vault), \<open>ev_\<close> (EncryptedVault). An optional field is an
  \<open>option\<close>. \<open>'k\<close> is the type of \<^verbatim>\<open>CryptoKey\<close> handles, \<open>'d\<close> the type of dates: \<open>Date\<close>
  in memory, the string JSON holds after \<^verbatim>\<open>JSON.parse\<close>. The lengths of a
  \<open>CryptoConfig\<close> are natural numbers; the length of a password policy is any
  \<open>number\<close>, as \<^verbatim>\<open>generateSecurePassword\<close> is exported and takes what it is given.
\<close>

record EncryptedData =
  ed_data :: jsstring
  ed_iv :: jsstring
  ed_salt :: "jsstring option"
  ed_algorithm :: jsstring
  ed_keyDerivation :: "jsstring option"

record 'k KeyPair =
  kp_publicKey :: 'k
  kp_privateKey :: 'k


record SharedSecret =
  ss_encryptedData :: EncryptedData
  ss_recipientPublicKeyId :: jsstring
  ss_senderPublicKeyId :: jsstring

record CryptoConfig =
  aesKeyLength :: nat
  ivLength :: nat
  pbkdf2Iterations :: nat
  saltLength :: nat
  ecdhCurve :: jsstring

definition DEFAULT_CRYPTO_CONFIG :: CryptoConfig where
  "DEFAULT_CRYPTO_CONFIG =
     \<lparr>aesKeyLength = 256, ivLength = 12, pbkdf2Iterations = 100000, saltLength = 32,
      ecdhCurve = ascii ''P-256''\<rparr>"

record PasswordGenerationOptions =
  pw_length :: number
  includeUppercase :: bool
  includeLowercase :: bool
  includeNumbers :: bool
  includeSymbols :: bool
  excludeSimilar :: bool

record VaultEntryField =
  fld_id :: jsstring
  fld_name :: jsstring
  fld_value :: jsstring
  fld_type :: jsstring
  fld_sensitive :: bool

record 'd VaultEntry =
  e_id :: jsstring
  e_name :: jsstring
  e_type :: jsstring
  e_fields :: "VaultEntryField list"
  e_notes :: "jsstring option"
  e_favorite :: bool
  e_tags :: "jsstring list"
  e_folderId :: "jsstring option"
  e_createdAt :: 'd
  e_updatedAt :: 'd
  e_lastAccessedAt :: "'d option"
  e_expiresAt :: "'d option"

record 'd NewEntry =
  n_name :: jsstring
  n_type :: jsstring
  n_fields :: "VaultEntryField list"
  n_notes :: "jsstring option"
  n_favorite :: bool
  n_tags :: "jsstring list"
  n_folderId :: "jsstring option"
  n_lastAccessedAt :: "'d option"
  n_expiresAt :: "'d option"

record 'd PartialEntry =
  p_id :: "jsstring option"
  p_name :: "jsstring option"
  p_type :: "jsstring option"
  p_fields :: "VaultEntryField list option"
  p_notes :: "jsstring option option"
  p_favorite :: "bool option"
  p_tags :: "jsstring list option"
  p_folderId :: "jsstring option option"
  p_createdAt :: "'d option"
  p_lastAccessedAt :: "'d option option"
  p_expiresAt :: "'d option option"

record 'd VaultFolder =
  f_id :: jsstring
  f_name :: jsstring
  f_parentId :: "jsstring option"
  f_vaultId :: jsstring
  f_createdAt :: 'd
  f_updatedAt :: 'd

record NewFolder =
  nf_name :: jsstring
  nf_parentId :: "jsstring option"
  nf_vaultId :: jsstring

record Vault =
  v_id :: jsstring
  v_name :: jsstring
  v_description :: "jsstring option"
  v_entries :: "Date VaultEntry Array"
  v_folders :: "Date VaultFolder Array"
  v_ownerId :: jsstring
  v_organizationId :: "jsstring option"
  v_createdAt :: Date
  v_updatedAt :: Date
  v_lastAccessedAt :: "Date option"
  v_encryptedKey :: jsstring
  v_keyFingerprint :: jsstring

record EncryptedVault =
  ev_id :: jsstring
  ev_name :: jsstring
  ev_description :: "jsstring option"
  ev_encryptedData :: jsstring
  ev_encryptedKey :: jsstring
  ev_keyFingerprint :: jsstring
  ev_ownerId :: jsstring
  ev_organizationId :: "jsstring option"
  ev_createdAt :: Date
  ev_updatedAt :: Date
  ev_lastAccessedAt :: "Date option"

subsection \<open>The platform\<close>

text \<open>
  The cryptographic primitives are not code of the repository: \<^verbatim>\<open>crypto.subtle\<close> is a
  capability the program is given, and so are \<^verbatim>\<open>JSON.parse\<close>, \<^verbatim>\<open>JSON.stringify\<close>, the
  writing of a number, the parsing of a date string and the memory of the engine. A
  \<open>platform\<close> holds one function for each call the program makes, with the arguments the
  source passes; an operation that rejects returns \<open>Inl\<close>.
  \<^item> \<open>subtle_importKey_PBKDF2 b\<close>:
    \<^verbatim>\<open>importKey('raw', b, 'PBKDF2', false, ['deriveBits', 'deriveKey'])\<close>
  \<^item> \<open>subtle_deriveKey_PBKDF2 s n m l\<close>: \<^verbatim>\<open>deriveKey({name: 'PBKDF2', salt: s,
    iterations: n, hash: 'SHA-256'}, m, {name: 'AES-GCM', length: l}, false,
    ['encrypt', 'decrypt'])\<close>
  \<^item> \<open>subtle_encrypt i k d\<close>: \<^verbatim>\<open>encrypt({name: 'AES-GCM', iv: i}, k, d)\<close>, and
    \<open>subtle_decrypt\<close> likewise
  \<^item> \<open>subtle_exportKey_spki k\<close>: \<^verbatim>\<open>exportKey('spki', k)\<close>
  \<^item> \<open>subtle_digest_SHA256 b\<close>: \<^verbatim>\<open>digest('SHA-256', b)\<close>
  \<^item> \<open>subtle_importKey_AES_GCM b l\<close>: \<^verbatim>\<open>importKey('raw', b, {name: 'AES-GCM',
    length: l}, true, ['encrypt', 'decrypt'])\<close>
  \<^item> \<open>subtle_deriveKey_ECDH pub priv l\<close>: \<^verbatim>\<open>deriveKey({name: 'ECDH', public: pub}, priv,
    {name: 'AES-GCM', length: l}, false, ['encrypt', 'decrypt'])\<close>
  \<^item> \<open>JSON_parse s\<close>: \<^verbatim>\<open>JSON.parse(s)\<close>, \<open>None\<close> when it throws its \<open>SyntaxError\<close>
  \<^item> \<open>JSON_parse_payload s\<close>: \<^verbatim>\<open>JSON.parse(s)\<close> read as the source reads a vault
    payload, \<^verbatim>\<open>{entries, folders}\<close> with its dates still strings: \<open>Inl SyntaxError\<close> for
    a text that is not JSON, \<open>Inl TypeError\<close> for a value without a list of entries
    and a list of folders to map over
  \<^item> \<open>Number_toString n\<close>: the string of the number \<open>n\<close>
  \<^item> \<open>Date_parse s\<close>: the time value of \<^verbatim>\<open>new Date(s)\<close>
  \<^item> \<open>max_byte_length\<close>: the longest buffer the engine allocates; \<^verbatim>\<open>new Uint8Array(n)\<close>
    throws a \<open>RangeError\<close> for a longer one.
\<close>

record 'k platform =
  subtle_importKey_PBKDF2 :: "bytes \<Rightarrow> dom_exception + 'k"
  subtle_deriveKey_PBKDF2 :: "bytes \<Rightarrow> nat \<Rightarrow> 'k \<Rightarrow> nat \<Rightarrow> dom_exception + 'k"
  subtle_encrypt :: "bytes \<Rightarrow> 'k \<Rightarrow> bytes \<Rightarrow> dom_exception + bytes"
  subtle_decrypt :: "bytes \<Rightarrow> 'k \<Rightarrow> bytes \<Rightarrow> dom_exception + bytes"
  subtle_exportKey_spki :: "'k \<Rightarrow> dom_exception + bytes"
  subtle_digest_SHA256 :: "bytes \<Rightarrow> bytes"
  subtle_importKey_AES_GCM :: "bytes \<Rightarrow> nat \<Rightarrow> dom_exception + 'k"
  subtle_deriveKey_ECDH :: "'k \<Rightarrow> 'k \<Rightarrow> nat \<Rightarrow> dom_exception + 'k"
  JSON_parse :: "jsstring \<Rightarrow> json option"
  JSON_stringify_EncryptedData :: "EncryptedData \<Rightarrow> jsstring"
  JSON_parse_payload ::
    "jsstring \<Rightarrow> error + jsstring VaultEntry list \<times> jsstring VaultFolder list"
  JSON_stringify_payload :: "Date VaultEntry list \<Rightarrow> Date VaultFolder list \<Rightarrow> jsstring"
  Number_toString :: "number \<Rightarrow> jsstring"
  Date_parse :: "jsstring \<Rightarrow> time_value"
  max_byte_length :: nat

text \<open>
  The world outside the program: the bytes \<^verbatim>\<open>crypto.getRandomValues\<close> will deliver and
  how many it has delivered, the readings of the clock (\<^verbatim>\<open>new Date()\<close>) and the
  identifiers \<^verbatim>\<open>crypto.randomUUID()\<close> will return, the log of the \<^verbatim>\<open>crypto.subtle\<close>
  operations performed so far, oldest first, and the number of objects with identity
  made so far, which is the reference of the next one.
\<close>

datatype 'k call =
    Call_importKey_PBKDF2 bytes
  | Call_deriveKey_PBKDF2 bytes nat 'k nat
  | Call_encrypt bytes 'k bytes
  | Call_decrypt bytes 'k bytes
  | Call_exportKey_spki 'k
  | Call_digest_SHA256 bytes
  | Call_importKey_AES_GCM bytes nat
  | Call_deriveKey_ECDH 'k 'k nat

record 'k world =
  entropy :: "nat \<Rightarrow> byte"
  drawn :: nat
  clock :: "nat \<Rightarrow> int"
  ticks :: nat
  uuids :: "nat \<Rightarrow> jsstring"
  issued :: nat
  calls :: "'k call list"
  allocated :: nat

definition subtle :: "'k call \<Rightarrow> dom_exception + 'a \<Rightarrow> ('k world, 'a) io" where
  "subtle c r w =
     ((case r of Inl d \<Rightarrow> Inl (DOMException d) | Inr a \<Rightarrow> Inr a), w\<lparr>calls := calls w @ [c]\<rparr>)"

text \<open>A new object with identity takes the next reference.\<close>

definition new_ref :: "('k world, ref) io" where
  "new_ref w = (Inr (allocated w), w\<lparr>allocated := allocated w + 1\<rparr>)"

text \<open>\<^verbatim>\<open>new Date()\<close> reads the clock; \<^verbatim>\<open>new Date(s)\<close> parses the string \<open>s\<close>.\<close>

definition new_Date :: "('k world, Date) io" where
  "new_Date w =
     (Inr \<lparr>date_ref = allocated w, date_value = TimeValue (clock w (ticks w))\<rparr>,
      w\<lparr>ticks := ticks w + 1, allocated := allocated w + 1\<rparr>)"

definition new_Date_of :: "'k platform \<Rightarrow> jsstring \<Rightarrow> ('k world, Date) io" where
  "new_Date_of P s w =
     (Inr \<lparr>date_ref = allocated w, date_value = Date_parse P s\<rparr>,
      w\<lparr>allocated := allocated w + 1\<rparr>)"

definition crypto_randomUUID :: "('k world, jsstring) io" where
  "crypto_randomUUID w = (Inr (uuids w (issued w)), w\<lparr>issued := issued w + 1\<rparr>)"

text \<open>
  \<^verbatim>\<open>crypto.getRandomValues\<close> throws \<open>QuotaExceededError\<close> for an array of more than
  65536 bytes and otherwise fills it with the next bytes of the source.
\<close>

definition crypto_getRandomValues :: "nat \<Rightarrow> ('k world, bytes) io" where
  "crypto_getRandomValues len w =
     (if 65536 < len then (Inl (DOMException QuotaExceededError), w)
      else (Inr (map (entropy w) [drawn w ..< drawn w + len]), w\<lparr>drawn := drawn w + len\<rparr>))"

text \<open>
  \<^verbatim>\<open>new Uint8Array(length)\<close> for any number: the length of the array it makes, or the
  \<open>RangeError\<close> of a length that is no index or that is past what the engine allocates.
\<close>

definition new_Uint8Array :: "'k platform \<Rightarrow> number \<Rightarrow> error + nat" where
  "new_Uint8Array P len =
     (case ToIndex len of
        Inl e \<Rightarrow> Inl e
      | Inr n \<Rightarrow> if max_byte_length P < n then Inl RangeError else Inr n)"

section \<open>\<^verbatim>\<open>lib/crypto/utils.ts\<close>\<close>

text \<open>
  \<^verbatim>\<open>crypto.getRandomValues(new Uint8Array(length))\<close>. \<open>generateRandomBytes\<close> is the call
  at a length that is an array length, as the lengths of a \<open>CryptoConfig\<close> are: the
  array of that many bytes is made and filled. \<open>generateRandomBytes_number\<close> is the call
  at any number: \<^verbatim>\<open>new Uint8Array\<close> first turns it into an array length, or throws.
\<close>

definition generateRandomBytes :: "nat \<Rightarrow> ('k world, bytes) io" where
  "generateRandomBytes len = crypto_getRandomValues len"

definition generateRandomBytes_number :: "'k platform \<Rightarrow> number \<Rightarrow> ('k world, bytes) io" where
  "generateRandomBytes_number P len =
     await (of_result (new_Uint8Array P len)) (\<lambda>n. generateRandomBytes n)"

definition String_fromCharCode :: "byte \<Rightarrow> jschar" where
  "String_fromCharCode b = ucast b"

text \<open>The loop appends one character per byte, then \<^verbatim>\<open>btoa\<close> encodes the string.\<close>

definition arrayBufferToBase64 :: "bytes \<Rightarrow> error + jsstring" where
  "arrayBufferToBase64 buffer =
     btoa (foldl (\<lambda>binary b. binary @ [String_fromCharCode b]) [] buffer)"

text \<open>
  \<^verbatim>\<open>bytes[i] = binary.charCodeAt(i)\<close> stores the code unit in a \<open>Uint8Array\<close>, which keeps
  its low eight bits.
\<close>

definition base64ToArrayBuffer :: "jsstring \<Rightarrow> error + bytes" where
  "base64ToArrayBuffer base64 =
     (case atob base64 of
        Inl e \<Rightarrow> Inl e
      | Inr binary \<Rightarrow> Inr (foldl (\<lambda>bs ch. bs @ [ucast ch]) [] binary))"

definition stringToArrayBuffer :: "jsstring \<Rightarrow> bytes" where
  "stringToArrayBuffer str = TextEncoder_encode str"

definition arrayBufferToString :: "bytes \<Rightarrow> jsstring" where
  "arrayBufferToString buffer = TextDecoder_decode buffer"

text \<open>
  \<^verbatim>\<open>generateSecurePassword\<close>: the character set grows class by class. The loop runs
  while \<^verbatim>\<open>i < options.length\<close> and appends \<^verbatim>\<open>charset[randomBytes[i] % charset.length]\<close>.
  Where the length has a fraction, the last round reads past the end of the array:
  \<^verbatim>\<open>randomBytes[i]\<close> is \<^verbatim>\<open>undefined\<close>, the remainder NaN, the character \<^verbatim>\<open>undefined\<close>,
  and the nine code units of \<open>undefined\<close> are appended. \<open>rounds\<close> counts the rounds
  of the loop; it is reached only after \<^verbatim>\<open>new Uint8Array\<close> has accepted the length, which
  it never does for an infinity.
\<close>

definition rounds :: "number \<Rightarrow> nat" where
  "rounds x = (case x of Finite q \<Rightarrow> nat \<lceil>q\<rceil> | _ \<Rightarrow> 0)"

definition charset_of :: "PasswordGenerationOptions \<Rightarrow> jsstring" where
  "charset_of options =
     (let charset = [];
          charset = (if includeUppercase options
                     then charset @ (if excludeSimilar options
                                     then ascii ''ABCDEFGHJKLMNPQRSTUVWXYZ''
                                     else ascii ''ABCDEFGHIJKLMNOPQRSTUVWXYZ'')
                     else charset);
          charset = (if includeLowercase options
                     then charset @ (if excludeSimilar options
                                     then ascii ''abcdefghjkmnpqrstuvwxyz''
                                     else ascii ''abcdefghijklmnopqrstuvwxyz'')
                     else charset);
          charset = (if includeNumbers options
                     then charset @ (if excludeSimilar options
                                     then ascii ''23456789''
                                     else ascii ''0123456789'')
                     else charset);
          charset = (if includeSymbols options
                     then charset @ ascii ''!@#$%^&*()_+-=[]{}|;:,.<>?''
                     else charset)
      in charset)"

definition generateSecurePassword ::
  "'k platform \<Rightarrow> PasswordGenerationOptions \<Rightarrow> ('k world, jsstring) io" where
  "generateSecurePassword P options =
     (let charset = charset_of options in
      if charset = [] then throw InvalidPolicy
      else await (generateRandomBytes_number P (pw_length options)) (\<lambda>randomBytes.
           resolve (foldl (\<lambda>password i.
                      if i < length randomBytes
                      then password @ [charset ! (unat (randomBytes ! i) mod length charset)]
                      else password @ ascii ''undefined'')
                    [] [0 ..< rounds (pw_length options)])))"

definition generateKeyFingerprint :: "'k platform \<Rightarrow> 'k \<Rightarrow> ('k world, jsstring) io" where
  "generateKeyFingerprint P publicKey =
     await (subtle (Call_exportKey_spki publicKey) (subtle_exportKey_spki P publicKey))
       (\<lambda>exported.
     await (subtle (Call_digest_SHA256 exported) (Inr (subtle_digest_SHA256 P exported)))
       (\<lambda>hash.
     await (of_result (arrayBufferToBase64 hash)) (\<lambda>b64.
     resolve (take 16 b64))))"

section \<open>\<^verbatim>\<open>lib/crypto/encryption.ts\<close>\<close>


definition encryptData ::
  "'k platform \<Rightarrow> jsstring \<Rightarrow> 'k \<Rightarrow> CryptoConfig \<Rightarrow> ('k world, EncryptedData) io" where
  "encryptData P data key config =
     await (generateRandomBytes (ivLength config)) (\<lambda>iv.
     (let dataBuffer = stringToArrayBuffer data in
      await (subtle (Call_encrypt iv key dataBuffer) (subtle_encrypt P iv key dataBuffer))
        (\<lambda>encryptedBuffer.
      await (of_result (arrayBufferToBase64 encryptedBuffer)) (\<lambda>data64.
      await (of_result (arrayBufferToBase64 iv)) (\<lambda>iv64.
      resolve \<lparr>ed_data = data64, ed_iv = iv64, ed_salt = None,
               ed_algorithm = ascii ''AES-GCM'', ed_keyDerivation = None\<rparr>)))))"

text \<open>
  The algorithm check and the two base64 decodings stand before the \<^verbatim>\<open>try\<close> block; only
  what \<^verbatim>\<open>crypto.subtle.decrypt\<close> (or the decoding of its result) throws is caught and
  replaced by the generic error.
\<close>

definition decryptData :: "'k platform \<Rightarrow> EncryptedData \<Rightarrow> 'k \<Rightarrow> ('k world, jsstring) io" where
  "decryptData P encryptedData key =
     (if ed_algorithm encryptedData \<noteq> ascii ''AES-GCM''
      then throw (UnsupportedAlgorithm (ed_algorithm encryptedData))
      else
        await (of_result (base64ToArrayBuffer (ed_data encryptedData))) (\<lambda>dataBuffer.
        await (of_result (base64ToArrayBuffer (ed_iv encryptedData))) (\<lambda>iv.
        try_catch
          (await (subtle (Call_decrypt iv key dataBuffer) (subtle_decrypt P iv key dataBuffer))
             (\<lambda>decryptedBuffer. resolve (arrayBufferToString decryptedBuffer)))
          (\<lambda>error. throw DecryptionFailed))))"

text \<open>
  \<^verbatim>\<open>decryptData(JSON.parse(s), key)\<close>. The annotation \<^verbatim>\<open>EncryptedData\<close> on the parsed
  value checks nothing when the program runs, so \<^verbatim>\<open>decryptData\<close> makes its reads on
  whatever the text holds, in the order of the source: \<open>algorithm\<close>, compared with
  \<^verbatim>\<open>!==\<close> and written into the message when it is not the string \<open>AES-GCM\<close>; \<open>data\<close>,
  turned into a string and decoded by \<^verbatim>\<open>atob\<close>; \<open>iv\<close> likewise. Where all of that
  passes, the rest is \<open>decryptData\<close> on the record of the three strings.
\<close>

definition JSON_parse_text :: "'k platform \<Rightarrow> jsstring \<Rightarrow> ('k world, json) io" where
  "JSON_parse_text P s = (case JSON_parse P s of None \<Rightarrow> throw SyntaxError | Some x \<Rightarrow> resolve x)"

definition decryptData_parsed :: "'k platform \<Rightarrow> json \<Rightarrow> 'k \<Rightarrow> ('k world, jsstring) io" where
  "decryptData_parsed P x key =
     await (of_result (get_property x (ascii ''algorithm''))) (\<lambda>algorithm.
     if algorithm \<noteq> Some (JString (ascii ''AES-GCM''))
     then await (of_result (ToString (Number_toString P) algorithm)) (\<lambda>a.
          throw (UnsupportedAlgorithm a))
     else
       await (of_result (get_property x (ascii ''data''))) (\<lambda>d.
       await (of_result (ToString (Number_toString P) d)) (\<lambda>data.
       await (of_result (base64ToArrayBuffer data)) (\<lambda>dataBuffer.
       await (of_result (get_property x (ascii ''iv''))) (\<lambda>i.
       await (of_result (ToString (Number_toString P) i)) (\<lambda>iv.
       decryptData P
         \<lparr>ed_data = data, ed_iv = iv, ed_salt = None, ed_algorithm = ascii ''AES-GCM'',
          ed_keyDerivation = None\<rparr> key))))))"

definition importKey ::
  "'k platform \<Rightarrow> jsstring \<Rightarrow> 'k \<Rightarrow> CryptoConfig \<Rightarrow> ('k world, 'k) io" where
  "importKey P encryptedKeyData masterKey config =
     await (JSON_parse_text P encryptedKeyData) (\<lambda>encryptedKey.
     await (decryptData_parsed P encryptedKey masterKey) (\<lambda>keyData.
     await (of_result (base64ToArrayBuffer keyData)) (\<lambda>keyBuffer.
     subtle (Call_importKey_AES_GCM keyBuffer (aesKeyLength config))
       (subtle_importKey_AES_GCM P keyBuffer (aesKeyLength config)))))"

section \<open>\<^verbatim>\<open>lib/crypto/keyExchange.ts\<close>\<close>

definition deriveSharedKey :: "'k platform \<Rightarrow> 'k \<Rightarrow> 'k \<Rightarrow> CryptoConfig \<Rightarrow> ('k world, 'k) io" where
  "deriveSharedKey P privateKey publicKey config =
     subtle (Call_deriveKey_ECDH publicKey privateKey (aesKeyLength config))
       (subtle_deriveKey_ECDH P publicKey privateKey (aesKeyLength config))"

definition encryptForRecipient ::
  "'k platform \<Rightarrow> jsstring \<Rightarrow> 'k \<Rightarrow> 'k \<Rightarrow> 'k \<Rightarrow> CryptoConfig \<Rightarrow> ('k world, SharedSecret) io" where
  "encryptForRecipient P data senderPrivateKey senderPublicKey recipientPublicKey config =
     await (deriveSharedKey P senderPrivateKey recipientPublicKey config) (\<lambda>sharedKey.
     await (encryptData P data sharedKey config) (\<lambda>encryptedData.
     await (generateKeyFingerprint P senderPublicKey) (\<lambda>senderPublicKeyId.
     await (generateKeyFingerprint P recipientPublicKey) (\<lambda>recipientPublicKeyId.
     resolve \<lparr>ss_encryptedData = encryptedData, ss_recipientPublicKeyId = recipientPublicKeyId,
              ss_senderPublicKeyId = senderPublicKeyId\<rparr>))))"

definition decryptFromSender ::
  "'k platform \<Rightarrow> SharedSecret \<Rightarrow> 'k \<Rightarrow> 'k \<Rightarrow> CryptoConfig \<Rightarrow> ('k world, jsstring) io" where
  "decryptFromSender P sharedSecret recipientPrivateKey senderPublicKey config =
     await (generateKeyFingerprint P senderPublicKey) (\<lambda>expectedSenderKeyId.
     if expectedSenderKeyId \<noteq> ss_senderPublicKeyId sharedSecret then throw SenderMismatch
     else
       await (deriveSharedKey P recipientPrivateKey senderPublicKey config) (\<lambda>sharedKey.
       decryptData P (ss_encryptedData sharedSecret) sharedKey))"

text \<open>
  The \<^verbatim>\<open>for ... of\<close> loop of \<^verbatim>\<open>createSecureSharingPayload\<close>: one
  \<^verbatim>\<open>encryptForRecipient\<close> per recipient, in order, its result pushed on the list; an
  exception ends the loop and the function.
\<close>

fun sharing_loop ::
  "'k platform \<Rightarrow> jsstring \<Rightarrow> 'k KeyPair \<Rightarrow> CryptoConfig \<Rightarrow> 'k list \<Rightarrow> SharedSecret list \<Rightarrow>
   ('k world, SharedSecret list) io" where
  "sharing_loop P data senderKeyPair config [] sharedSecrets = resolve sharedSecrets"
| "sharing_loop P data senderKeyPair config (recipientPublicKey # rest) sharedSecrets =
     await (encryptForRecipient P data (kp_privateKey senderKeyPair) (kp_publicKey senderKeyPair)
              recipientPublicKey config) (\<lambda>sharedSecret.
     sharing_loop P data senderKeyPair config rest (sharedSecrets @ [sharedSecret]))"

definition createSecureSharingPayload ::
  "'k platform \<Rightarrow> jsstring \<Rightarrow> 'k KeyPair \<Rightarrow> 'k list \<Rightarrow> CryptoConfig \<Rightarrow>
   ('k world, SharedSecret list) io" where
  "createSecureSharingPayload P data senderKeyPair recipientPublicKeys config =
     sharing_loop P data senderKeyPair config recipientPublicKeys []"

section \<open>\<^verbatim>\<open>lib/vault/vaultService.ts\<close>\<close>

text \<open>
  \<^verbatim>\<open>Array.prototype.map\<close> with a callback that has effects: the new array is made first,
  then the callback runs on the elements in order.
\<close>

fun map_io :: "('a \<Rightarrow> ('s, 'b) io) \<Rightarrow> 'a list \<Rightarrow> ('s, 'b list) io" where
  "map_io f [] = resolve []"
| "map_io f (x # xs) = await (f x) (\<lambda>y. await (map_io f xs) (\<lambda>ys. resolve (y # ys)))"

definition Array_map :: "('a \<Rightarrow> ('k world, 'b) io) \<Rightarrow> 'a list \<Rightarrow> ('k world, 'b Array) io" where
  "Array_map f xs =
     await new_ref (\<lambda>r. await (map_io f xs) (\<lambda>ys. resolve \<lparr>array_ref = r, elems = ys\<rparr>))"

text \<open>
  \<^verbatim>\<open>decryptVaultData\<close> turns the date strings of the parsed payload back into dates;
  an optional date that is absent or falsy (the empty string) becomes \<^verbatim>\<open>undefined\<close>.
\<close>

definition revive_optional_date ::
  "'k platform \<Rightarrow> jsstring option \<Rightarrow> ('k world, Date option) io" where
  "revive_optional_date P d =
     (case d of
        None \<Rightarrow> resolve None
      | Some s \<Rightarrow> if s = [] then resolve None
                  else await (new_Date_of P s) (\<lambda>x. resolve (Some x)))"

definition revive_entry :: "'k platform \<Rightarrow> jsstring VaultEntry \<Rightarrow> ('k world, Date VaultEntry) io"
  where
  "revive_entry P entry =
     await (new_Date_of P (e_createdAt entry)) (\<lambda>createdAt.
     await (new_Date_of P (e_updatedAt entry)) (\<lambda>updatedAt.
     await (revive_optional_date P (e_lastAccessedAt entry)) (\<lambda>lastAccessedAt.
     await (revive_optional_date P (e_expiresAt entry)) (\<lambda>expiresAt.
     resolve
       \<lparr>e_id = e_id entry, e_name = e_name entry, e_type = e_type entry,
        e_fields = e_fields entry, e_notes = e_notes entry, e_favorite = e_favorite entry,
        e_tags = e_tags entry, e_folderId = e_folderId entry,
        e_createdAt = createdAt, e_updatedAt = updatedAt,
        e_lastAccessedAt = lastAccessedAt, e_expiresAt = expiresAt\<rparr>))))"

definition revive_folder ::
  "'k platform \<Rightarrow> jsstring VaultFolder \<Rightarrow> ('k world, Date VaultFolder) io" where
  "revive_folder P folder =
     await (new_Date_of P (f_createdAt folder)) (\<lambda>createdAt.
     await (new_Date_of P (f_updatedAt folder)) (\<lambda>updatedAt.
     resolve
       \<lparr>f_id = f_id folder, f_name = f_name folder, f_parentId = f_parentId folder,
        f_vaultId = f_vaultId folder, f_createdAt = createdAt, f_updatedAt = updatedAt\<rparr>))"

text \<open>
  \<^verbatim>\<open>JSON.stringify\<close> writes what the arrays hold, whichever objects they are.
\<close>

definition encryptVaultData :: "'k platform \<Rightarrow> Vault \<Rightarrow> 'k \<Rightarrow> ('k world, jsstring) io" where
  "encryptVaultData P vault vaultKey =
     await (encryptData P
              (JSON_stringify_payload P (elems (v_entries vault)) (elems (v_folders vault)))
              vaultKey DEFAULT_CRYPTO_CONFIG) (\<lambda>encrypted.
     resolve (JSON_stringify_EncryptedData P encrypted))"

definition decryptVaultData ::
  "'k platform \<Rightarrow> jsstring \<Rightarrow> 'k \<Rightarrow>
   ('k world, Date VaultEntry Array \<times> Date VaultFolder Array) io" where
  "decryptVaultData P encryptedData vaultKey =
     await (JSON_parse_text P encryptedData) (\<lambda>encrypted.
     await (decryptData_parsed P encrypted vaultKey) (\<lambda>decryptedJson.
     await (of_result (JSON_parse_payload P decryptedJson)) (\<lambda>data.
     await (Array_map (revive_entry P) (fst data)) (\<lambda>entries.
     await (Array_map (revive_folder P) (snd data)) (\<lambda>folders.
     resolve (entries, folders))))))"

definition decryptVault :: "'k platform \<Rightarrow> EncryptedVault \<Rightarrow> 'k \<Rightarrow> ('k world, Vault) io" where
  "decryptVault P encryptedVault masterKey =
     await (importKey P (ev_encryptedKey encryptedVault) masterKey DEFAULT_CRYPTO_CONFIG)
       (\<lambda>vaultKey.
     await (generateKeyFingerprint P vaultKey) (\<lambda>keyFingerprint.
     if keyFingerprint \<noteq> ev_keyFingerprint encryptedVault then throw KeyIntegrityViolation
     else
       await (decryptVaultData P (ev_encryptedData encryptedVault) vaultKey) (\<lambda>vaultData.
       resolve
         \<lparr>v_id = ev_id encryptedVault, v_name = ev_name encryptedVault,
          v_description = ev_description encryptedVault,
          v_entries = fst vaultData, v_folders = snd vaultData,
          v_ownerId = ev_ownerId encryptedVault,
          v_organizationId = ev_organizationId encryptedVault,
          v_createdAt = ev_createdAt encryptedVault, v_updatedAt = ev_updatedAt encryptedVault,
          v_lastAccessedAt = ev_lastAccessedAt encryptedVault,
          v_encryptedKey = ev_encryptedKey encryptedVault,
          v_keyFingerprint = ev_keyFingerprint encryptedVault\<rparr>)))"

text \<open>
  The mutating operations take the caller's \<open>Vault\<close> object by reference and write to
  it. Their state is the pair of that object and the world: \<open>read_vault\<close> reads the
  object, \<open>write_vault\<close> assigns to its fields, \<open>in_world\<close> runs an operation that does
  not touch it. The dates and the two arrays a vault holds are objects of their own,
  with their references: an assignment of a new \<open>Date\<close> or a new array changes the
  reference the field holds, a \<^verbatim>\<open>push\<close> or an indexed assignment changes the elements of
  the array the field already holds.
\<close>

definition read_vault :: "(Vault \<times> 'w, Vault) io" where
  "read_vault s = (Inr (fst s), s)"

definition write_vault :: "(Vault \<Rightarrow> Vault) \<Rightarrow> (Vault \<times> 'w, unit) io" where
  "write_vault f s = (Inr (), (f (fst s), snd s))"

definition in_world :: "('w, 'a) io \<Rightarrow> (Vault \<times> 'w, 'a) io" where
  "in_world m s = (case m (snd s) of (r, w') \<Rightarrow> (r, (fst s, w')))"

text \<open>The object literal that \<^verbatim>\<open>updateVault\<close> returns.\<close>

definition EncryptedVault_of :: "Vault \<Rightarrow> jsstring \<Rightarrow> EncryptedVault" where
  "EncryptedVault_of vault encryptedData =
     \<lparr>ev_id = v_id vault, ev_name = v_name vault, ev_description = v_description vault,
      ev_encryptedData = encryptedData, ev_encryptedKey = v_encryptedKey vault,
      ev_keyFingerprint = v_keyFingerprint vault, ev_ownerId = v_ownerId vault,
      ev_organizationId = v_organizationId vault, ev_createdAt = v_createdAt vault,
      ev_updatedAt = v_updatedAt vault, ev_lastAccessedAt = v_lastAccessedAt vault\<rparr>"

definition updateVault :: "'k platform \<Rightarrow> 'k \<Rightarrow> (Vault \<times> 'k world, EncryptedVault) io" where
  "updateVault P masterKey =
     await read_vault (\<lambda>vault0.
     await (in_world (importKey P (v_encryptedKey vault0) masterKey DEFAULT_CRYPTO_CONFIG))
       (\<lambda>vaultKey.
     await (in_world new_Date) (\<lambda>now.
     await (write_vault (\<lambda>v. v\<lparr>v_updatedAt := now\<rparr>)) (\<lambda>_.
     await read_vault (\<lambda>vault.
     await (in_world (encryptVaultData P vault vaultKey)) (\<lambda>encryptedData.
     resolve (EncryptedVault_of vault encryptedData)))))))"

text \<open>
  \<^verbatim>\<open>{...entry, id: crypto.randomUUID(), createdAt: new Date(), updatedAt: new Date()}\<close>,
  pushed on the array the vault holds: the array stays the same object.
\<close>

definition new_entry_of :: "Date NewEntry \<Rightarrow> jsstring \<Rightarrow> Date \<Rightarrow> Date \<Rightarrow> Date VaultEntry" where
  "new_entry_of entry id0 createdAt updatedAt =
     \<lparr>e_id = id0, e_name = n_name entry, e_type = n_type entry, e_fields = n_fields entry,
      e_notes = n_notes entry, e_favorite = n_favorite entry, e_tags = n_tags entry,
      e_folderId = n_folderId entry, e_createdAt = createdAt, e_updatedAt = updatedAt,
      e_lastAccessedAt = n_lastAccessedAt entry, e_expiresAt = n_expiresAt entry\<rparr>"

definition new_folder_of :: "NewFolder \<Rightarrow> jsstring \<Rightarrow> Date \<Rightarrow> Date \<Rightarrow> Date VaultFolder" where
  "new_folder_of folder id0 createdAt updatedAt =
     \<lparr>f_id = id0, f_name = nf_name folder, f_parentId = nf_parentId folder,
      f_vaultId = nf_vaultId folder, f_createdAt = createdAt, f_updatedAt = updatedAt\<rparr>"

definition addEntry ::
  "'k platform \<Rightarrow> Date NewEntry \<Rightarrow> 'k \<Rightarrow> (Vault \<times> 'k world, EncryptedVault) io" where
  "addEntry P entry masterKey =
     await (in_world crypto_randomUUID) (\<lambda>id0.
     await (in_world new_Date) (\<lambda>createdAt.
     await (in_world new_Date) (\<lambda>updatedAt.
     (let newEntry = new_entry_of entry id0 createdAt updatedAt
      in await (write_vault (\<lambda>v. v\<lparr>v_entries :=
                  (v_entries v)\<lparr>elems := elems (v_entries v) @ [newEntry]\<rparr>\<rparr>)) (\<lambda>_.
         updateVault P masterKey)))))"

fun findIndex :: "('a \<Rightarrow> bool) \<Rightarrow> 'a list \<Rightarrow> nat option" where
  "findIndex p [] = None"
| "findIndex p (x # xs) =
     (if p x then Some 0 else map_option Suc (findIndex p xs))"

text \<open>\<^verbatim>\<open>{...old, ...updates, updatedAt: new Date()}\<close>: a field of \<open>updates\<close> that is present wins.\<close>

definition merge_entry :: "Date VaultEntry \<Rightarrow> Date PartialEntry \<Rightarrow> Date \<Rightarrow> Date VaultEntry" where
  "merge_entry old updates now =
     \<lparr>e_id = (case p_id updates of Some x \<Rightarrow> x | None \<Rightarrow> e_id old),
      e_name = (case p_name updates of Some x \<Rightarrow> x | None \<Rightarrow> e_name old),
      e_type = (case p_type updates of Some x \<Rightarrow> x | None \<Rightarrow> e_type old),
      e_fields = (case p_fields updates of Some x \<Rightarrow> x | None \<Rightarrow> e_fields old),
      e_notes = (case p_notes updates of Some x \<Rightarrow> x | None \<Rightarrow> e_notes old),
      e_favorite = (case p_favorite updates of Some x \<Rightarrow> x | None \<Rightarrow> e_favorite old),
      e_tags = (case p_tags updates of Some x \<Rightarrow> x | None \<Rightarrow> e_tags old),
      e_folderId = (case p_folderId updates of Some x \<Rightarrow> x | None \<Rightarrow> e_folderId old),
      e_createdAt = (case p_createdAt updates of Some x \<Rightarrow> x | None \<Rightarrow> e_createdAt old),
      e_updatedAt = now,
      e_lastAccessedAt =
        (case p_lastAccessedAt updates of Some x \<Rightarrow> x | None \<Rightarrow> e_lastAccessedAt old),
      e_expiresAt = (case p_expiresAt updates of Some x \<Rightarrow> x | None \<Rightarrow> e_expiresAt old)\<rparr>"

definition updateEntry ::
  "'k platform \<Rightarrow> jsstring \<Rightarrow> Date PartialEntry \<Rightarrow> 'k \<Rightarrow>
   (Vault \<times> 'k world, EncryptedVault) io" where
  "updateEntry P entryId updates masterKey =
     await read_vault (\<lambda>vault.
     (case findIndex (\<lambda>e. e_id e = entryId) (elems (v_entries vault)) of
        None \<Rightarrow> throw EntryNotFound
      | Some entryIndex \<Rightarrow>
          await (in_world new_Date) (\<lambda>now.
          await (write_vault (\<lambda>v. v\<lparr>v_entries := (v_entries v)\<lparr>elems :=
                   (elems (v_entries v))
                     [entryIndex := merge_entry (elems (v_entries v) ! entryIndex) updates now]
                   \<rparr>\<rparr>))
            (\<lambda>_.
          updateVault P masterKey))))"

text \<open>\<^verbatim>\<open>vault.entries = vault.entries.filter(...)\<close>: the vault is given a new array.\<close>

definition deleteEntry ::
  "'k platform \<Rightarrow> jsstring \<Rightarrow> 'k \<Rightarrow> (Vault \<times> 'k world, EncryptedVault) io" where
  "deleteEntry P entryId masterKey =
     await (in_world new_ref) (\<lambda>r.
     await (write_vault (\<lambda>v. v\<lparr>v_entries :=
              \<lparr>array_ref = r, elems = filter (\<lambda>e. e_id e \<noteq> entryId) (elems (v_entries v))\<rparr>\<rparr>))
       (\<lambda>_.
     updateVault P masterKey))"

definition addFolder ::
  "'k platform \<Rightarrow> NewFolder \<Rightarrow> 'k \<Rightarrow> (Vault \<times> 'k world, EncryptedVault) io" where
  "addFolder P folder masterKey =
     await (in_world crypto_randomUUID) (\<lambda>id0.
     await (in_world new_Date) (\<lambda>createdAt.
     await (in_world new_Date) (\<lambda>updatedAt.
     (let newFolder = new_folder_of folder id0 createdAt updatedAt
      in await (write_vault (\<lambda>v. v\<lparr>v_folders :=
                  (v_folders v)\<lparr>elems := elems (v_folders v) @ [newFolder]\<rparr>\<rparr>)) (\<lambda>_.
         updateVault P masterKey)))))"

subsection \<open>The character pool of the specification\<close>

text \<open>
  The pool as the specification describes it: the enabled classes in the order
  uppercase, lowercase, digits, symbols, each without the visually ambiguous glyphs
  when \<open>excludeSimilar\<close> is set.
\<close>

definition similar_characters :: jsstring where
  "similar_characters = ascii ''0O1lIio''"

definition without_similar :: "bool \<Rightarrow> jsstring \<Rightarrow> jsstring" where
  "without_similar exclude cls =
     (if exclude then filter (\<lambda>c. c \<notin> set similar_characters) cls else cls)"

definition character_pool :: "PasswordGenerationOptions \<Rightarrow> jsstring" where
  "character_pool options =
     (if includeUppercase options
      then without_similar (excludeSimilar options) (ascii ''ABCDEFGHIJKLMNOPQRSTUVWXYZ'')
      else []) @
     (if includeLowercase options
      then without_similar (excludeSimilar options) (ascii ''abcdefghijklmnopqrstuvwxyz'')
      else []) @
     (if includeNumbers options
      then without_similar (excludeSimilar options) (ascii ''0123456789'')
      else []) @
     (if includeSymbols options
      then without_similar (excludeSimilar options) (ascii ''!@#$%^&*()_+-=[]{}|;:,.<>?'')
      else [])"

definition some_class_enabled :: "PasswordGenerationOptions \<Rightarrow> bool" where
  "some_class_enabled options =
     (includeUppercase options \<or> includeLowercase options \<or> includeNumbers options \<or>
      includeSymbols options)"


subsection \<open>What \<^verbatim>\<open>deriveMasterKey\<close> takes from PBKDF2\<close>


section \<open>Small platforms for concrete instances\<close>

text \<open>
  A \<^verbatim>\<open>JSON.stringify\<close> for envelopes whose strings need no escape (base64 text does
  not), and a \<^verbatim>\<open>JSON.parse\<close> that reads the texts of that form and no other: what it
  returns is what \<^verbatim>\<open>JSON.parse\<close> returns for the text, and it rejects every other text,
  as a \<open>SyntaxError\<close>.
\<close>

definition stringify_envelope :: "EncryptedData \<Rightarrow> jsstring" where
  "stringify_envelope e =
     ascii ''{\"data\":\"'' @ ed_data e @ ascii ''\",\"iv\":\"'' @ ed_iv e @
     ascii ''\",\"algorithm\":\"'' @ ed_algorithm e @ ascii ''\"}''"

fun strip_prefix :: "'a list \<Rightarrow> 'a list \<Rightarrow> 'a list option" where
  "strip_prefix [] ys = Some ys"
| "strip_prefix (x # xs) [] = None"
| "strip_prefix (x # xs) (y # ys) = (if x = y then strip_prefix xs ys else None)"

text \<open>
  The characters of a string up to its closing quote, and the text after the quote;
  nothing for a string with an escape or a control character, or without the quote.
\<close>

definition read_string :: "jsstring \<Rightarrow> (jsstring \<times> jsstring) option" where
  "read_string s =
     (let body = takeWhile (\<lambda>c. c \<noteq> 0x22) s; rest = dropWhile (\<lambda>c. c \<noteq> 0x22) s
      in if rest = [] \<or> filter (\<lambda>c. c = 0x5C \<or> c < 0x20) body \<noteq> [] then None
         else Some (body, tl rest))"

definition parse_envelope :: "jsstring \<Rightarrow> json option" where
  "parse_envelope s =
     (case strip_prefix (ascii ''{\"data\":\"'') s of
        None \<Rightarrow> None
      | Some s1 \<Rightarrow>
     (case read_string s1 of
        None \<Rightarrow> None
      | Some (d, s2) \<Rightarrow>
     (case strip_prefix (ascii '',\"iv\":\"'') s2 of
        None \<Rightarrow> None
      | Some s3 \<Rightarrow>
     (case read_string s3 of
        None \<Rightarrow> None
      | Some (i, s4) \<Rightarrow>
     (case strip_prefix (ascii '',\"algorithm\":\"'') s4 of
        None \<Rightarrow> None
      | Some s5 \<Rightarrow>
     (case read_string s5 of
        None \<Rightarrow> None
      | Some (a, s6) \<Rightarrow>
          if s6 = ascii ''}''
          then Some (JObject [(ascii ''data'', JString d), (ascii ''iv'', JString i),
                              (ascii ''algorithm'', JString a)])
          else None))))))"

text \<open>
  The payload of a vault is written with the identifiers of its entries and folders
  only, and the one payload read back is the empty one. Numbers and dates are not
  read by any instance below.
\<close>

definition stringify_payload :: "'d VaultEntry list \<Rightarrow> 'd VaultFolder list \<Rightarrow> jsstring" where
  "stringify_payload es fs =
     ascii ''{\"entries\":['' @ concat (map (\<lambda>e. 0x22 # e_id e @ [0x22]) es) @
     ascii ''],\"folders\":['' @ concat (map (\<lambda>f. 0x22 # f_id f @ [0x22]) fs) @ ascii '']}''"

definition parse_payload ::
  "jsstring \<Rightarrow> error + jsstring VaultEntry list \<times> jsstring VaultFolder list" where
  "parse_payload s =
     (if s = ascii ''{\"entries\":[],\"folders\":[]}'' then Inr ([], []) else Inl SyntaxError)"

definition write_number :: "number \<Rightarrow> jsstring" where
  "write_number n =
     (case n of Finite q \<Rightarrow> ascii ''0'' | NaN \<Rightarrow> ascii ''NaN'' | PosInfinity \<Rightarrow> ascii ''Infinity''
      | NegInfinity \<Rightarrow> ascii ''-Infinity'')"

text \<open>
  \<open>toy_platform\<close>: key handles are byte strings. Encryption prefixes the key to the data
  and decryption rejects a ciphertext that does not start with the key, so that
  decryption under the encrypting key returns the data and under another key of the
  same length rejects.
\<close>

definition toy_platform :: "bytes platform" where
  "toy_platform =
     \<lparr>subtle_importKey_PBKDF2 = (\<lambda>b. Inr b),
      subtle_deriveKey_PBKDF2 = (\<lambda>s n m l. Inr (m @ s)),
      subtle_encrypt = (\<lambda>i k d. Inr (k @ d)),
      subtle_decrypt = (\<lambda>i k d. if take (length k) d = k then Inr (drop (length k) d)
                                  else Inl OperationError),
      subtle_exportKey_spki = (\<lambda>k. Inr k),
      subtle_digest_SHA256 = (\<lambda>b. take 32 (b @ replicate 32 0)),
      subtle_importKey_AES_GCM = (\<lambda>b l. Inr b),
      subtle_deriveKey_ECDH = (\<lambda>pub priv l. Inr (pub @ priv)),
      JSON_parse = parse_envelope,
      JSON_stringify_EncryptedData = stringify_envelope,
      JSON_parse_payload = parse_payload,
      JSON_stringify_payload = stringify_payload,
      Number_toString = write_number,
      Date_parse = (\<lambda>s. InvalidDate),
      max_byte_length = 2 ^ 32\<rparr>"

definition toy_world :: "bytes world" where
  "toy_world =
     \<lparr>entropy = (\<lambda>i. of_nat (7 * i + 3)), drawn = 0, clock = (\<lambda>i. 1000 + int i), ticks = 0,
      uuids = (\<lambda>i. [unit_of_nat (0x61 + i)]), issued = 0, calls = [], allocated = 0\<rparr>"

text \<open>What the theorems assume of the AES-GCM primitive: under the key, decryption
  returns what encryption was given.\<close>

definition decrypt_inverts_encrypt :: "'k platform \<Rightarrow> 'k \<Rightarrow> bool" where
  "decrypt_inverts_encrypt P k =
     (\<forall>i d c. subtle_encrypt P i k d = Inr c \<longrightarrow> subtle_decrypt P i k c = Inr d)"

text \<open>
  \<open>web_platform\<close>: key handles have a kind, as the keys of WebCrypto do. A secret key
  encrypts, decrypts and derives; a raw AES key is imported from 16, 24 or 32 bytes;
  only a public key has an SPKI encoding, and \<^verbatim>\<open>exportKey('spki', k)\<close> rejects a secret
  key with \<open>NotSupportedError\<close>.
\<close>

datatype web_key = SecretKey bytes | PublicKey bytes | PrivateKey bytes

definition web_platform :: "web_key platform" where
  "web_platform =
     \<lparr>subtle_importKey_PBKDF2 = (\<lambda>b. Inr (SecretKey b)),
      subtle_deriveKey_PBKDF2 =
        (\<lambda>s n m l. case m of SecretKey b \<Rightarrow> Inr (SecretKey (b @ s)) | _ \<Rightarrow> Inl InvalidAccessError),
      subtle_encrypt =
        (\<lambda>i k d. case k of SecretKey b \<Rightarrow> Inr (b @ d) | _ \<Rightarrow> Inl InvalidAccessError),
      subtle_decrypt =
        (\<lambda>i k d. case k of
                    SecretKey b \<Rightarrow> if take (length b) d = b then Inr (drop (length b) d)
                                   else Inl OperationError
                  | _ \<Rightarrow> Inl InvalidAccessError),
      subtle_exportKey_spki =
        (\<lambda>k. case k of PublicKey b \<Rightarrow> Inr b | SecretKey b \<Rightarrow> Inl NotSupportedError
              | PrivateKey b \<Rightarrow> Inl InvalidAccessError),
      subtle_digest_SHA256 = (\<lambda>b. take 32 (b @ replicate 32 0)),
      subtle_importKey_AES_GCM =
        (\<lambda>b l. if length b = 16 \<or> length b = 24 \<or> length b = 32 then Inr (SecretKey b)
                else Inl DataError),
      subtle_deriveKey_ECDH =
        (\<lambda>pub priv l. case pub of
                         PublicKey a \<Rightarrow>
                           (case priv of PrivateKey b \<Rightarrow> Inr (SecretKey (a @ b))
                            | _ \<Rightarrow> Inl InvalidAccessError)
                       | _ \<Rightarrow> Inl InvalidAccessError),
      JSON_parse = parse_envelope,
      JSON_stringify_EncryptedData = stringify_envelope,
      JSON_parse_payload = parse_payload,
      JSON_stringify_payload = stringify_payload,
      Number_toString = write_number,
      Date_parse = (\<lambda>s. InvalidDate),
      max_byte_length = 2 ^ 32\<rparr>"

text \<open>
  A world in which the six objects of \<open>web_vault\<close> below have been made, and the
  envelope that \<^verbatim>\<open>exportKey\<close> writes for the raw vault key of sixteen bytes \<open>9\<close> under
  the master key \<open>SecretKey [7]\<close>.
\<close>

definition web_world :: "web_key world" where
  "web_world =
     \<lparr>entropy = (\<lambda>i. of_nat (7 * i + 3)), drawn = 0, clock = (\<lambda>i. 1000 + int i), ticks = 0,
      uuids = (\<lambda>i. [unit_of_nat (0x61 + i)]), issued = 0, calls = [], allocated = 6\<rparr>"

definition wrapped_key :: jsstring where
  "wrapped_key =
     stringify_envelope
       \<lparr>ed_data = base64_encode (7 # stringToArrayBuffer (base64_encode (replicate 16 9))),
        ed_iv = base64_encode (replicate 12 0), ed_salt = None,
        ed_algorithm = ascii ''AES-GCM'', ed_keyDerivation = None\<rparr>"

text \<open>
  An operation preserves an observation of the state when no run of it changes it;
  \<open>time_of\<close> observes the clock, the identifier source and the references of a world.
\<close>

definition preserves :: "('s \<Rightarrow> 'x) \<Rightarrow> ('s, 'a) io \<Rightarrow> bool" where
  "preserves g m = (\<forall>s. g (snd (m s)) = g s)"

definition time_of :: "'k world \<Rightarrow> (nat \<Rightarrow> int) \<times> nat \<times> (nat \<Rightarrow> jsstring) \<times> nat \<times> nat" where
  "time_of w = (clock w, ticks w, uuids w, issued w, allocated w)"

text \<open>A small vault, whose key is wrapped under the master key \<open>SecretKey [7]\<close>, and
  small arguments for the vault operations.\<close>

definition web_entry :: "Date VaultEntry" where
  "web_entry =
     \<lparr>e_id = ascii ''e1'', e_name = ascii ''mail'', e_type = ascii ''login'', e_fields = [],
      e_notes = None, e_favorite = False, e_tags = [], e_folderId = None,
      e_createdAt = \<lparr>date_ref = 0, date_value = TimeValue 0\<rparr>,
      e_updatedAt = \<lparr>date_ref = 1, date_value = TimeValue 0\<rparr>,
      e_lastAccessedAt = None, e_expiresAt = None\<rparr>"

definition web_vault :: Vault where
  "web_vault =
     \<lparr>v_id = ascii ''v1'', v_name = ascii ''Personal'', v_description = None,
      v_entries = \<lparr>array_ref = 2, elems = [web_entry]\<rparr>,
      v_folders = \<lparr>array_ref = 3, elems = []\<rparr>,
      v_ownerId = ascii ''user-1'', v_organizationId = None,
      v_createdAt = \<lparr>date_ref = 4, date_value = TimeValue 0\<rparr>,
      v_updatedAt = \<lparr>date_ref = 5, date_value = TimeValue 1000\<rparr>,
      v_lastAccessedAt = None,
      v_encryptedKey = wrapped_key,
      v_keyFingerprint = ascii ''CQkJCQkJCQkJCQkJ''\<rparr>"

definition web_new_entry :: "Date NewEntry" where
  "web_new_entry =
     \<lparr>n_name = ascii ''bank'', n_type = ascii ''login'', n_fields = [], n_notes = None,
      n_favorite = True, n_tags = [], n_folderId = None, n_lastAccessedAt = None,
      n_expiresAt = None\<rparr>"

definition web_updates :: "Date PartialEntry" where
  "web_updates =
     \<lparr>p_id = None, p_name = Some (ascii ''post''), p_type = None, p_fields = None,
      p_notes = None, p_favorite = None, p_tags = None, p_folderId = None,
      p_createdAt = None, p_lastAccessedAt = None, p_expiresAt = None\<rparr>"

definition web_new_folder :: NewFolder where
  "web_new_folder = \<lparr>nf_name = ascii ''work'', nf_parentId = None, nf_vaultId = ascii ''v1''\<rparr>"

section \<open>Proofs\<close>

subsection \<open>Promises and casts\<close>

lemma await_resolve [simp]: "await (resolve a) f = f a"
  by (rule ext) (simp add: await_def resolve_def)

lemma await_throw [simp]: "await (throw e) f = throw e"
  by (rule ext) (simp add: await_def throw_def)

lemma await_of_result_Inr [simp]: "await (of_result (Inr a)) f = f a"
  by (rule ext) (simp add: await_def of_result_def)

lemma await_of_result_Inl [simp]: "await (of_result (Inl e)) f = throw e"
  by (rule ext) (simp add: await_def of_result_def throw_def)

lemma await_Inr: "m s = (Inr a, s') \<Longrightarrow> await m f s = f a s'"
  by (simp add: await_def)

lemma await_Inl: "m s = (Inl e, s') \<Longrightarrow> await m f s = (Inl e, s')"
  by (simp add: await_def)

lemma await_eq_Inr:
  "await m f s = (Inr b, t) \<longleftrightarrow> (\<exists>a s'. m s = (Inr a, s') \<and> f a s' = (Inr b, t))"
  by (auto simp: await_def split: prod.splits sum.splits)

lemma subtle_Inr [simp]: "subtle c (Inr a) w = (Inr a, w\<lparr>calls := calls w @ [c]\<rparr>)"
  by (simp add: subtle_def)

lemma subtle_Inl [simp]:
  "subtle c (Inl d) w = (Inl (DOMException d), w\<lparr>calls := calls w @ [c]\<rparr>)"
  by (simp add: subtle_def)

lemma foldl_snoc_map: "foldl (\<lambda>acc x. acc @ [f x]) acc xs = acc @ map f xs"
  by (induction xs arbitrary: acc) simp_all

lemma unat_byte_lt: "unat (a :: byte) < 256"
  using unsigned_less [of a] by simp

lemma unat_ucast_byte: "unat (ucast (b :: byte) :: jschar) = unat b"
proof -
  have "unat b < 2 ^ 16" using unat_byte_lt [of b] by simp
  then show ?thesis by (simp add: unsigned_ucast_eq take_bit_nat_eq_self)
qed

lemma ucast_byte_le: "(ucast (b :: byte) :: jschar) \<le> 0xFF"
proof -
  have "unat (ucast b :: jschar) \<le> unat (0xFF :: jschar)"
    using unat_byte_lt [of b] by (simp add: unat_ucast_byte)
  then show ?thesis by (simp only: word_le_nat_alt)
qed

lemma ucast_ucast_byte: "(ucast (ucast (b :: byte) :: jschar) :: byte) = b"
  by (simp add: ucast_up_ucast_id is_up)

subsection \<open>Base64\<close>

lemma divmod_pack:
  fixes x y n :: nat
  assumes "y < n"
  shows "(x * n + y) div n = x" "(x * n + y) mod n = y"
  using assms by simp_all

lemma roundtrip3:
  fixes a b c :: byte
  shows "of_nat ((unat a div 4) * 4 + ((unat a mod 4) * 16 + unat b div 16) div 16) = a"
    "of_nat ((((unat a mod 4) * 16 + unat b div 16) mod 16) * 16 + ((unat b mod 16) * 4 + unat c div 64) div 4) = b"
    "of_nat ((((unat b mod 16) * 4 + unat c div 64) mod 4) * 64 + unat c mod 64) = c"
proof -
  have A: "unat a < 256" "unat b < 256" "unat c < 256" by (rule unat_byte_lt)+
  have B: "unat b div 16 < 16" "unat c div 64 < 4" using A by simp_all
  show "of_nat ((unat a div 4) * 4 + ((unat a mod 4) * 16 + unat b div 16) div 16) = a"
    using B by (simp add: divmod_pack)
  show "of_nat ((((unat a mod 4) * 16 + unat b div 16) mod 16) * 16 + ((unat b mod 16) * 4 + unat c div 64) div 4) = b"
    using B by (simp add: divmod_pack)
  show "of_nat ((((unat b mod 16) * 4 + unat c div 64) mod 4) * 64 + unat c mod 64) = c"
    using B by (simp add: divmod_pack)
qed



lemma mod4_Suc4: "Suc (Suc (Suc (Suc n))) mod 4 = n mod 4"
  by presburger

lemma length_sextets_mod4: "length (sextets bs) mod 4 \<noteq> 1"
  by (induction bs rule: sextets.induct) (simp_all add: mod4_Suc4)

lemma pad_len_le: "pad_len bs \<le> 2"
  by (induction bs rule: pad_len.induct) simp_all

lemma length_sextets_pad: "(length (sextets bs) + pad_len bs) mod 4 = 0"
  by (induction bs rule: sextets.induct) (simp_all add: mod4_Suc4)

lemma unsextets_sextets: "unsextets (sextets bs) = bs"
proof (induction bs rule: sextets.induct)
  case (1 a b c r)
  then show ?case 
    by (simp only: sextets.simps unsextets.simps append.simps roundtrip3)
next
  case (2 a b)
  have "unat b div 16 < 16" using unat_byte_lt [of b] by simp
  then show ?case by (simp add: divmod_pack)
next
  case (3 a)
  show ?case by simp
next
  case 4
  then show ?case by simp
qed


lemma sextets_lt64: "x \<in> set (sextets bs) \<Longrightarrow> x < 64"
proof (induction bs rule: sextets.induct)
  case (1 a b c r)
  have "unat a < 256" "unat b < 256" "unat c < 256" by (rule unat_byte_lt)+
  then have "unat a div 4 < 64" "unat a mod 4 * 16 + unat b div 16 < 64"
    "unat b mod 16 * 4 + unat c div 64 < 64" "unat c mod 64 < 64"
    by simp_all
  with 1 show ?case by auto
next
  case (2 a b)
  have "unat a < 256" "unat b < 256" by (rule unat_byte_lt)+
  then have "unat a div 4 < 64" "unat a mod 4 * 16 + unat b div 16 < 64"
    "unat b mod 16 * 4 < 64"
    by simp_all
  with 2 show ?case by auto
next
  case (3 a)
  have "unat a < 256" by (rule unat_byte_lt)
  then have "unat a div 4 < 64" "unat a mod 4 * 16 < 64"
    by simp_all
  with 3 show ?case by auto
next
  case 4
  then show ?case by simp
qed

lemma distinct_base64_alphabet: "distinct base64_alphabet"
  by (simp add: base64_alphabet_def ascii_def)

lemma length_base64_alphabet: "length base64_alphabet = 64"
  by (simp add: base64_alphabet_def ascii_def)

lemma takeWhile_neq_nth:
  "distinct xs \<Longrightarrow> i < length xs \<Longrightarrow> length (takeWhile (\<lambda>x. x \<noteq> xs ! i) xs) = i"
proof (induction xs arbitrary: i)
  case Nil
  then show ?case by simp
next
  case (Cons a xs)
  show ?case
  proof (cases i)
    case 0
    then show ?thesis by simp
  next
    case (Suc j)
    with Cons.prems have "xs ! j \<in> set xs" "a \<notin> set xs" by auto
    then have "a \<noteq> xs ! j" by auto
    with Suc Cons show ?thesis by simp
  qed
qed

lemma base64_index_nth: "v < 64 \<Longrightarrow> base64_index (base64_alphabet ! v) = v"
  unfolding base64_index_def
  by (rule takeWhile_neq_nth) (simp_all add: distinct_base64_alphabet length_base64_alphabet)

lemma base64_alphabet_no_pad: "0x3D \<notin> set base64_alphabet"
  by (simp add: base64_alphabet_def ascii_def)

lemma base64_alphabet_no_ws: "c \<in> set base64_alphabet \<Longrightarrow> c \<notin> set ascii_whitespace"
  by (auto simp add: base64_alphabet_def ascii_def ascii_whitespace_def)

lemma body_in_alphabet: "c \<in> set (body bs) \<Longrightarrow> c \<in> set base64_alphabet"
  by (auto simp: body_def length_base64_alphabet dest!: sextets_lt64)

lemma index_body: "map base64_index (body bs) = sextets bs"
  unfolding body_def map_map
  by (rule map_idI) (simp add: base64_index_nth sextets_lt64)

lemma strip_padding_body:
  assumes "0x3D \<notin> set xs" "k \<le> 2"
  shows "strip_padding (xs @ replicate k 0x3D) = xs"
proof -
  have nl: "xs \<noteq> [] \<Longrightarrow> last xs \<noteq> 0x3D" using assms(1) last_in_set by metis
  consider "k = 0" | "k = 1" | "k = 2" using assms(2) by linarith
  then show ?thesis
  proof cases
    case 1
    then show ?thesis using nl by (auto simp: strip_padding_def)
  next
    case 2
    then show ?thesis using nl by (auto simp: strip_padding_def)
  next
    case 3
    then have "replicate k (0x3D :: jschar) = [0x3D, 0x3D]" by (simp add: numeral_2_eq_2)
    then show ?thesis using nl by (simp add: strip_padding_def butlast_append)
  qed
qed

lemma atob_base64_encode: "atob (base64_encode bs) = Inr (map ucast bs)"
proof -
  have enc: "base64_encode bs = body bs @ replicate (pad_len bs) 0x3D"
    by (simp add: base64_encode_def body_def)
  have nopad: "0x3D \<notin> set (body bs)"
    using body_in_alphabet base64_alphabet_no_pad by blast
  have ws: "filter (\<lambda>c. c \<notin> set ascii_whitespace) (base64_encode bs) = base64_encode bs"
    unfolding enc using body_in_alphabet base64_alphabet_no_ws
    by (auto simp: filter_id_conv ascii_whitespace_def)
  have len: "length (base64_encode bs) mod 4 = 0"
    unfolding enc using length_sextets_pad [of bs] by (simp add: body_def)
  have strip: "strip_padding (base64_encode bs) = body bs"
    unfolding enc by (rule strip_padding_body [OF nopad pad_len_le])
  have l1: "length (body bs) mod 4 \<noteq> 1"
    using length_sextets_mod4 [of bs] by (simp add: body_def)
  have ok: "\<not> (\<exists>c \<in> set (body bs). c \<notin> set base64_alphabet)"
    using body_in_alphabet by blast
  show ?thesis
    unfolding atob_def Let_def ws using len l1 ok
    by (simp add: strip index_body unsextets_sextets)
qed

subsection \<open>UTF-8 and UTF-16\<close>

lemma unat_of_nat_byte: "n < 256 \<Longrightarrow> unat (byte_of_nat n) = n"
  by (simp add: unat_of_nat byte_of_nat_def)

lemma decoder_start_ascii:
  "unat b \<le> 0x7F \<Longrightarrow>
   utf8_decoder cp seen 0 lower upper (b # bs) = unat b # utf8_decoder 0 0 0 0x80 0xBF bs"
  by simp

lemma decoder_start2:
  "0xC2 \<le> unat b \<Longrightarrow> unat b \<le> 0xDF \<Longrightarrow>
   utf8_decoder cp seen 0 lower upper (b # bs) = utf8_decoder (unat b mod 32) 0 1 0x80 0xBF bs"
  by simp

lemma decoder_start3:
  "0xE0 \<le> unat b \<Longrightarrow> unat b \<le> 0xEF \<Longrightarrow>
   utf8_decoder cp seen 0 lower upper (b # bs) =
     utf8_decoder (unat b mod 16) 0 2
       (if unat b = 0xE0 then 0xA0 else 0x80) (if unat b = 0xED then 0x9F else 0xBF) bs"
  by simp

lemma decoder_start4:
  "0xF0 \<le> unat b \<Longrightarrow> unat b \<le> 0xF4 \<Longrightarrow>
   utf8_decoder cp seen 0 lower upper (b # bs) =
     utf8_decoder (unat b mod 8) 0 3
       (if unat b = 0xF0 then 0x90 else 0x80) (if unat b = 0xF4 then 0x8F else 0xBF) bs"
  by simp

lemma decoder_continue:
  "needed \<noteq> 0 \<Longrightarrow> lower \<le> unat b \<Longrightarrow> unat b \<le> upper \<Longrightarrow> seen' = seen + 1 \<Longrightarrow>
   seen' \<noteq> needed \<Longrightarrow>
   utf8_decoder cp seen needed lower upper (b # bs) =
     utf8_decoder (cp * 64 + unat b mod 64) seen' needed 0x80 0xBF bs"
  by simp

lemma decoder_finish:
  "needed \<noteq> 0 \<Longrightarrow> lower \<le> unat b \<Longrightarrow> unat b \<le> upper \<Longrightarrow> seen + 1 = needed \<Longrightarrow>
   utf8_decoder cp seen needed lower upper (b # bs) =
     (cp * 64 + unat b mod 64) # utf8_decoder 0 0 0 0x80 0xBF bs"
  by simp

declare utf8_decoder.simps [simp del]

lemma trail_byte:
  assumes "l < 64"
  shows "unat (byte_of_nat (0x80 + l)) = 0x80 + l" "(0x80 + l) mod 64 = l"
  using assms mod_mult_self1 [of l 2 64] by (simp_all add: unat_of_nat_byte add.commute)

lemma decode_1byte:
  assumes "cp \<le> 0x7F"
  shows "utf8_decoder 0 0 0 0x80 0xBF (utf8_encode_scalar cp @ rest) = cp # utf8_decoder 0 0 0 0x80 0xBF rest"
proof -
  have "unat (byte_of_nat cp) = cp" using assms by (simp add: unat_of_nat_byte)
  then show ?thesis using assms by (simp add: utf8_encode_scalar_def decoder_start_ascii)
qed

lemma decode_2byte:
  assumes "0x7F < cp" "cp \<le> 0x7FF"
  shows "utf8_decoder 0 0 0 0x80 0xBF (utf8_encode_scalar cp @ rest) = cp # utf8_decoder 0 0 0 0x80 0xBF rest"
proof -
  define h where "h = cp div 64"
  define l where "l = cp mod 64"
  have cp: "h * 64 + l = cp" by (simp add: h_def l_def)
  have l: "l < 64" by (simp add: l_def)
  have "2 \<le> h" "h < 32" using assms cp l by linarith+
  with l have hl: "2 \<le> h" "h < 32" "l < 64" by simp_all
  have b1: "unat (byte_of_nat (h + 0xC0)) = h + 0xC0" using hl by (simp add: unat_of_nat_byte)
  have m1: "(h + 0xC0) mod 32 = h" using hl mod_mult_self1 [of h 6 32] by simp
  have enc: "utf8_encode_scalar cp = [byte_of_nat (h + 0xC0), byte_of_nat (0x80 + l)]"
    using assms by (simp add: utf8_encode_scalar_def h_def l_def)
  have "utf8_decoder 0 0 0 0x80 0xBF (byte_of_nat (h + 0xC0) # byte_of_nat (0x80 + l) # rest)
      = utf8_decoder h 0 1 0x80 0xBF (byte_of_nat (0x80 + l) # rest)"
    using hl by (simp add: decoder_start2 b1 m1)
  also have "\<dots> = (h * 64 + l) # utf8_decoder 0 0 0 0x80 0xBF rest"
    using hl by (simp add: decoder_finish trail_byte)
  finally show ?thesis using cp by (simp add: enc)
qed

lemma decode_3byte:
  assumes "0x7FF < cp" "cp \<le> 0xFFFF" "cp < 0xD800 \<or> 0xDFFF < cp"
  shows "utf8_decoder 0 0 0 0x80 0xBF (utf8_encode_scalar cp @ rest) = cp # utf8_decoder 0 0 0 0x80 0xBF rest"
proof -
  define h where "h = cp div 4096"
  define m where "m = cp div 64 mod 64"
  define l where "l = cp mod 64"
  have "cp div 64 div 64 = h" by (simp add: h_def div_mult2_eq [symmetric])
  then have "cp div 64 = h * 64 + m" unfolding m_def
    using div_mult_mod_eq [of "cp div 64" 64] by simp
  then have cp: "(h * 64 + m) * 64 + l = cp" unfolding l_def
    using div_mult_mod_eq [of cp 64] by simp
  have cp': "h * 4096 + m * 64 + l = cp" using cp by simp
  have ml: "m < 64" "l < 64" by (simp_all add: m_def l_def)
  have "h < 16" using assms(2) cp' by linarith
  with ml have hl: "h < 16" "m < 64" "l < 64" by simp_all
  have lo: "h = 0 \<Longrightarrow> 32 \<le> m" using assms(1) cp' ml by linarith
  have "\<not> 0xDFFF < cp" if "h = 13" using that cp' ml by linarith
  then have hi: "h = 13 \<Longrightarrow> m < 32" using assms(3) cp' ml by linarith
  have b1: "unat (byte_of_nat (h + 0xE0)) = h + 0xE0" using hl by (simp add: unat_of_nat_byte)
  have m1: "(h + 0xE0) mod 16 = h" using hl mod_mult_self1 [of h 14 16] by simp
  have enc: "utf8_encode_scalar cp = [byte_of_nat (h + 0xE0), byte_of_nat (0x80 + m), byte_of_nat (0x80 + l)]"
    using assms by (simp add: utf8_encode_scalar_def h_def l_def m_def)
  have "utf8_decoder 0 0 0 0x80 0xBF (byte_of_nat (h + 0xE0) # byte_of_nat (0x80 + m) # byte_of_nat (0x80 + l) # rest)
      = utf8_decoder h 0 2 (if h = 0 then 0xA0 else 0x80) (if h = 13 then 0x9F else 0xBF)
          (byte_of_nat (0x80 + m) # byte_of_nat (0x80 + l) # rest)"
    using hl by (simp add: decoder_start3 b1 m1)
  also have "\<dots> = utf8_decoder (h * 64 + m) 1 2 0x80 0xBF (byte_of_nat (0x80 + l) # rest)"
  proof -
    have r: "(if h = 0 then 0xA0 else 0x80) \<le> 0x80 + m" "0x80 + m \<le> (if h = 13 then 0x9F else 0xBF)"
      using lo hi hl by auto
    have "utf8_decoder h 0 2 (if h = 0 then 0xA0 else 0x80) (if h = 13 then 0x9F else 0xBF)
            (byte_of_nat (0x80 + m) # byte_of_nat (0x80 + l) # rest)
        = utf8_decoder (h * 64 + unat (byte_of_nat (0x80 + m)) mod 64) 1 2 0x80 0xBF
            (byte_of_nat (0x80 + l) # rest)"
      by (rule decoder_continue) (use r hl in \<open>simp_all add: trail_byte\<close>)
    then show ?thesis using hl by (simp add: trail_byte)
  qed
  also have "\<dots> = ((h * 64 + m) * 64 + l) # utf8_decoder 0 0 0 0x80 0xBF rest"
    using hl by (simp add: decoder_finish trail_byte)
  finally show ?thesis using cp by (simp add: enc)
qed

lemma decode_4byte:
  assumes "0xFFFF < cp" "cp \<le> 0x10FFFF"
  shows "utf8_decoder 0 0 0 0x80 0xBF (utf8_encode_scalar cp @ rest) = cp # utf8_decoder 0 0 0 0x80 0xBF rest"
proof -
  define h where "h = cp div 262144"
  define m where "m = cp div 4096 mod 64"
  define n where "n = cp div 64 mod 64"
  define l where "l = cp mod 64"
  have "cp div 4096 div 64 = h" by (simp add: h_def div_mult2_eq [symmetric])
  then have A: "cp div 4096 = h * 64 + m" unfolding m_def
    using div_mult_mod_eq [of "cp div 4096" 64] by simp
  have "cp div 64 div 64 = cp div 4096" by (simp add: div_mult2_eq [symmetric])
  then have "cp div 64 = (h * 64 + m) * 64 + n" unfolding n_def
    using div_mult_mod_eq [of "cp div 64" 64] A by simp
  then have cp: "((h * 64 + m) * 64 + n) * 64 + l = cp" unfolding l_def
    using div_mult_mod_eq [of cp 64] by simp
  have cp': "h * 262144 + m * 4096 + n * 64 + l = cp" using cp by simp
  have ml: "m < 64" "n < 64" "l < 64" by (simp_all add: m_def n_def l_def)
  have "h < 5" using assms(2) cp' by linarith
  with ml have hl: "h < 5" "m < 64" "n < 64" "l < 64" by simp_all
  have lo: "h = 0 \<Longrightarrow> 16 \<le> m" using assms(1) cp' ml by linarith
  have hi: "h = 4 \<Longrightarrow> m < 16" using assms(2) cp' ml by linarith
  have b1: "unat (byte_of_nat (h + 0xF0)) = h + 0xF0" using hl by (simp add: unat_of_nat_byte)
  have m1: "(h + 0xF0) mod 8 = h" using hl mod_mult_self1 [of h 30 8] by simp
  have enc: "utf8_encode_scalar cp =
      [byte_of_nat (h + 0xF0), byte_of_nat (0x80 + m), byte_of_nat (0x80 + n), byte_of_nat (0x80 + l)]"
    using assms by (simp add: utf8_encode_scalar_def h_def l_def m_def n_def)
  have "utf8_decoder 0 0 0 0x80 0xBF
          (byte_of_nat (h + 0xF0) # byte_of_nat (0x80 + m) # byte_of_nat (0x80 + n) # byte_of_nat (0x80 + l) # rest)
      = utf8_decoder h 0 3 (if h = 0 then 0x90 else 0x80) (if h = 4 then 0x8F else 0xBF)
          (byte_of_nat (0x80 + m) # byte_of_nat (0x80 + n) # byte_of_nat (0x80 + l) # rest)"
    using hl by (simp add: decoder_start4 b1 m1)
  also have "\<dots> = utf8_decoder (h * 64 + m) 1 3 0x80 0xBF (byte_of_nat (0x80 + n) # byte_of_nat (0x80 + l) # rest)"
  proof -
    have r: "(if h = 0 then 0x90 else 0x80) \<le> 0x80 + m" "0x80 + m \<le> (if h = 4 then 0x8F else 0xBF)"
      using lo hi hl by auto
    have "utf8_decoder h 0 3 (if h = 0 then 0x90 else 0x80) (if h = 4 then 0x8F else 0xBF)
            (byte_of_nat (0x80 + m) # byte_of_nat (0x80 + n) # byte_of_nat (0x80 + l) # rest)
        = utf8_decoder (h * 64 + unat (byte_of_nat (0x80 + m)) mod 64) 1 3 0x80 0xBF
            (byte_of_nat (0x80 + n) # byte_of_nat (0x80 + l) # rest)"
      by (rule decoder_continue) (use r hl in \<open>simp_all add: trail_byte\<close>)
    then show ?thesis using hl by (simp add: trail_byte)
  qed
  also have "\<dots> = utf8_decoder ((h * 64 + m) * 64 + n) 2 3 0x80 0xBF (byte_of_nat (0x80 + l) # rest)"
  proof -
    have "utf8_decoder (h * 64 + m) 1 3 0x80 0xBF (byte_of_nat (0x80 + n) # byte_of_nat (0x80 + l) # rest)
        = utf8_decoder ((h * 64 + m) * 64 + unat (byte_of_nat (0x80 + n)) mod 64) 2 3 0x80 0xBF
            (byte_of_nat (0x80 + l) # rest)"
      by (rule decoder_continue) (use hl in \<open>simp_all add: trail_byte\<close>)
    then show ?thesis using hl by (simp add: trail_byte)
  qed
  also have "\<dots> = (((h * 64 + m) * 64 + n) * 64 + l) # utf8_decoder 0 0 0 0x80 0xBF rest"
    using hl by (simp add: decoder_finish trail_byte)
  finally show ?thesis using cp by (simp add: enc)
qed

lemma decode_scalar:
  assumes "is_scalar_value cp"
  shows "utf8_decoder 0 0 0 0x80 0xBF (utf8_encode_scalar cp @ rest) = cp # utf8_decoder 0 0 0 0x80 0xBF rest"
proof -
  consider "cp \<le> 0x7F" | "0x7F < cp" "cp \<le> 0x7FF" | "0x7FF < cp" "cp \<le> 0xFFFF" | "0xFFFF < cp"
    by linarith
  then show ?thesis
  proof cases
    case 1 then show ?thesis by (rule decode_1byte)
  next
    case 2 then show ?thesis by (rule decode_2byte)
  next
    case 3 
    moreover have "cp < 0xD800 \<or> 0xDFFF < cp" using assms by (auto simp: is_scalar_value_def)
    ultimately show ?thesis by (rule decode_3byte)
  next
    case 4
    moreover have "cp \<le> 0x10FFFF" using assms by (auto simp: is_scalar_value_def)
    ultimately show ?thesis by (rule decode_4byte)
  qed
qed


lemma utf8_decode_encode:
  "\<forall>cp \<in> set cps. is_scalar_value cp \<Longrightarrow> utf8_decode (utf8_encode cps) = cps"
proof (induction cps)
  case Nil
  have "utf8_encode [] = []" by (simp add: utf8_encode_def)
  then show ?case unfolding utf8_decode_def by (simp add: utf8_decoder.simps(1))
next
  case (Cons a cps)
  have a: "is_scalar_value a" using Cons.prems by simp
  have IH: "utf8_decoder 0 0 0 0x80 0xBF (utf8_encode cps) = cps"
    using Cons unfolding utf8_decode_def by simp
  have "utf8_encode (a # cps) = utf8_encode_scalar a @ utf8_encode cps"
    by (simp add: utf8_encode_def)
  then show ?case unfolding utf8_decode_def using decode_scalar [OF a, of "utf8_encode cps"] IH
    by simp
qed

lemma unat_unit_lt: "unat (c :: jschar) < 65536"
  using unsigned_less [of c] by simp

lemma unat_unit_of_nat: "n < 65536 \<Longrightarrow> unat (unit_of_nat n) = n"
  by (simp add: unat_of_nat unit_of_nat_def)

lemma unit_of_nat_unat: "unit_of_nat (unat c) = c"
  by (simp add: unit_of_nat_def)

lemma pair_is_scalar:
  assumes "is_lead c" "is_trail d"
  shows "is_scalar_value (0x10000 + (unat c - 0xD800) * 0x400 + (unat d - 0xDC00))"
  using assms unfolding is_lead_def is_trail_def is_scalar_value_def by linarith

lemma to_scalar_values_scalar: "cp \<in> set (to_scalar_values s) \<Longrightarrow> is_scalar_value cp"
proof (induction s arbitrary: cp rule: to_scalar_values.induct)
  case 1
  then show ?case by simp
next
  case (2 c)
  then show ?case using unat_unit_lt [of c]
    by (auto simp: is_surrogate_def is_scalar_value_def split: if_splits)
next
  case (3 c d r)
  show ?case
  proof (cases "is_surrogate c")
    case False
    then have "cp = unat c \<or> cp \<in> set (to_scalar_values (d # r))" using 3(4) by simp
    then show ?thesis using False 3(1) unat_unit_lt [of c]
      by (auto simp: is_surrogate_def is_scalar_value_def)
  next
    case True
    show ?thesis
    proof (cases "is_lead c \<and> is_trail d")
      case pair: True
      then have "cp = 0x10000 + (unat c - 0xD800) * 0x400 + (unat d - 0xDC00) \<or> cp \<in> set (to_scalar_values r)"
        using True 3(4) by simp
      then show ?thesis using pair_is_scalar pair 3(2) True by blast
    next
      case False
      then have "cp = 0xFFFD \<or> cp \<in> set (to_scalar_values (d # r))" using True 3(4) by auto
      then show ?thesis using 3(3) True False by (auto simp: is_scalar_value_def)
    qed
  qed
qed

lemma utf16_units_unit: "\<not> is_surrogate c \<Longrightarrow> utf16_units (unat c) = [c]"
  using unat_unit_lt [of c] by (simp add: utf16_units_def unit_of_nat_unat)

lemma utf16_units_pair:
  assumes "is_lead c" "is_trail d"
  shows "utf16_units (0x10000 + (unat c - 0xD800) * 0x400 + (unat d - 0xDC00)) = [c, d]"
proof -
  define h where "h = unat c - 0xD800"
  define l where "l = unat d - 0xDC00"
  have hl: "l < 0x400" "0xD800 + h = unat c" "0xDC00 + l = unat d"
    using assms unfolding is_lead_def is_trail_def h_def l_def by linarith+
  have "(h * 0x400 + l) div 0x400 = h" "(h * 0x400 + l) mod 0x400 = l"
    using hl(1) by (simp_all add: divmod_pack)
  then have "utf16_units (0x10000 + h * 0x400 + l) = [unit_of_nat (0xD800 + h), unit_of_nat (0xDC00 + l)]"
    by (simp add: utf16_units_def add.assoc)
  then show ?thesis unfolding hl(2,3) h_def [symmetric] l_def [symmetric]
    by (simp add: unit_of_nat_unat)
qed

lemma from_to_scalar_values:
  "well_formed_utf16 s \<Longrightarrow> from_scalar_values (to_scalar_values s) = s"
proof (induction s rule: to_scalar_values.induct)
  case 1
  then show ?case by (simp add: from_scalar_values_def)
next
  case (2 c)
  then show ?case by (simp add: from_scalar_values_def utf16_units_unit)
next
  case (3 c d r)
  show ?case
  proof (cases "is_surrogate c")
    case False
    then show ?thesis using 3 by (simp add: from_scalar_values_def utf16_units_unit)
  next
    case True
    then have p: "is_lead c" "is_trail d" "well_formed_utf16 r" using 3(4) by simp_all
    then show ?thesis using True 3(2)
      by (simp add: from_scalar_values_def utf16_units_pair del: utf16_units_def)
  qed
qed

lemma unat_neq_bom: "c \<noteq> (0xFEFF :: jschar) \<Longrightarrow> unat c \<noteq> 0xFEFF"
  using word_unat_eq_iff [of c "0xFEFF"] by simp

lemma strip_bom_to_scalar_values:
  assumes "s = [] \<or> hd s \<noteq> 0xFEFF"
  shows "strip_bom (to_scalar_values s) = to_scalar_values s"
proof (cases s rule: to_scalar_values.cases)
  case 1
  then show ?thesis by (simp add: strip_bom_def)
next
  case (2 c)
  then have "unat c \<noteq> 0xFEFF" using assms unat_neq_bom [of c] by simp
  then show ?thesis using 2 by (simp add: strip_bom_def)
next
  case (3 c d r)
  then have "unat c \<noteq> 0xFEFF" using assms unat_neq_bom [of c] by simp
  then show ?thesis using 3 by (simp add: strip_bom_def)
qed

theorem text_roundtrip:
  assumes "well_formed_utf16 s" "s = [] \<or> hd s \<noteq> 0xFEFF"
  shows "TextDecoder_decode (TextEncoder_encode s) = s"
  unfolding TextDecoder_decode_def TextEncoder_encode_def
  using utf8_decode_encode [of "to_scalar_values s"] to_scalar_values_scalar [of _ s]
    strip_bom_to_scalar_values [OF assms(2)] from_to_scalar_values [OF assms(1)]
  by simp

subsection \<open>The helpers of \<^verbatim>\<open>utils.ts\<close>\<close>

lemma arrayBufferToBase64_eq [simp]: "arrayBufferToBase64 buffer = Inr (base64_encode buffer)"
proof -
  have "\<not> (\<exists>c \<in> set (map String_fromCharCode buffer). 0xFF < c)"
    using ucast_byte_le by (auto simp: String_fromCharCode_def not_less)
  moreover have "map ucast (map String_fromCharCode buffer) = buffer"
    by (simp add: String_fromCharCode_def ucast_ucast_byte comp_def)
  ultimately show ?thesis
    by (simp add: arrayBufferToBase64_def foldl_snoc_map btoa_def)
qed

lemma base64ToArrayBuffer_encode [simp]: "base64ToArrayBuffer (base64_encode bs) = Inr bs"
  by (simp add: base64ToArrayBuffer_def atob_base64_encode foldl_snoc_map ucast_ucast_byte comp_def)

lemma generateRandomBytes_eq:
  "generateRandomBytes len w =
     (if 65536 < len then (Inl (DOMException QuotaExceededError), w)
      else (Inr (map (entropy w) [drawn w ..< drawn w + len]), w\<lparr>drawn := drawn w + len\<rparr>))"
  by (simp add: generateRandomBytes_def crypto_getRandomValues_def)

subsection \<open>\<^verbatim>\<open>encryptData\<close> and \<^verbatim>\<open>decryptData\<close>\<close>

lemma encryptData_Inr:
  assumes "encryptData P p k config w = (Inr env, w')"
  shows "\<exists>i c. i = map (entropy w) [drawn w ..< drawn w + ivLength config]
           \<and> subtle_encrypt P i k (stringToArrayBuffer p) = Inr c
           \<and> env = \<lparr>ed_data = base64_encode c, ed_iv = base64_encode i, ed_salt = None,
                    ed_algorithm = ascii ''AES-GCM'', ed_keyDerivation = None\<rparr>
           \<and> w' = w\<lparr>drawn := drawn w + ivLength config,
                      calls := calls w @ [Call_encrypt i k (stringToArrayBuffer p)]\<rparr>"
proof (cases "65536 < ivLength config")
  case True
  then show ?thesis using assms
    by (simp add: encryptData_def await_def generateRandomBytes_eq)
next
  case False
  define i where "i = map (entropy w) [drawn w ..< drawn w + ivLength config]"
  show ?thesis
  proof (cases "subtle_encrypt P i k (stringToArrayBuffer p)")
    case (Inl d)
    then show ?thesis using assms False
      by (simp add: encryptData_def await_def generateRandomBytes_eq i_def resolve_def)
  next
    case (Inr c)
    then show ?thesis using assms False
      by (auto simp add: encryptData_def await_def generateRandomBytes_eq i_def resolve_def)
  qed
qed

lemma decryptData_accepted:
  assumes "ed_algorithm env = ascii ''AES-GCM''"
    and "base64ToArrayBuffer (ed_data env) = Inr d" "base64ToArrayBuffer (ed_iv env) = Inr i"
    and "subtle_decrypt P i k d = Inr pt"
  shows "decryptData P env k w =
           (Inr (arrayBufferToString pt), w\<lparr>calls := calls w @ [Call_decrypt i k d]\<rparr>)"
  using assms by (simp add: decryptData_def try_catch_def await_def resolve_def)

lemma decryptData_rejected:
  assumes "ed_algorithm env = ascii ''AES-GCM''"
    and "base64ToArrayBuffer (ed_data env) = Inr d" "base64ToArrayBuffer (ed_iv env) = Inr i"
    and "subtle_decrypt P i k d = Inl x"
  shows "decryptData P env k w =
           (Inl DecryptionFailed, w\<lparr>calls := calls w @ [Call_decrypt i k d]\<rparr>)"
  using assms by (simp add: decryptData_def try_catch_def await_def throw_def)

lemma decryptData_unsupported:
  assumes "ed_algorithm env \<noteq> ascii ''AES-GCM''"
  shows "decryptData P env k w = (Inl (UnsupportedAlgorithm (ed_algorithm env)), w)"
  using assms by (simp add: decryptData_def throw_def)

lemma text_roundtrip_buffer:
  "well_formed_utf16 s \<Longrightarrow> s = [] \<or> hd s \<noteq> 0xFEFF \<Longrightarrow>
   arrayBufferToString (stringToArrayBuffer s) = s"
  by (simp add: arrayBufferToString_def stringToArrayBuffer_def text_roundtrip)

text \<open>
  C1 (amended). For every plaintext string without an unpaired surrogate that does not
  begin with U+FEFF, and every key under which the platform's AES-GCM decrypts what it
  encrypted: decrypting the envelope that \<open>encryptData\<close> produced, with the same key,
  returns exactly the plaintext, whatever the configuration, the random IV and the state
  of the world at either call.
\<close>

theorem encrypt_decrypt_roundtrip:
  assumes "well_formed_utf16 p" and "p = [] \<or> hd p \<noteq> 0xFEFF"
    and "decrypt_inverts_encrypt P k"
    and "encryptData P p k config w = (Inr env, w')"
  shows "fst (decryptData P env k w'') = Inr p"
proof -
  from encryptData_Inr [OF assms(4)] obtain i c where
    enc: "subtle_encrypt P i k (stringToArrayBuffer p) = Inr c"
    and env: "env = \<lparr>ed_data = base64_encode c, ed_iv = base64_encode i, ed_salt = None,
                     ed_algorithm = ascii ''AES-GCM'', ed_keyDerivation = None\<rparr>"
    by blast
  have dec: "subtle_decrypt P i k c = Inr (stringToArrayBuffer p)"
    using assms(3) enc by (simp add: decrypt_inverts_encrypt_def)
  have "decryptData P env k w'' =
      (Inr (arrayBufferToString (stringToArrayBuffer p)),
       w''\<lparr>calls := calls w'' @ [Call_decrypt i k c]\<rparr>)"
    by (rule decryptData_accepted) (simp_all add: env dec)
  then show ?thesis using assms(1,2) by (simp add: text_roundtrip_buffer)
qed

lemma toy_decrypt_inverts_encrypt: "decrypt_inverts_encrypt toy_platform k"
  by (simp add: decrypt_inverts_encrypt_def toy_platform_def)

lemma encryptData_succeeds:
  assumes "ivLength config \<le> 65536"
    and "subtle_encrypt P (map (entropy w) [drawn w ..< drawn w + ivLength config]) k
           (stringToArrayBuffer p) = Inr c"
  shows "encryptData P p k config w =
           (Inr \<lparr>ed_data = base64_encode c,
                 ed_iv = base64_encode (map (entropy w) [drawn w ..< drawn w + ivLength config]),
                 ed_salt = None, ed_algorithm = ascii ''AES-GCM'', ed_keyDerivation = None\<rparr>,
            w\<lparr>drawn := drawn w + ivLength config,
              calls := calls w @ [Call_encrypt
                (map (entropy w) [drawn w ..< drawn w + ivLength config]) k
                (stringToArrayBuffer p)]\<rparr>)"
  using assms by (simp add: encryptData_def await_def generateRandomBytes_eq resolve_def)

theorem encrypt_decrypt_roundtrip_witness:
  "well_formed_utf16 (ascii ''hi'') \<and> decrypt_inverts_encrypt toy_platform [1, 2] \<and>
   (\<exists>env w'. encryptData toy_platform (ascii ''hi'') [1, 2] DEFAULT_CRYPTO_CONFIG toy_world
                = (Inr env, w')
            \<and> fst (decryptData toy_platform env [1, 2] w') = Inr (ascii ''hi''))"
proof -
  have wf: "well_formed_utf16 (ascii ''hi'')" by (simp add: ascii_def is_surrogate_def)
  have nb: "ascii ''hi'' = [] \<or> hd (ascii ''hi'') \<noteq> 0xFEFF" by (simp add: ascii_def)
  have le: "ivLength DEFAULT_CRYPTO_CONFIG \<le> 65536" by (simp add: DEFAULT_CRYPTO_CONFIG_def)
  obtain c where c: "subtle_encrypt toy_platform
      (map (entropy toy_world) [drawn toy_world ..< drawn toy_world + ivLength DEFAULT_CRYPTO_CONFIG])
      [1, 2] (stringToArrayBuffer (ascii ''hi'')) = Inr c"
    by (simp add: toy_platform_def)
  note e = encryptData_succeeds [OF le c]
  note r = encrypt_decrypt_roundtrip [OF wf nb toy_decrypt_inverts_encrypt e]
  show ?thesis using e r wf toy_decrypt_inverts_encrypt by blast
qed

lemma bom_buffer: "stringToArrayBuffer [0xFEFF] = [0xEF, 0xBB, 0xBF]"
  by (simp add: stringToArrayBuffer_def TextEncoder_encode_def utf8_encode_def
      utf8_encode_scalar_def is_surrogate_def byte_of_nat_def)

lemma bom_string: "arrayBufferToString [0xEF, 0xBB, 0xBF] = []"
  by (simp add: arrayBufferToString_def TextDecoder_decode_def utf8_decode_def
      utf8_decoder.simps strip_bom_def from_scalar_values_def)

text \<open>
  C1 as stated fails: the plaintext consisting of U+FEFF alone is encrypted and
  decrypted with the same key, and the result is the empty string.
\<close>

theorem encrypt_decrypt_bom_counterexample:
  "fst (decryptData toy_platform
         (projr (fst (encryptData toy_platform [0xFEFF] [1, 2] DEFAULT_CRYPTO_CONFIG toy_world)))
         [1, 2] toy_world) = Inr []"
proof -
  have "ivLength DEFAULT_CRYPTO_CONFIG \<le> 65536" by (simp add: DEFAULT_CRYPTO_CONFIG_def)
  then have "fst (encryptData toy_platform [0xFEFF] [1, 2] DEFAULT_CRYPTO_CONFIG toy_world) =
      Inr \<lparr>ed_data = base64_encode ([1, 2] @ [0xEF, 0xBB, 0xBF]),
           ed_iv = base64_encode (map (entropy toy_world)
             [drawn toy_world ..< drawn toy_world + ivLength DEFAULT_CRYPTO_CONFIG]),
           ed_salt = None, ed_algorithm = ascii ''AES-GCM'', ed_keyDerivation = None\<rparr>"
    by (subst encryptData_succeeds [where c = "[1, 2] @ [0xEF, 0xBB, 0xBF]"])
      (simp_all add: toy_platform_def bom_buffer)
  moreover have "decryptData toy_platform
      \<lparr>ed_data = base64_encode ([1, 2] @ [0xEF, 0xBB, 0xBF]),
       ed_iv = base64_encode (map (entropy toy_world)
         [drawn toy_world ..< drawn toy_world + ivLength DEFAULT_CRYPTO_CONFIG]),
       ed_salt = None, ed_algorithm = ascii ''AES-GCM'', ed_keyDerivation = None\<rparr>
      [1, 2] toy_world =
      (Inr (arrayBufferToString [0xEF, 0xBB, 0xBF]),
       toy_world\<lparr>calls := calls toy_world @ [Call_decrypt
         (map (entropy toy_world)
           [drawn toy_world ..< drawn toy_world + ivLength DEFAULT_CRYPTO_CONFIG])
         [1, 2] ([1, 2] @ [0xEF, 0xBB, 0xBF])]\<rparr>)"
    by (rule decryptData_accepted) (simp_all add: toy_platform_def)
  ultimately show ?thesis by (simp add: bom_string)
qed

text \<open>
  C2 (amended). For every envelope tagged \<open>AES-GCM\<close> whose data and IV are base64, every
  rejection by the platform's AES-GCM decryption, whatever its cause (wrong key, altered
  ciphertext or tag, altered IV), makes \<open>decryptData\<close> fail with the one generic
  \<open>DecryptionFailed\<close> error, in which the cause cannot be read. An envelope with
  another algorithm tag fails with the distinct \<open>UnsupportedAlgorithm\<close> error.
\<close>

theorem decryptData_generic_failure:
  "(ed_algorithm env = ascii ''AES-GCM'' \<and> base64ToArrayBuffer (ed_data env) = Inr d \<and>
    base64ToArrayBuffer (ed_iv env) = Inr i \<and> subtle_decrypt P i k d = Inl x
      \<longrightarrow> fst (decryptData P env k w) = Inl DecryptionFailed) \<and>
   (ed_algorithm env \<noteq> ascii ''AES-GCM''
      \<longrightarrow> fst (decryptData P env k w) = Inl (UnsupportedAlgorithm (ed_algorithm env)))"
proof (intro conjI impI)
  assume "ed_algorithm env = ascii ''AES-GCM'' \<and> base64ToArrayBuffer (ed_data env) = Inr d \<and>
    base64ToArrayBuffer (ed_iv env) = Inr i \<and> subtle_decrypt P i k d = Inl x"
  then show "fst (decryptData P env k w) = Inl DecryptionFailed"
    by (simp add: decryptData_rejected)
next
  assume "ed_algorithm env \<noteq> ascii ''AES-GCM''"
  then show "fst (decryptData P env k w) = Inl (UnsupportedAlgorithm (ed_algorithm env))"
    by (simp add: decryptData_unsupported)
qed

theorem decryptData_generic_failure_witness:
  "fst (decryptData toy_platform
         \<lparr>ed_data = base64_encode [9, 9, 9], ed_iv = base64_encode [], ed_salt = None,
          ed_algorithm = ascii ''AES-GCM'', ed_keyDerivation = None\<rparr> [1, 2] toy_world)
     = Inl DecryptionFailed \<and>
   fst (decryptData toy_platform
         \<lparr>ed_data = base64_encode [1, 2, 9], ed_iv = base64_encode [], ed_salt = None,
          ed_algorithm = ascii ''AES-CBC'', ed_keyDerivation = None\<rparr> [1, 2] toy_world)
     = Inl (UnsupportedAlgorithm (ascii ''AES-CBC''))"
proof -
  have ne: "ascii ''AES-CBC'' \<noteq> ascii ''AES-GCM''" by (simp add: ascii_def)
  have rej: "subtle_decrypt toy_platform [] [1, 2] [9, 9, 9] = Inl OperationError"
    by (simp add: toy_platform_def)
  show ?thesis
    using decryptData_generic_failure [of
        "\<lparr>ed_data = base64_encode [9, 9, 9], ed_iv = base64_encode [], ed_salt = None,
          ed_algorithm = ascii ''AES-GCM'', ed_keyDerivation = None\<rparr>"
        "[9, 9, 9]" "[]" toy_platform "[1, 2]" OperationError toy_world]
      decryptData_generic_failure [of
        "\<lparr>ed_data = base64_encode [1, 2, 9], ed_iv = base64_encode [], ed_salt = None,
          ed_algorithm = ascii ''AES-CBC'', ed_keyDerivation = None\<rparr>"
        d i toy_platform "[1, 2]" x toy_world for d i x]
      ne rej
    by simp
qed

text \<open>
  C2 as stated fails on malformed envelopes: one with another algorithm tag and one
  whose data is not base64 each fail with an error of their own, not the generic one.
\<close>

theorem decryptData_malformed_counterexample:
  "fst (decryptData toy_platform
         \<lparr>ed_data = [], ed_iv = [], ed_salt = None, ed_algorithm = ascii ''AES-CBC'',
          ed_keyDerivation = None\<rparr> [1, 2] toy_world)
     = Inl (UnsupportedAlgorithm (ascii ''AES-CBC'')) \<and>
   fst (decryptData toy_platform
         \<lparr>ed_data = ascii ''!'', ed_iv = [], ed_salt = None, ed_algorithm = ascii ''AES-GCM'',
          ed_keyDerivation = None\<rparr> [1, 2] toy_world)
     = Inl (DOMException InvalidCharacterError)"
proof -
  have ne: "ascii ''AES-CBC'' \<noteq> ascii ''AES-GCM''" by (simp add: ascii_def)
  have bad: "base64ToArrayBuffer (ascii ''!'') = Inl (DOMException InvalidCharacterError)"
    by (simp add: base64ToArrayBuffer_def atob_def ascii_def ascii_whitespace_def
        strip_padding_def)
  show ?thesis using ne bad
    by (simp add: decryptData_def throw_def)
qed

subsection \<open>\<^verbatim>\<open>generateKeyFingerprint\<close>\<close>

lemma generateKeyFingerprint_eq:
  "generateKeyFingerprint P k w =
     (case subtle_exportKey_spki P k of
        Inl d \<Rightarrow> (Inl (DOMException d), w\<lparr>calls := calls w @ [Call_exportKey_spki k]\<rparr>)
      | Inr spki \<Rightarrow>
          (Inr (take 16 (base64_encode (subtle_digest_SHA256 P spki))),
           w\<lparr>calls := calls w @ [Call_exportKey_spki k, Call_digest_SHA256 spki]\<rparr>))"
  by (simp add: generateKeyFingerprint_def await_def resolve_def split: sum.splits)

lemma length_le_base64_encode: "length bs \<le> length (base64_encode bs)"
proof -
  have "length bs \<le> length (sextets bs)"
    by (induction bs rule: sextets.induct) simp_all
  then show ?thesis by (simp add: base64_encode_def)
qed

lemma sextets_append3: "sextets (a # b # c # r) = sextets [a, b, c] @ sextets r"
  by simp

lemma base64_encode_take12:
  assumes "12 \<le> length bs"
  shows "take 16 (base64_encode bs) = base64_encode (take 12 bs)"
proof -
  from assms obtain a1 a2 a3 a4 a5 a6 a7 a8 a9 a10 a11 a12 r where
    bs: "bs = a1 # a2 # a3 # a4 # a5 # a6 # a7 # a8 # a9 # a10 # a11 # a12 # r"
    by (auto simp: numeral_eq_Suc Suc_le_length_iff)
  show ?thesis unfolding bs by (simp add: base64_encode_def)
qed


text \<open>
  C10. For every key whose SPKI export the platform grants (every public key that is
  extractable), \<open>generateKeyFingerprint\<close> returns exactly the first 16 characters of the
  base64 encoding of the SHA-256 digest of the exported bytes. The digest has 32 bytes,
  so the fingerprint has exactly 16 characters; they are the base64 encoding of the
  first 12 bytes (96 bits) of the digest; and two keys with the same exported bytes
  have the same fingerprint, in every state of the world.
\<close>

theorem generateKeyFingerprint_value:
  assumes "subtle_exportKey_spki P k = Inr spki"
    and "length (subtle_digest_SHA256 P spki) = 32"
  shows "fst (generateKeyFingerprint P k w)
           = Inr (take 16 (base64_encode (subtle_digest_SHA256 P spki)))
       \<and> length (take 16 (base64_encode (subtle_digest_SHA256 P spki))) = 16
       \<and> take 16 (base64_encode (subtle_digest_SHA256 P spki))
           = base64_encode (take 12 (subtle_digest_SHA256 P spki))
       \<and> (\<forall>k' w'. subtle_exportKey_spki P k' = Inr spki
             \<longrightarrow> fst (generateKeyFingerprint P k' w') = fst (generateKeyFingerprint P k w))"
proof -
  let ?h = "subtle_digest_SHA256 P spki"
  have v: "\<And>k' w'. subtle_exportKey_spki P k' = Inr spki \<Longrightarrow>
      fst (generateKeyFingerprint P k' w') = Inr (take 16 (base64_encode ?h))"
    by (simp add: generateKeyFingerprint_eq)
  have "32 \<le> length (base64_encode ?h)"
    using length_le_base64_encode [of ?h] assms(2) by simp
  then have l: "length (take 16 (base64_encode ?h)) = 16" by simp
  have t: "take 16 (base64_encode ?h) = base64_encode (take 12 ?h)"
    by (rule base64_encode_take12) (simp add: assms(2))
  show ?thesis using v [OF assms(1)] l t v by simp
qed

theorem generateKeyFingerprint_value_witness:
  "subtle_exportKey_spki toy_platform [1, 2] = Inr [1, 2] \<and>
   length (subtle_digest_SHA256 toy_platform [1, 2]) = 32 \<and>
   fst (generateKeyFingerprint toy_platform [1, 2] toy_world)
     = Inr (take 16 (base64_encode (subtle_digest_SHA256 toy_platform [1, 2]))) \<and>
   length (take 16 (base64_encode (subtle_digest_SHA256 toy_platform [1, 2]))) = 16"
proof -
  have e: "subtle_exportKey_spki toy_platform [1, 2] = Inr [1, 2]"
    by (simp add: toy_platform_def)
  have d: "length (subtle_digest_SHA256 toy_platform [1, 2]) = 32"
    by (simp add: toy_platform_def)
  show ?thesis using generateKeyFingerprint_value [OF e d, of toy_world] e d by blast
qed

subsection \<open>\<^verbatim>\<open>generateSecurePassword\<close>\<close>

lemma without_similar_classes:
  "without_similar True (ascii ''ABCDEFGHIJKLMNOPQRSTUVWXYZ'') = ascii ''ABCDEFGHJKLMNPQRSTUVWXYZ''"
  "without_similar True (ascii ''abcdefghijklmnopqrstuvwxyz'') = ascii ''abcdefghjkmnpqrstuvwxyz''"
  "without_similar True (ascii ''0123456789'') = ascii ''23456789''"
  "without_similar True (ascii ''!@#$%^&*()_+-=[]{}|;:,.<>?'') = ascii ''!@#$%^&*()_+-=[]{}|;:,.<>?''"
  "without_similar False cls = cls"
  by (simp_all add: without_similar_def similar_characters_def ascii_def)

lemma charset_of_pool: "charset_of options = character_pool options"
  by (cases "excludeSimilar options")
    (simp_all add: charset_of_def character_pool_def without_similar_classes Let_def)

lemma ascii_nonempty: "s \<noteq> [] \<Longrightarrow> ascii s \<noteq> []"
  by (simp add: ascii_def)

lemma without_similar_nonempty:
  "without_similar e (ascii ''ABCDEFGHIJKLMNOPQRSTUVWXYZ'') \<noteq> []"
  "without_similar e (ascii ''abcdefghijklmnopqrstuvwxyz'') \<noteq> []"
  "without_similar e (ascii ''0123456789'') \<noteq> []"
  "without_similar e (ascii ''!@#$%^&*()_+-=[]{}|;:,.<>?'') \<noteq> []"
  by (cases e; simp add: without_similar_classes ascii_nonempty)+

lemma character_pool_empty: "character_pool options = [] \<longleftrightarrow> \<not> some_class_enabled options"
  by (simp add: character_pool_def some_class_enabled_def without_similar_nonempty)

text \<open>The loop runs while \<^verbatim>\<open>i < options.length\<close>: \<open>rounds\<close> counts these \<open>i\<close>.\<close>

lemma rounds_less_number: "x \<noteq> PosInfinity \<Longrightarrow> less_number i x \<longleftrightarrow> i < rounds x"
proof (cases x)
  case (Finite q)
  have "of_nat i < q \<longleftrightarrow> int i < \<lceil>q\<rceil>" by (simp add: less_ceiling_iff)
  then show ?thesis using Finite by (simp add: less_number_def rounds_def) linarith
qed (simp_all add: less_number_def rounds_def)

lemma ToIndex_of_nat:
  "ToIndex (Finite (of_nat n)) = (if 2 ^ 53 - 1 < n then Inl RangeError else Inr n)"
proof -
  have "int (2 ^ 53 - 1) = 2 ^ 53 - 1" by simp
  then have "(2 ^ 53 - 1 < int n) = (2 ^ 53 - 1 < n)"
    using of_nat_less_iff [where 'a = int, of "2 ^ 53 - 1" n] by (simp only:)
  then show ?thesis by (simp add: ToIndex_def)
qed

lemma rounds_of_nat: "rounds (Finite (of_nat n)) = n"
  by (simp add: rounds_def)

lemma generateRandomBytes_number_cases:
  "(\<exists>w'. generateRandomBytes_number P len w = (Inl RangeError, w'))
   \<or> (\<exists>w'. generateRandomBytes_number P len w = (Inl (DOMException QuotaExceededError), w'))
   \<or> (\<exists>b w'. generateRandomBytes_number P len w = (Inr b, w'))"
proof (cases "new_Uint8Array P len")
  case (Inl e)
  then have "e = RangeError"
    by (cases len) (auto simp add: new_Uint8Array_def ToIndex_def Let_def
        split: if_splits sum.splits)
  with Inl show ?thesis by (simp add: generateRandomBytes_number_def throw_def)
next
  case (Inr n)
  then show ?thesis
    by (simp add: generateRandomBytes_number_def generateRandomBytes_def
        crypto_getRandomValues_def)
qed

lemma generateSecurePassword_InvalidPolicy:
  "fst (generateSecurePassword P options w) = Inl InvalidPolicy
     \<longleftrightarrow> \<not> some_class_enabled options"
proof (cases "some_class_enabled options")
  case False
  then show ?thesis
    by (simp add: generateSecurePassword_def charset_of_pool character_pool_empty throw_def)
next
  case True
  then have ne: "character_pool options \<noteq> []" by (simp add: character_pool_empty)
  from generateRandomBytes_number_cases [of P "pw_length options" w]
  have "fst (generateSecurePassword P options w) \<noteq> Inl InvalidPolicy"
    by (auto simp add: generateSecurePassword_def charset_of_pool ne await_def resolve_def
        Let_def)
  with True show ?thesis by simp
qed

lemma password_loop_within:
  "foldl (\<lambda>password i. if i < n then password @ [f i] else password @ u) [] [0 ..< n]
     = map f [0 ..< n]"
proof -
  have "foldl (\<lambda>password i. if i < n then password @ [f i] else password @ u) [] [0 ..< n]
      = foldl (\<lambda>password i. password @ [f i]) [] [0 ..< n]"
    by (rule foldl_cong) simp_all
  then show ?thesis by (simp add: foldl_snoc_map)
qed

lemma generateSecurePassword_eq:
  assumes "pw_length options = Finite (of_nat n)"
  shows "generateSecurePassword P options w =
     (if character_pool options = [] then (Inl InvalidPolicy, w)
      else if 2 ^ 53 - 1 < n \<or> max_byte_length P < n then (Inl RangeError, w)
      else if 65536 < n then (Inl (DOMException QuotaExceededError), w)
      else (Inr (map (\<lambda>i. character_pool options !
                    (unat (entropy w (drawn w + i)) mod length (character_pool options)))
                 [0 ..< n]),
            w\<lparr>drawn := drawn w + n\<rparr>))"
proof -
  have l: "length (map (entropy w) [drawn w ..< drawn w + n]) = n" by simp
  have m: "map (\<lambda>i. character_pool options !
              (unat (map (entropy w) [drawn w ..< drawn w + n] ! i)
                 mod length (character_pool options))) [0 ..< n]
         = map (\<lambda>i. character_pool options !
              (unat (entropy w (drawn w + i)) mod length (character_pool options))) [0 ..< n]"
    by (rule map_cong) simp_all
  show ?thesis
    by (simp add: generateSecurePassword_def charset_of_pool Let_def throw_def await_def
        generateRandomBytes_number_def new_Uint8Array_def ToIndex_of_nat of_result_def
        generateRandomBytes_eq resolve_def assms rounds_of_nat password_loop_within m)
qed


text \<open>
  C8 (amended). \<open>generateSecurePassword\<close> fails with \<open>InvalidPolicy\<close> exactly when no
  character class is enabled, whatever the length. Otherwise, for a length that is a
  whole number \<open>n\<close> of at most 65536 (and that the engine allocates), it returns a
  string of exactly \<open>n\<close> characters, each drawn from the pool formed by concatenating
  the enabled classes, with the visually ambiguous glyphs removed from each class when
  \<open>excludeSimilar\<close> is set: character \<open>i\<close> is the pool's character at the \<open>i\<close>-th random
  byte modulo the pool's length. For a whole number above 65536 the function fails:
  with \<open>QuotaExceededError\<close> from the random source where the array can be made, with
  the \<open>RangeError\<close> of \<^verbatim>\<open>new Uint8Array\<close> where it cannot.
\<close>

theorem generateSecurePassword_policy:
  "(fst (generateSecurePassword P options w) = Inl InvalidPolicy
      \<longleftrightarrow> \<not> some_class_enabled options) \<and>
   (some_class_enabled options \<and> pw_length options = Finite (of_nat n) \<and> n \<le> 65536 \<and>
    n \<le> max_byte_length P \<longrightarrow>
      (\<exists>password. fst (generateSecurePassword P options w) = Inr password
         \<and> length password = n
         \<and> set password \<subseteq> set (character_pool options)
         \<and> (\<forall>i<n. password ! i = character_pool options !
                (unat (entropy w (drawn w + i)) mod length (character_pool options))))) \<and>
   (some_class_enabled options \<and> pw_length options = Finite (of_nat n) \<and> 65536 < n \<longrightarrow>
      fst (generateSecurePassword P options w) =
        (if n \<le> max_byte_length P \<and> n \<le> 2 ^ 53 - 1
         then Inl (DOMException QuotaExceededError) else Inl RangeError))"
proof -
  have A: "\<exists>password. fst (generateSecurePassword P options w) = Inr password
         \<and> length password = n
         \<and> set password \<subseteq> set (character_pool options)
         \<and> (\<forall>i<n. password ! i = character_pool options !
                (unat (entropy w (drawn w + i)) mod length (character_pool options)))"
    if e: "some_class_enabled options" and l: "pw_length options = Finite (of_nat n)"
      and q: "n \<le> 65536" and m: "n \<le> max_byte_length P"
  proof -
    from e have ne: "character_pool options \<noteq> []" by (simp add: character_pool_empty)
    then have "\<And>k. character_pool options ! (k mod length (character_pool options))
        \<in> set (character_pool options)"
      by simp
    then show ?thesis using ne q m
      by (auto simp add: generateSecurePassword_eq [OF l])
  qed
  have B: "fst (generateSecurePassword P options w) =
        (if n \<le> max_byte_length P \<and> n \<le> 2 ^ 53 - 1
         then Inl (DOMException QuotaExceededError) else Inl RangeError)"
    if e: "some_class_enabled options" and l: "pw_length options = Finite (of_nat n)"
      and q: "65536 < n"
  proof -
    from e have ne: "character_pool options \<noteq> []" by (simp add: character_pool_empty)
    show ?thesis using ne q by (auto simp add: generateSecurePassword_eq [OF l])
  qed
  from generateSecurePassword_InvalidPolicy [of P options w] A B show ?thesis by blast
qed

theorem generateSecurePassword_policy_witness:
  "some_class_enabled
     \<lparr>pw_length = Finite 4, includeUppercase = False, includeLowercase = False,
      includeNumbers = True, includeSymbols = False, excludeSimilar = True\<rparr> \<and>
   (\<exists>password. fst (generateSecurePassword toy_platform
        \<lparr>pw_length = Finite 4, includeUppercase = False, includeLowercase = False,
         includeNumbers = True, includeSymbols = False, excludeSimilar = True\<rparr> toy_world)
        = Inr password
      \<and> length password = 4
      \<and> set password \<subseteq> set (ascii ''23456789'')) \<and>
   fst (generateSecurePassword toy_platform
        \<lparr>pw_length = Finite 4, includeUppercase = False, includeLowercase = False,
         includeNumbers = False, includeSymbols = False, excludeSimilar = True\<rparr> toy_world)
     = Inl InvalidPolicy \<and>
   fst (generateSecurePassword toy_platform
        \<lparr>pw_length = Finite 70000, includeUppercase = False, includeLowercase = False,
         includeNumbers = True, includeSymbols = False, excludeSimilar = True\<rparr> toy_world)
     = Inl (DOMException QuotaExceededError)"
proof -
  let ?o = "\<lparr>pw_length = Finite 4, includeUppercase = False, includeLowercase = False,
      includeNumbers = True, includeSymbols = False, excludeSimilar = True\<rparr>"
  let ?n = "\<lparr>pw_length = Finite 4, includeUppercase = False, includeLowercase = False,
      includeNumbers = False, includeSymbols = False, excludeSimilar = True\<rparr>"
  let ?l = "\<lparr>pw_length = Finite 70000, includeUppercase = False, includeLowercase = False,
      includeNumbers = True, includeSymbols = False, excludeSimilar = True\<rparr>"
  have e: "some_class_enabled ?o" "some_class_enabled ?l" by (simp_all add: some_class_enabled_def)
  have n: "\<not> some_class_enabled ?n" by (simp add: some_class_enabled_def)
  have p: "character_pool ?o = ascii ''23456789''"
    by (simp add: character_pool_def without_similar_classes)
  have m: "max_byte_length toy_platform = 2 ^ 32" by (simp add: toy_platform_def)
  have l: "pw_length ?o = Finite (of_nat 4)" "pw_length ?l = Finite (of_nat 70000)" by simp_all
  note t1 = generateSecurePassword_policy [of toy_platform ?o toy_world 4, THEN conjunct2,
      THEN conjunct1, rule_format]
  note t2 = generateSecurePassword_policy [of toy_platform ?n toy_world 4, THEN conjunct1]
  note t3 = generateSecurePassword_policy [of toy_platform ?l toy_world 70000, THEN conjunct2,
      THEN conjunct2, rule_format]
  have a1: "\<exists>password. fst (generateSecurePassword toy_platform ?o toy_world) = Inr password
      \<and> length password = 4 \<and> set password \<subseteq> set (ascii ''23456789'')"
    using t1 e(1) l(1) m p by fastforce
  have a2: "fst (generateSecurePassword toy_platform ?n toy_world) = Inl InvalidPolicy"
    using t2 n by blast
  have a3: "fst (generateSecurePassword toy_platform ?l toy_world)
      = Inl (DOMException QuotaExceededError)"
    using t3 e(2) l(2) m by simp
  from e(1) a1 a2 a3 show ?thesis by blast
qed

text \<open>
  C8 as stated fails on the length. With a class enabled and length 65537 the
  function returns no string, the random source throws; with length 2.5 it returns
  eleven characters, the last nine of them \<open>undefined\<close>, which are not of the pool;
  with length -1 it throws the \<open>RangeError\<close> of \<^verbatim>\<open>new Uint8Array\<close>.
\<close>

theorem generateSecurePassword_length_counterexample:
  "fst (generateSecurePassword toy_platform
         \<lparr>pw_length = Finite 65537, includeUppercase = True, includeLowercase = True,
          includeNumbers = True, includeSymbols = True, excludeSimilar = False\<rparr> toy_world)
     = Inl (DOMException QuotaExceededError) \<and>
   fst (generateSecurePassword toy_platform
         \<lparr>pw_length = Finite (5 / 2), includeUppercase = False, includeLowercase = False,
          includeNumbers = True, includeSymbols = False, excludeSimilar = False\<rparr> toy_world)
     = Inr (ascii ''30undefined'') \<and>
   fst (generateSecurePassword toy_platform
         \<lparr>pw_length = Finite (- 1), includeUppercase = False, includeLowercase = False,
          includeNumbers = True, includeSymbols = False, excludeSimilar = False\<rparr> toy_world)
     = Inl RangeError"
proof -
  have m: "max_byte_length toy_platform = 2 ^ 32" by (simp add: toy_platform_def)
  have a: "fst (generateSecurePassword toy_platform
         \<lparr>pw_length = Finite 65537, includeUppercase = True, includeLowercase = True,
          includeNumbers = True, includeSymbols = True, excludeSimilar = False\<rparr> toy_world)
     = Inl (DOMException QuotaExceededError)"
    using generateSecurePassword_eq [of _ 65537 toy_platform toy_world]
    by (simp add: character_pool_def without_similar_classes ascii_def m)
  have u: "[0 ..< 3] = [0, 1, 2]" by (simp add: upt_rec)
  have f: "\<lfloor>5 / 2 :: rat\<rfloor> = 2" "\<lceil>5 / 2 :: rat\<rceil> = 3"
    by (simp_all add: floor_eq_iff ceiling_eq_iff)
  have t: "ToIndex (Finite (5 / 2)) = Inr 2" "rounds (Finite (5 / 2)) = 3"
    by (simp_all add: ToIndex_def rounds_def f)
  have g: "generateRandomBytes 2 toy_world = (Inr [3, 10], toy_world\<lparr>drawn := 2\<rparr>)"
    by (simp add: generateRandomBytes_eq toy_world_def upt_rec)
  have b: "fst (generateSecurePassword toy_platform
         \<lparr>pw_length = Finite (5 / 2), includeUppercase = False, includeLowercase = False,
          includeNumbers = True, includeSymbols = False, excludeSimilar = False\<rparr> toy_world)
     = Inr (ascii ''30undefined'')"
    by (simp add: generateSecurePassword_def charset_of_def Let_def await_def resolve_def
        generateRandomBytes_number_def new_Uint8Array_def t m u g of_result_def ascii_def)
  have c: "fst (generateSecurePassword toy_platform
         \<lparr>pw_length = Finite (- 1), includeUppercase = False, includeLowercase = False,
          includeNumbers = True, includeSymbols = False, excludeSimilar = False\<rparr> toy_world)
     = Inl RangeError"
    by (simp add: generateSecurePassword_def charset_of_def Let_def await_def throw_def
        generateRandomBytes_number_def new_Uint8Array_def ToIndex_def ascii_def)
  from a b c show ?thesis by blast
qed

subsection \<open>\<^verbatim>\<open>deriveMasterKey\<close>\<close>





lemma bytes_of_Uint8Array_of [simp]:
  "bytes_of (Uint8Array_of b) = b" "u8_buffer (Uint8Array_of b) = b"
  by (simp_all add: bytes_of_def Uint8Array_of_def)



subsection \<open>\<^verbatim>\<open>decryptFromSender\<close>\<close>

lemma fingerprint_length:
  "length h = 32 \<Longrightarrow> length (take 16 (base64_encode h)) = 16"
  using length_le_base64_encode [of h] by simp

lemma generateKeyFingerprint_Inr:
  assumes "generateKeyFingerprint P k w = (Inr fp, w1)"
  shows "\<exists>spki. subtle_exportKey_spki P k = Inr spki
           \<and> fp = take 16 (base64_encode (subtle_digest_SHA256 P spki))
           \<and> w1 = w\<lparr>calls := calls w @ [Call_exportKey_spki k, Call_digest_SHA256 spki]\<rparr>"
  using assms by (auto simp: generateKeyFingerprint_eq split: sum.splits)

lemma generateKeyFingerprint_fst:
  "fst (generateKeyFingerprint P k w) = fst (generateKeyFingerprint P k v)"
  by (simp add: generateKeyFingerprint_eq split: sum.splits)

lemma deriveSharedKey_eq:
  "deriveSharedKey P priv pub config w =
     ((case subtle_deriveKey_ECDH P pub priv (aesKeyLength config) of
         Inl d \<Rightarrow> Inl (DOMException d) | Inr k \<Rightarrow> Inr k),
      w\<lparr>calls := calls w @ [Call_deriveKey_ECDH pub priv (aesKeyLength config)]\<rparr>)"
  by (simp add: deriveSharedKey_def subtle_def)

text \<open>
  C4. \<open>decryptFromSender\<close> first computes the fingerprint of the expected sender's public
  key. When it differs from the shared secret's \<open>senderPublicKeyId\<close>, the call fails with
  \<open>SenderMismatch\<close>, and the only operations performed are the export and the digest of
  the fingerprint: no key is derived and nothing is decrypted. When the fingerprints
  are equal, the call derives the pairwise key from the recipient's private key and the
  sender's public key and is the decryption of the envelope under that key. When the
  fingerprint cannot be computed, the platform's error is the result, and again nothing
  is derived or decrypted.
\<close>

theorem decryptFromSender_sender_check:
  "(generateKeyFingerprint P senderPublicKey w = (Inr expected, w1)
      \<and> expected \<noteq> ss_senderPublicKeyId sharedSecret
    \<longrightarrow> decryptFromSender P sharedSecret recipientPrivateKey senderPublicKey config w
          = (Inl SenderMismatch, w1)
      \<and> (\<exists>spki. calls w1
            = calls w @ [Call_exportKey_spki senderPublicKey, Call_digest_SHA256 spki])) \<and>
   (generateKeyFingerprint P senderPublicKey w = (Inr expected, w1)
      \<and> expected = ss_senderPublicKeyId sharedSecret
      \<and> subtle_deriveKey_ECDH P senderPublicKey recipientPrivateKey (aesKeyLength config)
           = Inr sharedKey
    \<longrightarrow> decryptFromSender P sharedSecret recipientPrivateKey senderPublicKey config w
          = decryptData P (ss_encryptedData sharedSecret) sharedKey
              (w1\<lparr>calls := calls w1 @ [Call_deriveKey_ECDH senderPublicKey recipientPrivateKey
                  (aesKeyLength config)]\<rparr>)) \<and>
   (generateKeyFingerprint P senderPublicKey w = (Inl e, w1)
    \<longrightarrow> decryptFromSender P sharedSecret recipientPrivateKey senderPublicKey config w
          = (Inl e, w1)
      \<and> calls w1 = calls w @ [Call_exportKey_spki senderPublicKey])"
proof -
  have A: "decryptFromSender P sharedSecret recipientPrivateKey senderPublicKey config w
          = (Inl SenderMismatch, w1)
      \<and> (\<exists>spki. calls w1
            = calls w @ [Call_exportKey_spki senderPublicKey, Call_digest_SHA256 spki])"
    if "generateKeyFingerprint P senderPublicKey w = (Inr expected, w1)
      \<and> expected \<noteq> ss_senderPublicKeyId sharedSecret"
  proof -
    from that have g: "generateKeyFingerprint P senderPublicKey w = (Inr expected, w1)"
      and ne: "expected \<noteq> ss_senderPublicKeyId sharedSecret" by simp_all
    have "decryptFromSender P sharedSecret recipientPrivateKey senderPublicKey config w
        = (Inl SenderMismatch, w1)"
      using ne by (simp add: decryptFromSender_def await_def g throw_def)
    moreover from generateKeyFingerprint_Inr [OF g]
    have "\<exists>spki. calls w1
        = calls w @ [Call_exportKey_spki senderPublicKey, Call_digest_SHA256 spki]"
      by auto
    ultimately show ?thesis by simp
  qed
  have B: "decryptFromSender P sharedSecret recipientPrivateKey senderPublicKey config w
          = decryptData P (ss_encryptedData sharedSecret) sharedKey
              (w1\<lparr>calls := calls w1 @ [Call_deriveKey_ECDH senderPublicKey recipientPrivateKey
                  (aesKeyLength config)]\<rparr>)"
    if "generateKeyFingerprint P senderPublicKey w = (Inr expected, w1)
      \<and> expected = ss_senderPublicKeyId sharedSecret
      \<and> subtle_deriveKey_ECDH P senderPublicKey recipientPrivateKey (aesKeyLength config)
           = Inr sharedKey"
  proof -
    from that have g: "generateKeyFingerprint P senderPublicKey w = (Inr expected, w1)"
      and eq: "expected = ss_senderPublicKeyId sharedSecret"
      and d: "subtle_deriveKey_ECDH P senderPublicKey recipientPrivateKey (aesKeyLength config)
           = Inr sharedKey" by simp_all
    have "deriveSharedKey P recipientPrivateKey senderPublicKey config w1
        = (Inr sharedKey, w1\<lparr>calls := calls w1 @ [Call_deriveKey_ECDH senderPublicKey
            recipientPrivateKey (aesKeyLength config)]\<rparr>)"
      by (simp add: deriveSharedKey_eq d)
    then show ?thesis using eq
      by (simp add: decryptFromSender_def await_def g)
  qed
  have C: "decryptFromSender P sharedSecret recipientPrivateKey senderPublicKey config w
          = (Inl e, w1)
      \<and> calls w1 = calls w @ [Call_exportKey_spki senderPublicKey]"
    if g: "generateKeyFingerprint P senderPublicKey w = (Inl e, w1)"
  proof -
    have "decryptFromSender P sharedSecret recipientPrivateKey senderPublicKey config w
        = (Inl e, w1)"
      by (simp add: decryptFromSender_def await_def g)
    moreover have "calls w1 = calls w @ [Call_exportKey_spki senderPublicKey]"
      using g by (auto simp: generateKeyFingerprint_eq split: sum.splits)
    ultimately show ?thesis by simp
  qed
  show ?thesis using A B C by blast
qed


theorem decryptFromSender_sender_check_witness:
  "decryptFromSender toy_platform
     \<lparr>ss_encryptedData = \<lparr>ed_data = base64_encode [1, 2, 3, 0x68, 0x69], ed_iv = base64_encode [],
        ed_salt = None, ed_algorithm = ascii ''AES-GCM'', ed_keyDerivation = None\<rparr>,
      ss_recipientPublicKeyId = [], ss_senderPublicKeyId = []\<rparr>
     [3] [1, 2] DEFAULT_CRYPTO_CONFIG toy_world
     = (Inl SenderMismatch,
        toy_world\<lparr>calls := calls toy_world @ [Call_exportKey_spki [1, 2], Call_digest_SHA256 [1, 2]]\<rparr>) \<and>
   decryptFromSender toy_platform
     \<lparr>ss_encryptedData = \<lparr>ed_data = base64_encode [1, 2, 3, 0x68, 0x69], ed_iv = base64_encode [],
        ed_salt = None, ed_algorithm = ascii ''AES-GCM'', ed_keyDerivation = None\<rparr>,
      ss_recipientPublicKeyId = [],
      ss_senderPublicKeyId = take 16 (base64_encode (subtle_digest_SHA256 toy_platform [1, 2]))\<rparr>
     [3] [1, 2] DEFAULT_CRYPTO_CONFIG toy_world
     = decryptData toy_platform
         \<lparr>ed_data = base64_encode [1, 2, 3, 0x68, 0x69], ed_iv = base64_encode [],
          ed_salt = None, ed_algorithm = ascii ''AES-GCM'', ed_keyDerivation = None\<rparr>
         [1, 2, 3]
         (toy_world\<lparr>calls := calls toy_world @ [Call_exportKey_spki [1, 2], Call_digest_SHA256 [1, 2],
             Call_deriveKey_ECDH [1, 2] [3] (aesKeyLength DEFAULT_CRYPTO_CONFIG)]\<rparr>) \<and>
   decryptFromSender (toy_platform\<lparr>subtle_exportKey_spki := \<lambda>k. Inl NotSupportedError\<rparr>)
     \<lparr>ss_encryptedData = \<lparr>ed_data = [], ed_iv = [], ed_salt = None,
        ed_algorithm = ascii ''AES-GCM'', ed_keyDerivation = None\<rparr>,
      ss_recipientPublicKeyId = [], ss_senderPublicKeyId = []\<rparr>
     [3] [1, 2] DEFAULT_CRYPTO_CONFIG toy_world
     = (Inl (DOMException NotSupportedError),
        toy_world\<lparr>calls := calls toy_world @ [Call_exportKey_spki [1, 2]]\<rparr>)"
proof -
  let ?fp = "take 16 (base64_encode (subtle_digest_SHA256 toy_platform [1, 2]))"
  let ?w1 = "toy_world\<lparr>calls := calls toy_world @
      [Call_exportKey_spki [1, 2], Call_digest_SHA256 [1, 2]]\<rparr>"
  let ?Q = "toy_platform\<lparr>subtle_exportKey_spki := \<lambda>k. Inl NotSupportedError\<rparr>"
  let ?w2 = "toy_world\<lparr>calls := calls toy_world @ [Call_exportKey_spki [1, 2]]\<rparr>"
  let ?env = "\<lparr>ed_data = base64_encode [1, 2, 3, 0x68, 0x69], ed_iv = base64_encode [],
      ed_salt = None, ed_algorithm = ascii ''AES-GCM'', ed_keyDerivation = None\<rparr>"
  have g: "generateKeyFingerprint toy_platform [1, 2] toy_world = (Inr ?fp, ?w1)"
    by (simp add: generateKeyFingerprint_eq toy_platform_def)
  have "length (subtle_digest_SHA256 toy_platform [1, 2]) = 32" by (simp add: toy_platform_def)
  then have "length ?fp = 16" by (rule fingerprint_length)
  then have ne: "?fp \<noteq> []" by auto
  have d: "subtle_deriveKey_ECDH toy_platform [1, 2] [3] (aesKeyLength DEFAULT_CRYPTO_CONFIG)
      = Inr [1, 2, 3]"
    by (simp add: toy_platform_def)
  have f: "generateKeyFingerprint ?Q [1, 2] toy_world = (Inl (DOMException NotSupportedError), ?w2)"
    by (simp add: generateKeyFingerprint_eq)
  note m = decryptFromSender_sender_check [where P = toy_platform and senderPublicKey = "[1, 2]"
      and w = toy_world and expected = ?fp and ?w1.0 = ?w1
      and sharedSecret = "\<lparr>ss_encryptedData = ?env, ss_recipientPublicKeyId = [],
        ss_senderPublicKeyId = []\<rparr>"
      and recipientPrivateKey = "[3]" and config = DEFAULT_CRYPTO_CONFIG]
  note k = decryptFromSender_sender_check [where P = toy_platform and senderPublicKey = "[1, 2]"
      and w = toy_world and expected = ?fp and ?w1.0 = ?w1
      and sharedSecret = "\<lparr>ss_encryptedData = ?env, ss_recipientPublicKeyId = [],
        ss_senderPublicKeyId = ?fp\<rparr>"
      and recipientPrivateKey = "[3]" and config = DEFAULT_CRYPTO_CONFIG
      and sharedKey = "[1, 2, 3]"]
  note x = decryptFromSender_sender_check [where P = ?Q and senderPublicKey = "[1, 2]"
      and w = toy_world and e = "DOMException NotSupportedError" and ?w1.0 = ?w2
      and sharedSecret = "\<lparr>ss_encryptedData = \<lparr>ed_data = [], ed_iv = [], ed_salt = None,
          ed_algorithm = ascii ''AES-GCM'', ed_keyDerivation = None\<rparr>,
        ss_recipientPublicKeyId = [], ss_senderPublicKeyId = []\<rparr>"
      and recipientPrivateKey = "[3]" and config = DEFAULT_CRYPTO_CONFIG]
  have 1: "decryptFromSender toy_platform
     \<lparr>ss_encryptedData = ?env, ss_recipientPublicKeyId = [], ss_senderPublicKeyId = []\<rparr>
     [3] [1, 2] DEFAULT_CRYPTO_CONFIG toy_world = (Inl SenderMismatch, ?w1)"
    using m g ne by simp
  have 2: "decryptFromSender toy_platform
     \<lparr>ss_encryptedData = ?env, ss_recipientPublicKeyId = [], ss_senderPublicKeyId = ?fp\<rparr>
     [3] [1, 2] DEFAULT_CRYPTO_CONFIG toy_world
     = decryptData toy_platform ?env [1, 2, 3]
         (?w1\<lparr>calls := calls ?w1 @ [Call_deriveKey_ECDH [1, 2] [3]
             (aesKeyLength DEFAULT_CRYPTO_CONFIG)]\<rparr>)"
    using k g d by simp
  have 3: "decryptFromSender ?Q
     \<lparr>ss_encryptedData = \<lparr>ed_data = [], ed_iv = [], ed_salt = None,
        ed_algorithm = ascii ''AES-GCM'', ed_keyDerivation = None\<rparr>,
      ss_recipientPublicKeyId = [], ss_senderPublicKeyId = []\<rparr>
     [3] [1, 2] DEFAULT_CRYPTO_CONFIG toy_world = (Inl (DOMException NotSupportedError), ?w2)"
    using x f by simp
  show ?thesis using 1 2 3 by simp
qed

subsection \<open>\<^verbatim>\<open>createSecureSharingPayload\<close>\<close>

lemma encryptForRecipient_Inr:
  assumes "encryptForRecipient P data priv pub r config w = (Inr ss, w')"
  shows "\<exists>k w1 w2. deriveSharedKey P priv r config w = (Inr k, w1)
           \<and> subtle_deriveKey_ECDH P r priv (aesKeyLength config) = Inr k
           \<and> encryptData P data k config w1 = (Inr (ss_encryptedData ss), w2)
           \<and> fst (generateKeyFingerprint P pub v) = Inr (ss_senderPublicKeyId ss)
           \<and> fst (generateKeyFingerprint P r v) = Inr (ss_recipientPublicKeyId ss)"
proof -
  from assms obtain k w1 where d: "deriveSharedKey P priv r config w = (Inr k, w1)"
    and 1: "await (encryptData P data k config) (\<lambda>encryptedData.
       await (generateKeyFingerprint P pub) (\<lambda>senderPublicKeyId.
       await (generateKeyFingerprint P r) (\<lambda>recipientPublicKeyId.
       resolve \<lparr>ss_encryptedData = encryptedData, ss_recipientPublicKeyId = recipientPublicKeyId,
                ss_senderPublicKeyId = senderPublicKeyId\<rparr>))) w1 = (Inr ss, w')"
    unfolding encryptForRecipient_def await_eq_Inr by blast
  from 1 obtain e w2 where e: "encryptData P data k config w1 = (Inr e, w2)"
    and 2: "await (generateKeyFingerprint P pub) (\<lambda>senderPublicKeyId.
       await (generateKeyFingerprint P r) (\<lambda>recipientPublicKeyId.
       resolve \<lparr>ss_encryptedData = e, ss_recipientPublicKeyId = recipientPublicKeyId,
                ss_senderPublicKeyId = senderPublicKeyId\<rparr>)) w2 = (Inr ss, w')"
    unfolding await_eq_Inr by blast
  from 2 obtain s w3 where s: "generateKeyFingerprint P pub w2 = (Inr s, w3)"
    and 3: "await (generateKeyFingerprint P r) (\<lambda>recipientPublicKeyId.
       resolve \<lparr>ss_encryptedData = e, ss_recipientPublicKeyId = recipientPublicKeyId,
                ss_senderPublicKeyId = s\<rparr>) w3 = (Inr ss, w')"
    unfolding await_eq_Inr by blast
  from 3 obtain q w4 where q: "generateKeyFingerprint P r w3 = (Inr q, w4)"
    and 4: "resolve \<lparr>ss_encryptedData = e, ss_recipientPublicKeyId = q,
                ss_senderPublicKeyId = s\<rparr> w4 = (Inr ss, w')"
    unfolding await_eq_Inr by blast
  from 4 have ss: "ss = \<lparr>ss_encryptedData = e, ss_recipientPublicKeyId = q,
                ss_senderPublicKeyId = s\<rparr>" by (simp add: resolve_def)
  have fs: "fst (generateKeyFingerprint P pub v) = Inr s"
    using s generateKeyFingerprint_fst [of P pub v w2] by simp
  have fq: "fst (generateKeyFingerprint P r v) = Inr q"
    using q generateKeyFingerprint_fst [of P r v w3] by simp
  have dk: "subtle_deriveKey_ECDH P r priv (aesKeyLength config) = Inr k"
    using d by (auto simp: deriveSharedKey_eq split: sum.splits)
  show ?thesis using d dk e fs fq ss by auto
qed

lemma sharing_loop_Inr:
  "sharing_loop P data kp config rs acc w = (Inr out, w') \<Longrightarrow>
   \<exists>new ws. out = acc @ new \<and> length new = length rs \<and> length ws = length rs + 1
     \<and> ws ! 0 = w \<and> ws ! length rs = w'
     \<and> (\<forall>i < length rs.
           encryptForRecipient P data (kp_privateKey kp) (kp_publicKey kp) (rs ! i) config (ws ! i)
             = (Inr (new ! i), ws ! (i + 1)))"
proof (induction rs arbitrary: acc w)
  case Nil
  then have "out = acc" "w' = w" by (simp_all add: resolve_def)
  then show ?case by (intro exI [of _ "[]"] exI [of _ "[w]"]) simp
next
  case (Cons r rs)
  from Cons.prems obtain ss w1 where
    e: "encryptForRecipient P data (kp_privateKey kp) (kp_publicKey kp) r config w = (Inr ss, w1)"
    and l: "sharing_loop P data kp config rs (acc @ [ss]) w1 = (Inr out, w')"
    unfolding sharing_loop.simps await_eq_Inr by blast
  from Cons.IH [OF l] obtain new ws where
    n: "out = (acc @ [ss]) @ new" "length new = length rs" "length ws = length rs + 1"
      "ws ! 0 = w1" "ws ! length rs = w'"
    and s: "\<forall>i < length rs.
           encryptForRecipient P data (kp_privateKey kp) (kp_publicKey kp) (rs ! i) config (ws ! i)
             = (Inr (new ! i), ws ! (i + 1))"
    by blast
  have "\<forall>i < length (r # rs).
      encryptForRecipient P data (kp_privateKey kp) (kp_publicKey kp) ((r # rs) ! i) config
        ((w # ws) ! i) = (Inr ((ss # new) ! i), (w # ws) ! (i + 1))"
  proof (intro allI impI)
    fix i assume "i < length (r # rs)"
    then show "encryptForRecipient P data (kp_privateKey kp) (kp_publicKey kp) ((r # rs) ! i)
        config ((w # ws) ! i) = (Inr ((ss # new) ! i), (w # ws) ! (i + 1))"
      using e s n(4) by (cases i) simp_all
  qed
  then show ?case using n
    by (intro exI [of _ "ss # new"] exI [of _ "w # ws"]) simp
qed

text \<open>
  C7. When \<open>createSecureSharingPayload\<close> returns, it returns one \<open>SharedSecret\<close> per
  recipient, in the recipients' order, and the i-th is the result of one
  \<open>encryptForRecipient\<close> call of its own for the i-th recipient, made in the state the
  previous call left: its envelope was encrypted by an \<open>encryptData\<close> call of its own
  under the key derived from the sender's private key and that recipient's public key,
  its \<open>recipientPublicKeyId\<close> is the fingerprint of the i-th recipient's public key and
  its \<open>senderPublicKeyId\<close> the fingerprint of the sender's public key.
\<close>

theorem createSecureSharingPayload_per_recipient:
  assumes "createSecureSharingPayload P data senderKeyPair recipients config w = (Inr shared, w')"
  shows "length shared = length recipients \<and>
    (\<exists>ws. length ws = length recipients + 1 \<and> ws ! 0 = w \<and> ws ! length recipients = w' \<and>
      (\<forall>i < length recipients.
         encryptForRecipient P data (kp_privateKey senderKeyPair) (kp_publicKey senderKeyPair)
           (recipients ! i) config (ws ! i) = (Inr (shared ! i), ws ! (i + 1))
       \<and> fst (generateKeyFingerprint P (recipients ! i) v)
           = Inr (ss_recipientPublicKeyId (shared ! i))
       \<and> fst (generateKeyFingerprint P (kp_publicKey senderKeyPair) v)
           = Inr (ss_senderPublicKeyId (shared ! i))
       \<and> (\<exists>k w1 w2.
             subtle_deriveKey_ECDH P (recipients ! i) (kp_privateKey senderKeyPair)
               (aesKeyLength config) = Inr k
           \<and> encryptData P data k config w1 = (Inr (ss_encryptedData (shared ! i)), w2))))"
proof -
  from assms have "sharing_loop P data senderKeyPair config recipients [] w = (Inr shared, w')"
    by (simp add: createSecureSharingPayload_def)
  from sharing_loop_Inr [OF this] obtain ws where
    n: "length shared = length recipients" "length ws = length recipients + 1"
      "ws ! 0 = w" "ws ! length recipients = w'"
    and s: "\<forall>i < length recipients.
       encryptForRecipient P data (kp_privateKey senderKeyPair) (kp_publicKey senderKeyPair)
         (recipients ! i) config (ws ! i) = (Inr (shared ! i), ws ! (i + 1))"
    by auto
  have "\<forall>i < length recipients.
         encryptForRecipient P data (kp_privateKey senderKeyPair) (kp_publicKey senderKeyPair)
           (recipients ! i) config (ws ! i) = (Inr (shared ! i), ws ! (i + 1))
       \<and> fst (generateKeyFingerprint P (recipients ! i) v)
           = Inr (ss_recipientPublicKeyId (shared ! i))
       \<and> fst (generateKeyFingerprint P (kp_publicKey senderKeyPair) v)
           = Inr (ss_senderPublicKeyId (shared ! i))
       \<and> (\<exists>k w1 w2.
             subtle_deriveKey_ECDH P (recipients ! i) (kp_privateKey senderKeyPair)
               (aesKeyLength config) = Inr k
           \<and> encryptData P data k config w1 = (Inr (ss_encryptedData (shared ! i)), w2))"
  proof (intro allI impI)
    fix i assume "i < length recipients"
    with s have e: "encryptForRecipient P data (kp_privateKey senderKeyPair)
        (kp_publicKey senderKeyPair) (recipients ! i) config (ws ! i)
        = (Inr (shared ! i), ws ! (i + 1))" by simp
    from encryptForRecipient_Inr [OF e, of v] e
    show "encryptForRecipient P data (kp_privateKey senderKeyPair) (kp_publicKey senderKeyPair)
           (recipients ! i) config (ws ! i) = (Inr (shared ! i), ws ! (i + 1))
       \<and> fst (generateKeyFingerprint P (recipients ! i) v)
           = Inr (ss_recipientPublicKeyId (shared ! i))
       \<and> fst (generateKeyFingerprint P (kp_publicKey senderKeyPair) v)
           = Inr (ss_senderPublicKeyId (shared ! i))
       \<and> (\<exists>k w1 w2.
             subtle_deriveKey_ECDH P (recipients ! i) (kp_privateKey senderKeyPair)
               (aesKeyLength config) = Inr k
           \<and> encryptData P data k config w1 = (Inr (ss_encryptedData (shared ! i)), w2))"
      by blast
  qed
  with n show ?thesis by blast
qed


theorem createSecureSharingPayload_per_recipient_witness:
  "\<exists>shared w'.
     createSecureSharingPayload toy_platform (ascii ''hi'')
       \<lparr>kp_publicKey = [1, 2], kp_privateKey = [3]\<rparr> [[5], [6]] DEFAULT_CRYPTO_CONFIG toy_world
       = (Inr shared, w')
     \<and> length shared = 2
     \<and> fst (generateKeyFingerprint toy_platform [5] toy_world)
         = Inr (ss_recipientPublicKeyId (shared ! 0))
     \<and> fst (generateKeyFingerprint toy_platform [6] toy_world)
         = Inr (ss_recipientPublicKeyId (shared ! 1))
     \<and> fst (generateKeyFingerprint toy_platform [1, 2] toy_world)
         = Inr (ss_senderPublicKeyId (shared ! 0))
     \<and> fst (generateKeyFingerprint toy_platform [1, 2] toy_world)
         = Inr (ss_senderPublicKeyId (shared ! 1))"
proof -
  have iv: "ivLength DEFAULT_CRYPTO_CONFIG = 12" by (simp add: DEFAULT_CRYPTO_CONFIG_def)
  obtain shared w' where
    r: "createSecureSharingPayload toy_platform (ascii ''hi'')
       \<lparr>kp_publicKey = [1, 2], kp_privateKey = [3]\<rparr> [[5], [6]] DEFAULT_CRYPTO_CONFIG toy_world
       = (Inr shared, w')"
    by (simp add: createSecureSharingPayload_def encryptForRecipient_def deriveSharedKey_eq
        encryptData_def generateRandomBytes_eq generateKeyFingerprint_eq await_def resolve_def
        iv toy_platform_def Let_def)
  note t = createSecureSharingPayload_per_recipient [OF r, of toy_world]
  then have l: "length shared = 2" by simp
  from t obtain ws where
    a: "\<forall>i < length [[5], [6 :: byte]].
         fst (generateKeyFingerprint toy_platform ([[5], [6]] ! i) toy_world)
           = Inr (ss_recipientPublicKeyId (shared ! i))
       \<and> fst (generateKeyFingerprint toy_platform
             (kp_publicKey \<lparr>kp_publicKey = [1, 2], kp_privateKey = [3 :: byte]\<rparr>) toy_world)
           = Inr (ss_senderPublicKeyId (shared ! i))"
    by blast
  have z: "(0 :: nat) < length [[5], [6 :: byte]]" and o: "(1 :: nat) < length [[5], [6 :: byte]]"
    by simp_all
  from a [rule_format, OF z] a [rule_format, OF o] r l show ?thesis by auto
qed

subsection \<open>Envelopes as JSON text\<close>

lemma strip_prefix_append: "strip_prefix p (p @ s) = Some s"
  by (induction p) simp_all

lemma read_string_closed:
  assumes "\<And>c. c \<in> set d \<Longrightarrow> c \<noteq> 0x22 \<and> c \<noteq> 0x5C \<and> \<not> c < 0x20"
  shows "read_string (d @ 0x22 # rest) = Some (d, rest)"
proof -
  have t: "takeWhile (\<lambda>c. c \<noteq> 0x22) (d @ 0x22 # rest) = d"
    using assms by (simp add: takeWhile_append2)
  have dr: "dropWhile (\<lambda>c. c \<noteq> 0x22) (d @ 0x22 # rest) = 0x22 # rest"
    using assms by (simp add: dropWhile_append2)
  have f: "filter (\<lambda>c. c = 0x5C \<or> c < 0x20) d = []"
    using assms by (auto simp add: filter_empty_conv)
  show ?thesis by (simp add: read_string_def t dr f Let_def)
qed

lemma base64_encode_chars:
  "c \<in> set (base64_encode bs) \<Longrightarrow> c \<in> set base64_alphabet \<or> c = 0x3D"
  using body_in_alphabet [of c bs] by (auto simp add: base64_encode_def body_def)

lemma base64_char_plain:
  assumes "c \<in> set base64_alphabet \<or> c = 0x3D"
  shows "c \<noteq> 0x22" "c \<noteq> 0x5C" "\<not> c < 0x20" "\<not> is_surrogate c" "c \<noteq> 0xFEFF"
  using assms by (auto simp add: base64_alphabet_def ascii_def is_surrogate_def)

lemma no_surrogate_well_formed:
  "(\<And>c. c \<in> set s \<Longrightarrow> \<not> is_surrogate c) \<Longrightarrow> well_formed_utf16 s"
  by (induction s rule: well_formed_utf16.induct) simp_all

lemma base64_text_roundtrip:
  "arrayBufferToString (stringToArrayBuffer (base64_encode bs)) = base64_encode bs"
proof (rule text_roundtrip_buffer)
  show "well_formed_utf16 (base64_encode bs)"
    by (rule no_surrogate_well_formed) (use base64_encode_chars base64_char_plain in blast)
  show "base64_encode bs = [] \<or> hd (base64_encode bs) \<noteq> 0xFEFF"
  proof (cases "base64_encode bs = []")
    case False
    then have "hd (base64_encode bs) \<in> set (base64_encode bs)" by simp
    then show ?thesis using base64_encode_chars base64_char_plain(5) by blast
  qed simp
qed

lemma parse_stringify_envelope:
  assumes "\<And>c. c \<in> set (ed_data e) \<Longrightarrow> c \<noteq> 0x22 \<and> c \<noteq> 0x5C \<and> \<not> c < 0x20"
    and "\<And>c. c \<in> set (ed_iv e) \<Longrightarrow> c \<noteq> 0x22 \<and> c \<noteq> 0x5C \<and> \<not> c < 0x20"
    and "\<And>c. c \<in> set (ed_algorithm e) \<Longrightarrow> c \<noteq> 0x22 \<and> c \<noteq> 0x5C \<and> \<not> c < 0x20"
  shows "parse_envelope (stringify_envelope e) =
           Some (JObject [(ascii ''data'', JString (ed_data e)), (ascii ''iv'', JString (ed_iv e)),
                          (ascii ''algorithm'', JString (ed_algorithm e))])"
proof -
  have q: "ascii ''\",\"iv\":\"'' = 0x22 # ascii '',\"iv\":\"''"
    "ascii ''\",\"algorithm\":\"'' = 0x22 # ascii '',\"algorithm\":\"''"
    "ascii ''\"}'' = 0x22 # ascii ''}''"
    by (simp_all add: ascii_def)
  have s: "stringify_envelope e =
      ascii ''{\"data\":\"'' @ (ed_data e @ 0x22 # (ascii '',\"iv\":\"'' @
        (ed_iv e @ 0x22 # (ascii '',\"algorithm\":\"'' @ (ed_algorithm e @ 0x22 # ascii ''}'')))))"
    by (simp add: stringify_envelope_def q)
  have r: "\<And>rest. read_string (ed_data e @ 0x22 # rest) = Some (ed_data e, rest)"
    "\<And>rest. read_string (ed_iv e @ 0x22 # rest) = Some (ed_iv e, rest)"
    "\<And>rest. read_string (ed_algorithm e @ 0x22 # rest) = Some (ed_algorithm e, rest)"
    using assms by (simp_all add: read_string_closed)
  show ?thesis
    by (simp only: parse_envelope_def s strip_prefix_append option.case r prod.case) simp
qed

text \<open>
  On \<open>web_platform\<close>, \<open>importKey\<close> unwraps what \<^verbatim>\<open>exportKey\<close> wrote for a raw key of
  sixteen bytes: the result is the secret key of those bytes.
\<close>

lemma web_importKey:
  assumes "length kb = 16"
  shows "importKey web_platform
           (stringify_envelope
              \<lparr>ed_data = base64_encode (m @ stringToArrayBuffer (base64_encode kb)),
               ed_iv = base64_encode iv, ed_salt = None, ed_algorithm = ascii ''AES-GCM'',
               ed_keyDerivation = None\<rparr>)
           (SecretKey m) config w
         = (Inr (SecretKey kb),
            w\<lparr>calls := calls w @
              [Call_decrypt iv (SecretKey m) (m @ stringToArrayBuffer (base64_encode kb)),
               Call_importKey_AES_GCM kb (aesKeyLength config)]\<rparr>)"
proof -
  let ?ct = "m @ stringToArrayBuffer (base64_encode kb)"
  let ?e = "\<lparr>ed_data = base64_encode ?ct, ed_iv = base64_encode iv, ed_salt = None,
      ed_algorithm = ascii ''AES-GCM'', ed_keyDerivation = None\<rparr>"
  have plain: "\<And>bs c. c \<in> set (base64_encode bs) \<Longrightarrow> c \<noteq> 0x22 \<and> c \<noteq> 0x5C \<and> \<not> c < 0x20"
    using base64_encode_chars base64_char_plain by blast
  have alg: "\<And>c. c \<in> set (ascii ''AES-GCM'') \<Longrightarrow> c \<noteq> 0x22 \<and> c \<noteq> 0x5C \<and> \<not> c < 0x20"
    by (auto simp add: ascii_def)
  have p: "JSON_parse web_platform (stringify_envelope ?e) =
      Some (JObject [(ascii ''data'', JString (base64_encode ?ct)),
                     (ascii ''iv'', JString (base64_encode iv)),
                     (ascii ''algorithm'', JString (ascii ''AES-GCM''))])"
    using parse_stringify_envelope [of ?e] plain alg by (simp add: web_platform_def)
  have names: "ascii ''data'' \<noteq> ascii ''algorithm''" "ascii ''iv'' \<noteq> ascii ''algorithm''"
    "ascii ''data'' \<noteq> ascii ''iv''" "ascii ''iv'' \<noteq> ascii ''data''"
    "ascii ''algorithm'' \<noteq> ascii ''iv''" "ascii ''algorithm'' \<noteq> ascii ''data''"
    by (simp_all add: ascii_def)
  have d: "decryptData web_platform ?e (SecretKey m) w
      = (Inr (arrayBufferToString (stringToArrayBuffer (base64_encode kb))),
         w\<lparr>calls := calls w @ [Call_decrypt iv (SecretKey m) ?ct]\<rparr>)"
    by (rule decryptData_accepted) (simp_all add: web_platform_def)
  have dp: "decryptData_parsed web_platform
      (JObject [(ascii ''data'', JString (base64_encode ?ct)),
                (ascii ''iv'', JString (base64_encode iv)),
                (ascii ''algorithm'', JString (ascii ''AES-GCM''))]) (SecretKey m) w
      = (Inr (base64_encode kb), w\<lparr>calls := calls w @ [Call_decrypt iv (SecretKey m) ?ct]\<rparr>)"
    by (simp add: decryptData_parsed_def get_property_def names ToString_def d
        base64_text_roundtrip)
  have im: "subtle_importKey_AES_GCM web_platform kb (aesKeyLength config) = Inr (SecretKey kb)"
    using assms by (simp add: web_platform_def)
  show ?thesis
    by (simp add: importKey_def JSON_parse_text_def p await_def resolve_def dp im)
qed

subsection \<open>\<^verbatim>\<open>decryptVault\<close>\<close>

lemma importKey_Inr:
  assumes "importKey P encryptedKeyData masterKey config w = (Inr vaultKey, w1)"
  shows "\<exists>keyBuffer. subtle_importKey_AES_GCM P keyBuffer (aesKeyLength config) = Inr vaultKey"
proof -
  from assms obtain keyBuffer v where
    s: "subtle (Call_importKey_AES_GCM keyBuffer (aesKeyLength config))
          (subtle_importKey_AES_GCM P keyBuffer (aesKeyLength config)) v = (Inr vaultKey, w1)"
    unfolding importKey_def await_eq_Inr by blast
  then show ?thesis
    by (cases "subtle_importKey_AES_GCM P keyBuffer (aesKeyLength config)")
      (auto simp add: subtle_def)
qed

text \<open>
  The comparison as the source writes it: where the platform does export the unwrapped
  key, a fingerprint other than the stored one ends \<open>decryptVault\<close> with
  \<open>KeyIntegrityViolation\<close>.
\<close>

lemma decryptVault_compares:
  assumes "importKey P (ev_encryptedKey encryptedVault) masterKey DEFAULT_CRYPTO_CONFIG w
       = (Inr vaultKey, w1)"
    and "generateKeyFingerprint P vaultKey w1 = (Inr keyFingerprint, w2)"
    and "keyFingerprint \<noteq> ev_keyFingerprint encryptedVault"
  shows "decryptVault P encryptedVault masterKey w = (Inl KeyIntegrityViolation, w2)"
  using assms(3)
  by (simp add: decryptVault_def await_def assms(1,2) throw_def del: generateKeyFingerprint_eq)

text \<open>
  C3. \<open>decryptVault\<close> unwraps the vault key and then computes its fingerprint for the
  comparison with the stored \<open>keyFingerprint\<close>. The fingerprint is
  \<^verbatim>\<open>generateKeyFingerprint\<close>, written for public keys: it asks the platform for the SPKI
  encoding of the key. The unwrapped key is the key \<^verbatim>\<open>importKey\<close> made from raw bytes,
  a secret AES-GCM key, and WebCrypto has no SPKI encoding of a secret key. On every
  platform that refuses that export, as WebCrypto does, with \<open>NotSupportedError\<close>,
  a \<open>decryptVault\<close> that has unwrapped the key ends with that refusal, whatever the
  stored fingerprint is: the comparison is not reached and \<open>KeyIntegrityViolation\<close> is
  not raised. The payload is not decrypted, and no call of \<open>decryptVault\<close> returns a
  vault.
\<close>

theorem decryptVault_fingerprint_not_reached:
  assumes "\<And>keyBuffer l k. subtle_importKey_AES_GCM P keyBuffer l = Inr k
             \<Longrightarrow> subtle_exportKey_spki P k = Inl NotSupportedError"
  shows "(importKey P (ev_encryptedKey encryptedVault) masterKey DEFAULT_CRYPTO_CONFIG w
            = (Inr vaultKey, w1)
          \<longrightarrow> decryptVault P encryptedVault masterKey w
                = (Inl (DOMException NotSupportedError),
                   w1\<lparr>calls := calls w1 @ [Call_exportKey_spki vaultKey]\<rparr>))
       \<and> (\<forall>vault. fst (decryptVault P encryptedVault masterKey w) \<noteq> Inr vault)"
proof -
  have A: "decryptVault P encryptedVault masterKey w
      = (Inl (DOMException NotSupportedError),
         w1\<lparr>calls := calls w1 @ [Call_exportKey_spki vaultKey]\<rparr>)"
    if i: "importKey P (ev_encryptedKey encryptedVault) masterKey DEFAULT_CRYPTO_CONFIG w
        = (Inr vaultKey, w1)" for vaultKey w1
  proof -
    from importKey_Inr [OF i] assms
    have x: "subtle_exportKey_spki P vaultKey = Inl NotSupportedError" by blast
    show ?thesis
      by (simp add: decryptVault_def await_def i generateKeyFingerprint_def x subtle_def
          del: generateKeyFingerprint_eq)
  qed
  have B: "fst (decryptVault P encryptedVault masterKey w) \<noteq> Inr vault" for vault
  proof (cases "importKey P (ev_encryptedKey encryptedVault) masterKey DEFAULT_CRYPTO_CONFIG w")
    case (Pair r v)
    show ?thesis
    proof (cases r)
      case (Inl e)
      with Pair show ?thesis by (simp add: decryptVault_def await_def)
    next
      case (Inr k)
      with Pair A [of k v] show ?thesis by simp
    qed
  qed
  from A B show ?thesis by blast
qed

text \<open>
  An instance: the vault's key is wrapped as \<^verbatim>\<open>exportKey\<close> wraps it and the stored
  fingerprint has been replaced. The key unwraps, and the call ends with
  \<open>NotSupportedError\<close> after the one attempt to export it.
\<close>

theorem decryptVault_fingerprint_not_reached_witness:
  "decryptVault web_platform
     \<lparr>ev_id = ascii ''v1'', ev_name = ascii ''Personal'', ev_description = None,
      ev_encryptedData = [], ev_encryptedKey = wrapped_key,
      ev_keyFingerprint = ascii ''tampered'', ev_ownerId = ascii ''user-1'',
      ev_organizationId = None,
      ev_createdAt = \<lparr>date_ref = 4, date_value = TimeValue 0\<rparr>,
      ev_updatedAt = \<lparr>date_ref = 5, date_value = TimeValue 1000\<rparr>,
      ev_lastAccessedAt = None\<rparr> (SecretKey [7]) web_world
   = (Inl (DOMException NotSupportedError),
      web_world\<lparr>calls :=
        [Call_decrypt (replicate 12 0) (SecretKey [7])
           (7 # stringToArrayBuffer (base64_encode (replicate 16 9))),
         Call_importKey_AES_GCM (replicate 16 9) 256,
         Call_exportKey_spki (SecretKey (replicate 16 9))]\<rparr>)"
proof -
  let ?ev = "\<lparr>ev_id = ascii ''v1'', ev_name = ascii ''Personal'', ev_description = None,
      ev_encryptedData = [], ev_encryptedKey = wrapped_key,
      ev_keyFingerprint = ascii ''tampered'', ev_ownerId = ascii ''user-1'',
      ev_organizationId = None,
      ev_createdAt = \<lparr>date_ref = 4, date_value = TimeValue 0\<rparr>,
      ev_updatedAt = \<lparr>date_ref = 5, date_value = TimeValue 1000\<rparr>,
      ev_lastAccessedAt = None\<rparr>"
  let ?w1 = "web_world\<lparr>calls := calls web_world @
      [Call_decrypt (replicate 12 0) (SecretKey [7])
         ([7] @ stringToArrayBuffer (base64_encode (replicate 16 9))),
       Call_importKey_AES_GCM (replicate 16 9) (aesKeyLength DEFAULT_CRYPTO_CONFIG)]\<rparr>"
  have i: "importKey web_platform (ev_encryptedKey ?ev) (SecretKey [7]) DEFAULT_CRYPTO_CONFIG
      web_world = (Inr (SecretKey (replicate 16 9)), ?w1)"
    using web_importKey [of "replicate 16 9" "[7]" "replicate 12 0" DEFAULT_CRYPTO_CONFIG
        web_world]
    by (simp add: wrapped_key_def)
  have x: "\<And>keyBuffer l k. subtle_importKey_AES_GCM web_platform keyBuffer l = Inr k
      \<Longrightarrow> subtle_exportKey_spki web_platform k = Inl NotSupportedError"
    by (auto simp add: web_platform_def split: if_splits)
  have t: "decryptVault web_platform ?ev (SecretKey [7]) web_world
      = (Inl (DOMException NotSupportedError),
         ?w1\<lparr>calls := calls ?w1 @ [Call_exportKey_spki (SecretKey (replicate 16 9))]\<rparr>)"
    by (rule decryptVault_fingerprint_not_reached [where P = web_platform
          and encryptedVault = ?ev and masterKey = "SecretKey [7]" and w = web_world
          and vaultKey = "SecretKey (replicate 16 9)" and ?w1.0 = ?w1,
          THEN conjunct1, rule_format])
      (rule x, assumption, rule i)
  have c: "calls web_world = []" by (simp add: web_world_def)
  have a: "aesKeyLength DEFAULT_CRYPTO_CONFIG = 256" by (simp add: DEFAULT_CRYPTO_CONFIG_def)
  show ?thesis unfolding t by (simp add: c a)
qed

subsection \<open>The vault operations write to the caller's vault\<close>

lemma preserves_resolve [simp]: "preserves g (resolve a)"
  by (simp add: preserves_def resolve_def)

lemma preserves_throw [simp]: "preserves g (throw e)"
  by (simp add: preserves_def throw_def)

lemma preserves_of_result [simp]: "preserves g (of_result r)"
  by (simp add: preserves_def of_result_def)

lemma preserves_await:
  "preserves g m \<Longrightarrow> (\<And>a. preserves g (f a)) \<Longrightarrow> preserves g (await m f)"
  unfolding preserves_def await_def
  by (auto split: prod.splits sum.splits) (metis snd_conv)+

lemma preserves_try_catch:
  "preserves g m \<Longrightarrow> (\<And>e. preserves g (h e)) \<Longrightarrow> preserves g (try_catch m h)"
  unfolding preserves_def try_catch_def
  by (auto split: prod.splits sum.splits) (metis snd_conv)+

lemma preserves_subtle [simp]: "preserves time_of (subtle c r)"
  by (simp add: preserves_def subtle_def time_of_def)

lemma preserves_generateRandomBytes [simp]: "preserves time_of (generateRandomBytes n)"
  by (simp add: preserves_def generateRandomBytes_eq time_of_def)

lemma preserves_decryptData [simp]: "preserves time_of (decryptData P e k)"
  unfolding decryptData_def
  by (auto intro!: preserves_await preserves_try_catch)

lemma preserves_encryptData [simp]: "preserves time_of (encryptData P d k c)"
  unfolding encryptData_def Let_def
  by (auto intro!: preserves_await)

lemma preserves_decryptData_parsed [simp]: "preserves time_of (decryptData_parsed P x k)"
  unfolding decryptData_parsed_def
  by (auto intro!: preserves_await)

lemma preserves_importKey [simp]: "preserves time_of (importKey P s k c)"
  unfolding importKey_def JSON_parse_text_def
  by (auto intro!: preserves_await split: option.splits)

lemma preserves_encryptVaultData [simp]: "preserves time_of (encryptVaultData P v k)"
  unfolding encryptVaultData_def
  by (auto intro!: preserves_await)

lemma preservesD: "preserves g m \<Longrightarrow> m s = (r, s') \<Longrightarrow> g s' = g s"
  by (auto simp: preserves_def dest: spec [of _ s])

lemma await_read_vault [simp]: "await read_vault f (v, w) = f v (v, w)"
  by (simp add: await_def read_vault_def)

lemma await_write_vault [simp]: "await (write_vault g) f (v, w) = f () (g v, w)"
  by (simp add: await_def write_vault_def)

lemma await_in_world:
  "await (in_world m) f (v, w) =
     (case m w of (Inl e, w') \<Rightarrow> (Inl e, (v, w')) | (Inr a, w') \<Rightarrow> f a (v, w'))"
  by (simp add: await_def in_world_def split: prod.splits sum.splits)

lemma await_new_Date [simp]:
  "await (in_world new_Date) f (v, w) =
     f \<lparr>date_ref = allocated w, date_value = TimeValue (clock w (ticks w))\<rparr>
       (v, w\<lparr>ticks := ticks w + 1, allocated := allocated w + 1\<rparr>)"
  by (simp add: await_in_world new_Date_def)

lemma await_new_ref [simp]:
  "await (in_world new_ref) f (v, w) = f (allocated w) (v, w\<lparr>allocated := allocated w + 1\<rparr>)"
  by (simp add: await_in_world new_ref_def)

lemma await_randomUUID [simp]:
  "await (in_world crypto_randomUUID) f (v, w) =
     f (uuids w (issued w)) (v, w\<lparr>issued := issued w + 1\<rparr>)"
  by (simp add: await_in_world crypto_randomUUID_def)

text \<open>
  \<open>updateVault\<close> on a vault and a world: after the key is unwrapped, the vault's
  \<open>updatedAt\<close> is a new \<open>Date\<close> of the clock reading, and the vault so written is
  encrypted and described by the returned object.
\<close>

lemma updateVault_Inr:
  assumes "updateVault P masterKey (vault, w) = (Inr ev, (vault', w'))"
  shows "vault' = vault\<lparr>v_updatedAt :=
            \<lparr>date_ref = allocated w, date_value = TimeValue (clock w (ticks w))\<rparr>\<rparr>
       \<and> ev = EncryptedVault_of vault' (ev_encryptedData ev)
       \<and> time_of w' = time_of (w\<lparr>ticks := ticks w + 1, allocated := allocated w + 1\<rparr>)
       \<and> (\<exists>vaultKey w1 w2.
             importKey P (v_encryptedKey vault) masterKey DEFAULT_CRYPTO_CONFIG w
               = (Inr vaultKey, w1)
           \<and> encryptVaultData P vault' vaultKey w2 = (Inr (ev_encryptedData ev), w'))"
proof -
  from assms obtain vaultKey s1 where
    i0: "in_world (importKey P (v_encryptedKey vault) masterKey DEFAULT_CRYPTO_CONFIG) (vault, w)
        = (Inr vaultKey, s1)"
    and r1: "await (in_world new_Date) (\<lambda>now.
       await (write_vault (\<lambda>v. v\<lparr>v_updatedAt := now\<rparr>)) (\<lambda>_.
       await read_vault (\<lambda>vault.
       await (in_world (encryptVaultData P vault vaultKey)) (\<lambda>encryptedData.
       resolve (EncryptedVault_of vault encryptedData))))) s1 = (Inr ev, (vault', w'))"
    unfolding updateVault_def await_read_vault await_eq_Inr by blast
  obtain w1 where s1: "s1 = (vault, w1)"
    and i: "importKey P (v_encryptedKey vault) masterKey DEFAULT_CRYPTO_CONFIG w
        = (Inr vaultKey, w1)"
    using i0 by (cases s1) (auto simp add: in_world_def split: prod.splits)
  let ?now = "\<lparr>date_ref = allocated w1, date_value = TimeValue (clock w1 (ticks w1))\<rparr>"
  let ?v = "vault\<lparr>v_updatedAt := ?now\<rparr>"
  let ?w2 = "w1\<lparr>ticks := ticks w1 + 1, allocated := allocated w1 + 1\<rparr>"
  from r1 have r2: "await (in_world (encryptVaultData P ?v vaultKey)) (\<lambda>encryptedData.
       resolve (EncryptedVault_of ?v encryptedData)) (?v, ?w2) = (Inr ev, (vault', w'))"
    unfolding s1 by simp
  then obtain encryptedData s3 where
    e0: "in_world (encryptVaultData P ?v vaultKey) (?v, ?w2) = (Inr encryptedData, s3)"
    and r3: "resolve (EncryptedVault_of ?v encryptedData) s3 = (Inr ev, (vault', w'))"
    unfolding await_eq_Inr by blast
  from r3 have ev: "ev = EncryptedVault_of ?v encryptedData" and s3: "s3 = (vault', w')"
    by (simp_all add: resolve_def)
  from e0 have v: "vault' = ?v"
    and e: "encryptVaultData P ?v vaultKey ?w2 = (Inr encryptedData, w')"
    unfolding s3 by (auto simp add: in_world_def split: prod.splits)
  have t1: "time_of w1 = time_of w" by (rule preservesD [OF preserves_importKey i])
  have t2: "time_of w' = time_of ?w2" by (rule preservesD [OF preserves_encryptVaultData e])
  from t1 have c: "clock w1 = clock w" "ticks w1 = ticks w" "allocated w1 = allocated w"
    by (simp_all add: time_of_def)
  from t1 t2 have t3: "time_of w' = time_of (w\<lparr>ticks := ticks w + 1,
      allocated := allocated w + 1\<rparr>)"
    by (simp add: time_of_def)
  have d: "ev_encryptedData ev = encryptedData" by (simp add: ev EncryptedVault_of_def)
  have v': "vault' = vault\<lparr>v_updatedAt :=
      \<lparr>date_ref = allocated w, date_value = TimeValue (clock w (ticks w))\<rparr>\<rparr>"
    using v c by simp
  have ev': "ev = EncryptedVault_of vault' (ev_encryptedData ev)" by (simp only: d v) (rule ev)
  from e have "encryptVaultData P vault' vaultKey ?w2 = (Inr (ev_encryptedData ev), w')"
    by (simp only: v d)
  with i v' ev' t3 show ?thesis by blast
qed

lemma addEntry_eq:
  "addEntry P entry masterKey (vault, w) =
     updateVault P masterKey
       (vault\<lparr>v_entries := (v_entries vault)\<lparr>elems := elems (v_entries vault) @
          [new_entry_of entry (uuids w (issued w))
             \<lparr>date_ref = allocated w, date_value = TimeValue (clock w (ticks w))\<rparr>
             \<lparr>date_ref = allocated w + 1, date_value = TimeValue (clock w (ticks w + 1))\<rparr>]\<rparr>\<rparr>,
        w\<lparr>issued := issued w + 1, ticks := ticks w + 2, allocated := allocated w + 2\<rparr>)"
  by (simp add: addEntry_def Let_def)

lemma addFolder_eq:
  "addFolder P folder masterKey (vault, w) =
     updateVault P masterKey
       (vault\<lparr>v_folders := (v_folders vault)\<lparr>elems := elems (v_folders vault) @
          [new_folder_of folder (uuids w (issued w))
             \<lparr>date_ref = allocated w, date_value = TimeValue (clock w (ticks w))\<rparr>
             \<lparr>date_ref = allocated w + 1, date_value = TimeValue (clock w (ticks w + 1))\<rparr>]\<rparr>\<rparr>,
        w\<lparr>issued := issued w + 1, ticks := ticks w + 2, allocated := allocated w + 2\<rparr>)"
  by (simp add: addFolder_def Let_def)

lemma deleteEntry_eq:
  "deleteEntry P entryId masterKey (vault, w) =
     updateVault P masterKey
       (vault\<lparr>v_entries :=
          \<lparr>array_ref = allocated w,
           elems = filter (\<lambda>e. e_id e \<noteq> entryId) (elems (v_entries vault))\<rparr>\<rparr>,
        w\<lparr>allocated := allocated w + 1\<rparr>)"
  by (simp add: deleteEntry_def)

lemma updateEntry_eq:
  "updateEntry P entryId updates masterKey (vault, w) =
     (case findIndex (\<lambda>e. e_id e = entryId) (elems (v_entries vault)) of
        None \<Rightarrow> (Inl EntryNotFound, (vault, w))
      | Some i \<Rightarrow>
          updateVault P masterKey
            (vault\<lparr>v_entries := (v_entries vault)\<lparr>elems := (elems (v_entries vault))
                [i := merge_entry (elems (v_entries vault) ! i) updates
                   \<lparr>date_ref = allocated w, date_value = TimeValue (clock w (ticks w))\<rparr>]\<rparr>\<rparr>,
             w\<lparr>ticks := ticks w + 1, allocated := allocated w + 1\<rparr>))"
  by (simp add: updateEntry_def throw_def split: option.splits)

lemma findIndex_Some:
  "findIndex p xs = Some i \<Longrightarrow> i < length xs \<and> p (xs ! i) \<and> (\<forall>j<i. \<not> p (xs ! j))"
proof (induction xs arbitrary: i)
  case Nil
  then show ?case by simp
next
  case (Cons x xs)
  show ?case
  proof (cases "p x")
    case True
    with Cons.prems show ?thesis by simp
  next
    case False
    with Cons.prems obtain k where k: "findIndex p xs = Some k" and i: "i = Suc k" by auto
    from Cons.IH [OF k] False show ?thesis unfolding i
      by (auto simp add: less_Suc_eq_0_disj)
  qed
qed

lemma vault_updatedAt_neq:
  "date_ref (v_updatedAt v') \<noteq> date_ref (v_updatedAt v) \<Longrightarrow> v' \<noteq> v"
  by auto

text \<open>
  C9. The five vault operations write to the caller's \<open>Vault\<close> object. A run takes the
  vault as it is before the call and gives the vault as it is after it, next to the
  returned \<open>EncryptedVault\<close>. For a vault whose \<open>updatedAt\<close> is an object made before
  the call, after a call that returns:

    \<^item> \<^verbatim>\<open>updateVault\<close> has put a new \<open>Date\<close> of the clock reading at \<open>updatedAt\<close>;
    \<^item> \<^verbatim>\<open>addEntry\<close> has pushed one entry on the array at \<open>entries\<close>, made of the caller's
      entry, the fresh identifier and two new dates, and has put a new date at
      \<open>updatedAt\<close>;
    \<^item> \<^verbatim>\<open>updateEntry\<close> has put, at the first place of the array whose entry has the
      identifier, the entry merged from the old one and the updates with a new date, and
      has put a new date at \<open>updatedAt\<close>;
    \<^item> \<^verbatim>\<open>deleteEntry\<close> has put a new array at \<open>entries\<close>, of the entries with another
      identifier, and a new date at \<open>updatedAt\<close>;
    \<^item> \<^verbatim>\<open>addFolder\<close> has pushed one folder on the array at \<open>folders\<close> and has put a new
      date at \<open>updatedAt\<close>.

  In each case the returned object carries the new \<open>updatedAt\<close>, and the vault is not
  what it was before the call: at the least its \<open>updatedAt\<close> is another object.
\<close>

theorem vault_mutations_in_place:
  assumes "date_ref (v_updatedAt vault) < allocated w"
  shows
   "(updateVault P masterKey (vault, w) = (Inr ev, (vault', w')) \<longrightarrow>
       vault' = vault\<lparr>v_updatedAt :=
                \<lparr>date_ref = allocated w, date_value = TimeValue (clock w (ticks w))\<rparr>\<rparr>
     \<and> ev_updatedAt ev = v_updatedAt vault' \<and> vault' \<noteq> vault)
  \<and> (addEntry P entry masterKey (vault, w) = (Inr ev, (vault', w')) \<longrightarrow>
       vault' = vault
         \<lparr>v_entries := (v_entries vault)\<lparr>elems := elems (v_entries vault) @
            [\<lparr>e_id = uuids w (issued w), e_name = n_name entry, e_type = n_type entry,
              e_fields = n_fields entry, e_notes = n_notes entry,
              e_favorite = n_favorite entry, e_tags = n_tags entry,
              e_folderId = n_folderId entry,
              e_createdAt =
                \<lparr>date_ref = allocated w, date_value = TimeValue (clock w (ticks w))\<rparr>,
              e_updatedAt =
                \<lparr>date_ref = allocated w + 1, date_value = TimeValue (clock w (ticks w + 1))\<rparr>,
              e_lastAccessedAt = n_lastAccessedAt entry,
              e_expiresAt = n_expiresAt entry\<rparr>]\<rparr>,
          v_updatedAt :=
            \<lparr>date_ref = allocated w + 2, date_value = TimeValue (clock w (ticks w + 2))\<rparr>\<rparr>
     \<and> ev_updatedAt ev = v_updatedAt vault' \<and> vault' \<noteq> vault)
  \<and> (updateEntry P entryId updates masterKey (vault, w) = (Inr ev, (vault', w')) \<longrightarrow>
       (\<exists>i < length (elems (v_entries vault)).
           e_id (elems (v_entries vault) ! i) = entryId
         \<and> (\<forall>j<i. e_id (elems (v_entries vault) ! j) \<noteq> entryId)
         \<and> vault' = vault
             \<lparr>v_entries := (v_entries vault)\<lparr>elems := (elems (v_entries vault))
                [i := \<lparr>e_id = (case p_id updates of Some x \<Rightarrow> x | None \<Rightarrow> e_id (elems (v_entries vault) ! i)),
                 e_name = (case p_name updates of Some x \<Rightarrow> x | None \<Rightarrow> e_name (elems (v_entries vault) ! i)),
                 e_type = (case p_type updates of Some x \<Rightarrow> x | None \<Rightarrow> e_type (elems (v_entries vault) ! i)),
                 e_fields = (case p_fields updates of Some x \<Rightarrow> x | None \<Rightarrow> e_fields (elems (v_entries vault) ! i)),
                 e_notes = (case p_notes updates of Some x \<Rightarrow> x | None \<Rightarrow> e_notes (elems (v_entries vault) ! i)),
                 e_favorite = (case p_favorite updates of Some x \<Rightarrow> x | None \<Rightarrow> e_favorite (elems (v_entries vault) ! i)),
                 e_tags = (case p_tags updates of Some x \<Rightarrow> x | None \<Rightarrow> e_tags (elems (v_entries vault) ! i)),
                 e_folderId = (case p_folderId updates of Some x \<Rightarrow> x | None \<Rightarrow> e_folderId (elems (v_entries vault) ! i)),
                 e_createdAt = (case p_createdAt updates of Some x \<Rightarrow> x | None \<Rightarrow> e_createdAt (elems (v_entries vault) ! i)),
                 e_updatedAt = \<lparr>date_ref = allocated w, date_value = TimeValue (clock w (ticks w))\<rparr>,
                 e_lastAccessedAt = (case p_lastAccessedAt updates of Some x \<Rightarrow> x | None \<Rightarrow> e_lastAccessedAt (elems (v_entries vault) ! i)),
                 e_expiresAt = (case p_expiresAt updates of Some x \<Rightarrow> x | None \<Rightarrow> e_expiresAt (elems (v_entries vault) ! i))\<rparr>]\<rparr>,
              v_updatedAt :=
                \<lparr>date_ref = allocated w + 1,
                 date_value = TimeValue (clock w (ticks w + 1))\<rparr>\<rparr>)
     \<and> ev_updatedAt ev = v_updatedAt vault' \<and> vault' \<noteq> vault)
  \<and> (deleteEntry P entryId masterKey (vault, w) = (Inr ev, (vault', w')) \<longrightarrow>
       vault' = vault
         \<lparr>v_entries :=
            \<lparr>array_ref = allocated w,
             elems = filter (\<lambda>e. e_id e \<noteq> entryId) (elems (v_entries vault))\<rparr>,
          v_updatedAt :=
            \<lparr>date_ref = allocated w + 1, date_value = TimeValue (clock w (ticks w))\<rparr>\<rparr>
     \<and> ev_updatedAt ev = v_updatedAt vault' \<and> vault' \<noteq> vault)
  \<and> (addFolder P folder masterKey (vault, w) = (Inr ev, (vault', w')) \<longrightarrow>
       vault' = vault
         \<lparr>v_folders := (v_folders vault)\<lparr>elems := elems (v_folders vault) @
            [\<lparr>f_id = uuids w (issued w), f_name = nf_name folder,
              f_parentId = nf_parentId folder, f_vaultId = nf_vaultId folder,
              f_createdAt =
                \<lparr>date_ref = allocated w, date_value = TimeValue (clock w (ticks w))\<rparr>,
              f_updatedAt =
                \<lparr>date_ref = allocated w + 1,
                 date_value = TimeValue (clock w (ticks w + 1))\<rparr>\<rparr>]\<rparr>,
          v_updatedAt :=
            \<lparr>date_ref = allocated w + 2, date_value = TimeValue (clock w (ticks w + 2))\<rparr>\<rparr>
     \<and> ev_updatedAt ev = v_updatedAt vault' \<and> vault' \<noteq> vault)"
proof -
  have E: "ev_updatedAt ev = v_updatedAt vault'"
    if "ev = EncryptedVault_of vault' (ev_encryptedData ev)"
  proof -
    have "ev_updatedAt (EncryptedVault_of vault' (ev_encryptedData ev)) = v_updatedAt vault'"
      by (simp add: EncryptedVault_of_def)
    with that show ?thesis by simp
  qed
  have N: "vault' \<noteq> vault" if "date_ref (v_updatedAt vault') = allocated w + k" for k
    by (rule vault_updatedAt_neq) (use that assms in simp)
  have A: "vault' = vault\<lparr>v_updatedAt :=
                \<lparr>date_ref = allocated w, date_value = TimeValue (clock w (ticks w))\<rparr>\<rparr>
     \<and> ev_updatedAt ev = v_updatedAt vault' \<and> vault' \<noteq> vault"
    if h: "updateVault P masterKey (vault, w) = (Inr ev, (vault', w'))"
  proof -
    note u = updateVault_Inr [OF h]
    from u have v: "vault' = vault\<lparr>v_updatedAt :=
                \<lparr>date_ref = allocated w, date_value = TimeValue (clock w (ticks w))\<rparr>\<rparr>" by blast
    from u have e: "ev = EncryptedVault_of vault' (ev_encryptedData ev)" by blast
    have "date_ref (v_updatedAt vault') = allocated w + 0" by (simp add: v)
    from v E [OF e] N [OF this] show ?thesis by blast
  qed
  have B: "vault' = vault
         \<lparr>v_entries := (v_entries vault)\<lparr>elems := elems (v_entries vault) @
            [\<lparr>e_id = uuids w (issued w), e_name = n_name entry, e_type = n_type entry,
              e_fields = n_fields entry, e_notes = n_notes entry,
              e_favorite = n_favorite entry, e_tags = n_tags entry,
              e_folderId = n_folderId entry,
              e_createdAt =
                \<lparr>date_ref = allocated w, date_value = TimeValue (clock w (ticks w))\<rparr>,
              e_updatedAt =
                \<lparr>date_ref = allocated w + 1, date_value = TimeValue (clock w (ticks w + 1))\<rparr>,
              e_lastAccessedAt = n_lastAccessedAt entry,
              e_expiresAt = n_expiresAt entry\<rparr>]\<rparr>,
          v_updatedAt :=
            \<lparr>date_ref = allocated w + 2, date_value = TimeValue (clock w (ticks w + 2))\<rparr>\<rparr>
     \<and> ev_updatedAt ev = v_updatedAt vault' \<and> vault' \<noteq> vault"
    if h: "addEntry P entry masterKey (vault, w) = (Inr ev, (vault', w'))"
  proof -
    note u = updateVault_Inr [OF h [unfolded addEntry_eq]]
    from u have v: "vault' = vault
         \<lparr>v_entries := (v_entries vault)\<lparr>elems := elems (v_entries vault) @
            [\<lparr>e_id = uuids w (issued w), e_name = n_name entry, e_type = n_type entry,
              e_fields = n_fields entry, e_notes = n_notes entry,
              e_favorite = n_favorite entry, e_tags = n_tags entry,
              e_folderId = n_folderId entry,
              e_createdAt =
                \<lparr>date_ref = allocated w, date_value = TimeValue (clock w (ticks w))\<rparr>,
              e_updatedAt =
                \<lparr>date_ref = allocated w + 1, date_value = TimeValue (clock w (ticks w + 1))\<rparr>,
              e_lastAccessedAt = n_lastAccessedAt entry,
              e_expiresAt = n_expiresAt entry\<rparr>]\<rparr>,
          v_updatedAt :=
            \<lparr>date_ref = allocated w + 2, date_value = TimeValue (clock w (ticks w + 2))\<rparr>\<rparr>" by (simp add: new_entry_of_def)
    from u have e: "ev = EncryptedVault_of vault' (ev_encryptedData ev)" by blast
    have "date_ref (v_updatedAt vault') = allocated w + 2" by (simp add: v)
    from v E [OF e] N [OF this] show ?thesis by blast
  qed
  have C: "(\<exists>i < length (elems (v_entries vault)).
           e_id (elems (v_entries vault) ! i) = entryId
         \<and> (\<forall>j<i. e_id (elems (v_entries vault) ! j) \<noteq> entryId)
         \<and> vault' = vault
             \<lparr>v_entries := (v_entries vault)\<lparr>elems := (elems (v_entries vault))
                [i := \<lparr>e_id = (case p_id updates of Some x \<Rightarrow> x | None \<Rightarrow> e_id (elems (v_entries vault) ! i)),
                 e_name = (case p_name updates of Some x \<Rightarrow> x | None \<Rightarrow> e_name (elems (v_entries vault) ! i)),
                 e_type = (case p_type updates of Some x \<Rightarrow> x | None \<Rightarrow> e_type (elems (v_entries vault) ! i)),
                 e_fields = (case p_fields updates of Some x \<Rightarrow> x | None \<Rightarrow> e_fields (elems (v_entries vault) ! i)),
                 e_notes = (case p_notes updates of Some x \<Rightarrow> x | None \<Rightarrow> e_notes (elems (v_entries vault) ! i)),
                 e_favorite = (case p_favorite updates of Some x \<Rightarrow> x | None \<Rightarrow> e_favorite (elems (v_entries vault) ! i)),
                 e_tags = (case p_tags updates of Some x \<Rightarrow> x | None \<Rightarrow> e_tags (elems (v_entries vault) ! i)),
                 e_folderId = (case p_folderId updates of Some x \<Rightarrow> x | None \<Rightarrow> e_folderId (elems (v_entries vault) ! i)),
                 e_createdAt = (case p_createdAt updates of Some x \<Rightarrow> x | None \<Rightarrow> e_createdAt (elems (v_entries vault) ! i)),
                 e_updatedAt = \<lparr>date_ref = allocated w, date_value = TimeValue (clock w (ticks w))\<rparr>,
                 e_lastAccessedAt = (case p_lastAccessedAt updates of Some x \<Rightarrow> x | None \<Rightarrow> e_lastAccessedAt (elems (v_entries vault) ! i)),
                 e_expiresAt = (case p_expiresAt updates of Some x \<Rightarrow> x | None \<Rightarrow> e_expiresAt (elems (v_entries vault) ! i))\<rparr>]\<rparr>,
              v_updatedAt :=
                \<lparr>date_ref = allocated w + 1,
                 date_value = TimeValue (clock w (ticks w + 1))\<rparr>\<rparr>)
     \<and> ev_updatedAt ev = v_updatedAt vault' \<and> vault' \<noteq> vault"
    if h: "updateEntry P entryId updates masterKey (vault, w) = (Inr ev, (vault', w'))"
  proof -
    from h obtain i where f: "findIndex (\<lambda>e. e_id e = entryId) (elems (v_entries vault)) = Some i"
      unfolding updateEntry_eq
      by (cases "findIndex (\<lambda>e. e_id e = entryId) (elems (v_entries vault))") simp_all
    note u = updateVault_Inr [OF h [unfolded updateEntry_eq f option.case]]
    from u have v: "vault' = vault
             \<lparr>v_entries := (v_entries vault)\<lparr>elems := (elems (v_entries vault))
                [i := \<lparr>e_id = (case p_id updates of Some x \<Rightarrow> x | None \<Rightarrow> e_id (elems (v_entries vault) ! i)),
                 e_name = (case p_name updates of Some x \<Rightarrow> x | None \<Rightarrow> e_name (elems (v_entries vault) ! i)),
                 e_type = (case p_type updates of Some x \<Rightarrow> x | None \<Rightarrow> e_type (elems (v_entries vault) ! i)),
                 e_fields = (case p_fields updates of Some x \<Rightarrow> x | None \<Rightarrow> e_fields (elems (v_entries vault) ! i)),
                 e_notes = (case p_notes updates of Some x \<Rightarrow> x | None \<Rightarrow> e_notes (elems (v_entries vault) ! i)),
                 e_favorite = (case p_favorite updates of Some x \<Rightarrow> x | None \<Rightarrow> e_favorite (elems (v_entries vault) ! i)),
                 e_tags = (case p_tags updates of Some x \<Rightarrow> x | None \<Rightarrow> e_tags (elems (v_entries vault) ! i)),
                 e_folderId = (case p_folderId updates of Some x \<Rightarrow> x | None \<Rightarrow> e_folderId (elems (v_entries vault) ! i)),
                 e_createdAt = (case p_createdAt updates of Some x \<Rightarrow> x | None \<Rightarrow> e_createdAt (elems (v_entries vault) ! i)),
                 e_updatedAt = \<lparr>date_ref = allocated w, date_value = TimeValue (clock w (ticks w))\<rparr>,
                 e_lastAccessedAt = (case p_lastAccessedAt updates of Some x \<Rightarrow> x | None \<Rightarrow> e_lastAccessedAt (elems (v_entries vault) ! i)),
                 e_expiresAt = (case p_expiresAt updates of Some x \<Rightarrow> x | None \<Rightarrow> e_expiresAt (elems (v_entries vault) ! i))\<rparr>]\<rparr>,
              v_updatedAt :=
                \<lparr>date_ref = allocated w + 1,
                 date_value = TimeValue (clock w (ticks w + 1))\<rparr>\<rparr>" by (simp add: merge_entry_def)
    from u have e: "ev = EncryptedVault_of vault' (ev_encryptedData ev)" by blast
    note x = findIndex_Some [OF f]
    from x have l: "i < length (elems (v_entries vault))" by blast
    from x have m: "e_id (elems (v_entries vault) ! i) = entryId" by blast
    from x have n: "\<forall>j<i. e_id (elems (v_entries vault) ! j) \<noteq> entryId" by blast
    have "date_ref (v_updatedAt vault') = allocated w + 1" by (simp add: v)
    note y = N [OF this]
    from l m n v have "(\<exists>i < length (elems (v_entries vault)).
           e_id (elems (v_entries vault) ! i) = entryId
         \<and> (\<forall>j<i. e_id (elems (v_entries vault) ! j) \<noteq> entryId)
         \<and> vault' = vault
             \<lparr>v_entries := (v_entries vault)\<lparr>elems := (elems (v_entries vault))
                [i := \<lparr>e_id = (case p_id updates of Some x \<Rightarrow> x | None \<Rightarrow> e_id (elems (v_entries vault) ! i)),
                 e_name = (case p_name updates of Some x \<Rightarrow> x | None \<Rightarrow> e_name (elems (v_entries vault) ! i)),
                 e_type = (case p_type updates of Some x \<Rightarrow> x | None \<Rightarrow> e_type (elems (v_entries vault) ! i)),
                 e_fields = (case p_fields updates of Some x \<Rightarrow> x | None \<Rightarrow> e_fields (elems (v_entries vault) ! i)),
                 e_notes = (case p_notes updates of Some x \<Rightarrow> x | None \<Rightarrow> e_notes (elems (v_entries vault) ! i)),
                 e_favorite = (case p_favorite updates of Some x \<Rightarrow> x | None \<Rightarrow> e_favorite (elems (v_entries vault) ! i)),
                 e_tags = (case p_tags updates of Some x \<Rightarrow> x | None \<Rightarrow> e_tags (elems (v_entries vault) ! i)),
                 e_folderId = (case p_folderId updates of Some x \<Rightarrow> x | None \<Rightarrow> e_folderId (elems (v_entries vault) ! i)),
                 e_createdAt = (case p_createdAt updates of Some x \<Rightarrow> x | None \<Rightarrow> e_createdAt (elems (v_entries vault) ! i)),
                 e_updatedAt = \<lparr>date_ref = allocated w, date_value = TimeValue (clock w (ticks w))\<rparr>,
                 e_lastAccessedAt = (case p_lastAccessedAt updates of Some x \<Rightarrow> x | None \<Rightarrow> e_lastAccessedAt (elems (v_entries vault) ! i)),
                 e_expiresAt = (case p_expiresAt updates of Some x \<Rightarrow> x | None \<Rightarrow> e_expiresAt (elems (v_entries vault) ! i))\<rparr>]\<rparr>,
              v_updatedAt :=
                \<lparr>date_ref = allocated w + 1,
                 date_value = TimeValue (clock w (ticks w + 1))\<rparr>\<rparr>)" by blast
    with E [OF e] y show ?thesis by blast
  qed
  have D: "vault' = vault
         \<lparr>v_entries :=
            \<lparr>array_ref = allocated w,
             elems = filter (\<lambda>e. e_id e \<noteq> entryId) (elems (v_entries vault))\<rparr>,
          v_updatedAt :=
            \<lparr>date_ref = allocated w + 1, date_value = TimeValue (clock w (ticks w))\<rparr>\<rparr>
     \<and> ev_updatedAt ev = v_updatedAt vault' \<and> vault' \<noteq> vault"
    if h: "deleteEntry P entryId masterKey (vault, w) = (Inr ev, (vault', w'))"
  proof -
    note u = updateVault_Inr [OF h [unfolded deleteEntry_eq]]
    from u have v: "vault' = vault
         \<lparr>v_entries :=
            \<lparr>array_ref = allocated w,
             elems = filter (\<lambda>e. e_id e \<noteq> entryId) (elems (v_entries vault))\<rparr>,
          v_updatedAt :=
            \<lparr>date_ref = allocated w + 1, date_value = TimeValue (clock w (ticks w))\<rparr>\<rparr>" by simp
    from u have e: "ev = EncryptedVault_of vault' (ev_encryptedData ev)" by blast
    have "date_ref (v_updatedAt vault') = allocated w + 1" by (simp add: v)
    from v E [OF e] N [OF this] show ?thesis by blast
  qed
  have F: "vault' = vault
         \<lparr>v_folders := (v_folders vault)\<lparr>elems := elems (v_folders vault) @
            [\<lparr>f_id = uuids w (issued w), f_name = nf_name folder,
              f_parentId = nf_parentId folder, f_vaultId = nf_vaultId folder,
              f_createdAt =
                \<lparr>date_ref = allocated w, date_value = TimeValue (clock w (ticks w))\<rparr>,
              f_updatedAt =
                \<lparr>date_ref = allocated w + 1,
                 date_value = TimeValue (clock w (ticks w + 1))\<rparr>\<rparr>]\<rparr>,
          v_updatedAt :=
            \<lparr>date_ref = allocated w + 2, date_value = TimeValue (clock w (ticks w + 2))\<rparr>\<rparr>
     \<and> ev_updatedAt ev = v_updatedAt vault' \<and> vault' \<noteq> vault"
    if h: "addFolder P folder masterKey (vault, w) = (Inr ev, (vault', w'))"
  proof -
    note u = updateVault_Inr [OF h [unfolded addFolder_eq]]
    from u have v: "vault' = vault
         \<lparr>v_folders := (v_folders vault)\<lparr>elems := elems (v_folders vault) @
            [\<lparr>f_id = uuids w (issued w), f_name = nf_name folder,
              f_parentId = nf_parentId folder, f_vaultId = nf_vaultId folder,
              f_createdAt =
                \<lparr>date_ref = allocated w, date_value = TimeValue (clock w (ticks w))\<rparr>,
              f_updatedAt =
                \<lparr>date_ref = allocated w + 1,
                 date_value = TimeValue (clock w (ticks w + 1))\<rparr>\<rparr>]\<rparr>,
          v_updatedAt :=
            \<lparr>date_ref = allocated w + 2, date_value = TimeValue (clock w (ticks w + 2))\<rparr>\<rparr>" by (simp add: new_folder_of_def)
    from u have e: "ev = EncryptedVault_of vault' (ev_encryptedData ev)" by blast
    have "date_ref (v_updatedAt vault') = allocated w + 2" by (simp add: v)
    from v E [OF e] N [OF this] show ?thesis by blast
  qed
  from A B C D F show ?thesis by blast
qed

lemma updateVault_returns:
  assumes i: "importKey P (v_encryptedKey v) masterKey DEFAULT_CRYPTO_CONFIG w = (Inr k, w1)"
    and e: "\<And>v' w'. \<exists>d w''. encryptVaultData P v' k w' = (Inr d, w'')"
  shows "\<exists>ev v' w'. updateVault P masterKey (v, w) = (Inr ev, (v', w'))"
proof -
  let ?v = "v\<lparr>v_updatedAt :=
      \<lparr>date_ref = allocated w1, date_value = TimeValue (clock w1 (ticks w1))\<rparr>\<rparr>"
  from e obtain d w'' where
    "encryptVaultData P ?v k (w1\<lparr>ticks := ticks w1 + 1, allocated := allocated w1 + 1\<rparr>)
       = (Inr d, w'')" by blast
  then have "updateVault P masterKey (v, w) = (Inr (EncryptedVault_of ?v d), (?v, w''))"
    by (simp add: updateVault_def await_in_world i new_Date_def resolve_def)
  then show ?thesis by blast
qed

lemma web_encryptVaultData:
  "\<exists>d w''. encryptVaultData web_platform v (SecretKey kb) w = (Inr d, w'')"
proof -
  have le: "ivLength DEFAULT_CRYPTO_CONFIG \<le> 65536" by (simp add: DEFAULT_CRYPTO_CONFIG_def)
  have c: "\<And>i d. subtle_encrypt web_platform i (SecretKey kb) d = Inr (kb @ d)"
    by (simp add: web_platform_def)
  note e = encryptData_succeeds [OF le c]
  show ?thesis by (simp add: encryptVaultData_def await_def e resolve_def)
qed

lemma web_updateVault:
  assumes "v_encryptedKey v = wrapped_key"
  shows "\<exists>ev v' w'. updateVault web_platform (SecretKey [7]) (v, w) = (Inr ev, (v', w'))"
proof (rule updateVault_returns)
  show "importKey web_platform (v_encryptedKey v) (SecretKey [7]) DEFAULT_CRYPTO_CONFIG w
      = (Inr (SecretKey (replicate 16 9)),
         w\<lparr>calls := calls w @
           [Call_decrypt (replicate 12 0) (SecretKey [7])
              ([7] @ stringToArrayBuffer (base64_encode (replicate 16 9))),
            Call_importKey_AES_GCM (replicate 16 9) (aesKeyLength DEFAULT_CRYPTO_CONFIG)]\<rparr>)"
    using web_importKey [of "replicate 16 9" "[7]" "replicate 12 0" DEFAULT_CRYPTO_CONFIG w]
    by (simp add: assms wrapped_key_def)
  show "\<exists>d w''. encryptVaultData web_platform v' (SecretKey (replicate 16 9)) w' = (Inr d, w'')"
    for v' w' by (rule web_encryptVaultData)
qed

text \<open>
  An instance: the five operations on \<open>web_vault\<close>, whose \<open>updatedAt\<close> already holds the
  time the clock reads next. Each returns, and each leaves another vault than it was
  given.
\<close>

theorem vault_mutations_in_place_witness:
  "date_ref (v_updatedAt web_vault) < allocated web_world \<and>
   (\<exists>ev1 v1 w1 ev2 v2 w2 ev3 v3 w3 ev4 v4 w4 ev5 v5 w5.
      updateVault web_platform (SecretKey [7]) (web_vault, web_world) = (Inr ev1, (v1, w1))
    \<and> v1 = web_vault\<lparr>v_updatedAt := \<lparr>date_ref = 6, date_value = TimeValue 1000\<rparr>\<rparr>
    \<and> ev_updatedAt ev1 = \<lparr>date_ref = 6, date_value = TimeValue 1000\<rparr>
    \<and> v1 \<noteq> web_vault
    \<and> addEntry web_platform web_new_entry (SecretKey [7]) (web_vault, web_world)
        = (Inr ev2, (v2, w2))
    \<and> array_ref (v_entries v2) = 2 \<and> length (elems (v_entries v2)) = 2
    \<and> e_name (elems (v_entries v2) ! 1) = ascii ''bank''
    \<and> e_updatedAt (elems (v_entries v2) ! 1) = \<lparr>date_ref = 7, date_value = TimeValue 1001\<rparr>
    \<and> v_updatedAt v2 = \<lparr>date_ref = 8, date_value = TimeValue 1002\<rparr>
    \<and> v2 \<noteq> web_vault
    \<and> updateEntry web_platform (ascii ''e1'') web_updates (SecretKey [7]) (web_vault, web_world)
        = (Inr ev3, (v3, w3))
    \<and> array_ref (v_entries v3) = 2 \<and> length (elems (v_entries v3)) = 1
    \<and> e_name (elems (v_entries v3) ! 0) = ascii ''post''
    \<and> e_updatedAt (elems (v_entries v3) ! 0) = \<lparr>date_ref = 6, date_value = TimeValue 1000\<rparr>
    \<and> v_updatedAt v3 = \<lparr>date_ref = 7, date_value = TimeValue 1001\<rparr>
    \<and> v3 \<noteq> web_vault
    \<and> deleteEntry web_platform (ascii ''e1'') (SecretKey [7]) (web_vault, web_world)
        = (Inr ev4, (v4, w4))
    \<and> v_entries v4 = \<lparr>array_ref = 6, elems = []\<rparr>
    \<and> v_updatedAt v4 = \<lparr>date_ref = 7, date_value = TimeValue 1000\<rparr>
    \<and> v4 \<noteq> web_vault
    \<and> addFolder web_platform web_new_folder (SecretKey [7]) (web_vault, web_world)
        = (Inr ev5, (v5, w5))
    \<and> array_ref (v_folders v5) = 3 \<and> length (elems (v_folders v5)) = 1
    \<and> f_name (elems (v_folders v5) ! 0) = ascii ''work''
    \<and> v_updatedAt v5 = \<lparr>date_ref = 8, date_value = TimeValue 1002\<rparr>
    \<and> v5 \<noteq> web_vault)"
proof -
  have r: "date_ref (v_updatedAt web_vault) < allocated web_world"
    by (simp add: web_vault_def web_world_def)
  have k: "\<And>f. v_encryptedKey (web_vault\<lparr>v_entries := f\<rparr>) = wrapped_key"
      "\<And>g. v_encryptedKey (web_vault\<lparr>v_folders := g\<rparr>) = wrapped_key"
      "v_encryptedKey web_vault = wrapped_key"
    by (simp_all add: web_vault_def)
  have c: "clock web_world (ticks web_world) = 1000"
      "clock web_world (ticks web_world + 1) = 1001"
      "clock web_world (ticks web_world + 2) = 1002"
      "uuids web_world (issued web_world) = [0x61]" "allocated web_world = 6"
    by (simp_all add: web_world_def unit_of_nat_def)
  have t: "elems (v_entries web_vault) = [web_entry]" "array_ref (v_entries web_vault) = 2"
      "elems (v_folders web_vault) = []" "array_ref (v_folders web_vault) = 3"
    by (simp_all add: web_vault_def)
  have f: "findIndex (\<lambda>e. e_id e = ascii ''e1'') [web_entry] = Some 0"
      "filter (\<lambda>e. e_id e \<noteq> ascii ''e1'') [web_entry] = []"
    by (simp_all add: web_entry_def)
  obtain ev1 v1 w1 where
    h1: "updateVault web_platform (SecretKey [7]) (web_vault, web_world) = (Inr ev1, (v1, w1))"
    using web_updateVault [OF k(3)] by blast
  obtain ev2 v2 w2 where
    h2: "addEntry web_platform web_new_entry (SecretKey [7]) (web_vault, web_world)
        = (Inr ev2, (v2, w2))"
    unfolding addEntry_eq using web_updateVault [OF k(1)] by blast
  obtain ev3 v3 w3 where
    h3: "updateEntry web_platform (ascii ''e1'') web_updates (SecretKey [7])
        (web_vault, web_world) = (Inr ev3, (v3, w3))"
    unfolding updateEntry_eq t f option.case using web_updateVault [OF k(1)] by blast
  obtain ev4 v4 w4 where
    h4: "deleteEntry web_platform (ascii ''e1'') (SecretKey [7]) (web_vault, web_world)
        = (Inr ev4, (v4, w4))"
    unfolding deleteEntry_eq using web_updateVault [OF k(1)] by blast
  obtain ev5 v5 w5 where
    h5: "addFolder web_platform web_new_folder (SecretKey [7]) (web_vault, web_world)
        = (Inr ev5, (v5, w5))"
    unfolding addFolder_eq using web_updateVault [OF k(2)] by blast
  note m1 = vault_mutations_in_place [OF r, where P = web_platform
      and masterKey = "SecretKey [7]" and ev = ev1 and vault' = v1 and w' = w1,
      THEN conjunct1, rule_format, OF h1]
  note m2 = vault_mutations_in_place [OF r, where P = web_platform
      and masterKey = "SecretKey [7]" and ev = ev2 and vault' = v2 and w' = w2
      and entry = web_new_entry,
      THEN conjunct2, THEN conjunct1, rule_format, OF h2]
  note m3 = vault_mutations_in_place [OF r, where P = web_platform
      and masterKey = "SecretKey [7]" and ev = ev3 and vault' = v3 and w' = w3
      and entryId = "ascii ''e1''" and updates = web_updates,
      THEN conjunct2, THEN conjunct2, THEN conjunct1, rule_format, OF h3]
  note m4 = vault_mutations_in_place [OF r, where P = web_platform
      and masterKey = "SecretKey [7]" and ev = ev4 and vault' = v4 and w' = w4
      and entryId = "ascii ''e1''",
      THEN conjunct2, THEN conjunct2, THEN conjunct2, THEN conjunct1, rule_format, OF h4]
  note m5 = vault_mutations_in_place [OF r, where P = web_platform
      and masterKey = "SecretKey [7]" and ev = ev5 and vault' = v5 and w' = w5
      and folder = web_new_folder,
      THEN conjunct2, THEN conjunct2, THEN conjunct2, THEN conjunct2, rule_format, OF h5]
  have a1: "v1 = web_vault\<lparr>v_updatedAt := \<lparr>date_ref = 6, date_value = TimeValue 1000\<rparr>\<rparr>
      \<and> ev_updatedAt ev1 = \<lparr>date_ref = 6, date_value = TimeValue 1000\<rparr> \<and> v1 \<noteq> web_vault"
  proof -
    note m = m1 [unfolded c]
    from m have v: "v1 = web_vault\<lparr>v_updatedAt :=
        \<lparr>date_ref = 6, date_value = TimeValue 1000\<rparr>\<rparr>" by blast
    from m have "ev_updatedAt ev1 = v_updatedAt v1" by blast
    then have e: "ev_updatedAt ev1 = \<lparr>date_ref = 6, date_value = TimeValue 1000\<rparr>"
      by (simp add: v)
    from m have "v1 \<noteq> web_vault" by blast
    with v e show ?thesis by blast
  qed
  have a2: "array_ref (v_entries v2) = 2 \<and> length (elems (v_entries v2)) = 2
      \<and> e_name (elems (v_entries v2) ! 1) = ascii ''bank''
      \<and> e_updatedAt (elems (v_entries v2) ! 1) = \<lparr>date_ref = 7, date_value = TimeValue 1001\<rparr>
      \<and> v_updatedAt v2 = \<lparr>date_ref = 8, date_value = TimeValue 1002\<rparr> \<and> v2 \<noteq> web_vault"
  proof -
    note m = m2 [unfolded c]
    note v = m [THEN conjunct1]
    from m have n: "v2 \<noteq> web_vault" by blast
    have "array_ref (v_entries v2) = 2 \<and> length (elems (v_entries v2)) = 2
      \<and> e_name (elems (v_entries v2) ! 1) = ascii ''bank''
      \<and> e_updatedAt (elems (v_entries v2) ! 1) = \<lparr>date_ref = 7, date_value = TimeValue 1001\<rparr>
      \<and> v_updatedAt v2 = \<lparr>date_ref = 8, date_value = TimeValue 1002\<rparr>"
      by (simp add: v t web_new_entry_def)
    with n show ?thesis by blast
  qed
  have a3: "array_ref (v_entries v3) = 2 \<and> length (elems (v_entries v3)) = 1
      \<and> e_name (elems (v_entries v3) ! 0) = ascii ''post''
      \<and> e_updatedAt (elems (v_entries v3) ! 0) = \<lparr>date_ref = 6, date_value = TimeValue 1000\<rparr>
      \<and> v_updatedAt v3 = \<lparr>date_ref = 7, date_value = TimeValue 1001\<rparr> \<and> v3 \<noteq> web_vault"
  proof -
    note m = m3 [unfolded c t]
    from m have n: "v3 \<noteq> web_vault" by blast
    from m obtain i where i: "i < length [web_entry]" and v: "v3 = web_vault
             \<lparr>v_entries := (v_entries web_vault)\<lparr>elems := [web_entry]
                [i := \<lparr>e_id = (case p_id web_updates of Some x \<Rightarrow> x | None \<Rightarrow> e_id ([web_entry] ! i)),
                 e_name = (case p_name web_updates of Some x \<Rightarrow> x | None \<Rightarrow> e_name ([web_entry] ! i)),
                 e_type = (case p_type web_updates of Some x \<Rightarrow> x | None \<Rightarrow> e_type ([web_entry] ! i)),
                 e_fields = (case p_fields web_updates of Some x \<Rightarrow> x | None \<Rightarrow> e_fields ([web_entry] ! i)),
                 e_notes = (case p_notes web_updates of Some x \<Rightarrow> x | None \<Rightarrow> e_notes ([web_entry] ! i)),
                 e_favorite = (case p_favorite web_updates of Some x \<Rightarrow> x | None \<Rightarrow> e_favorite ([web_entry] ! i)),
                 e_tags = (case p_tags web_updates of Some x \<Rightarrow> x | None \<Rightarrow> e_tags ([web_entry] ! i)),
                 e_folderId = (case p_folderId web_updates of Some x \<Rightarrow> x | None \<Rightarrow> e_folderId ([web_entry] ! i)),
                 e_createdAt = (case p_createdAt web_updates of Some x \<Rightarrow> x | None \<Rightarrow> e_createdAt ([web_entry] ! i)),
                 e_updatedAt = \<lparr>date_ref = 6, date_value = TimeValue 1000\<rparr>,
                 e_lastAccessedAt = (case p_lastAccessedAt web_updates of Some x \<Rightarrow> x | None \<Rightarrow> e_lastAccessedAt ([web_entry] ! i)),
                 e_expiresAt = (case p_expiresAt web_updates of Some x \<Rightarrow> x | None \<Rightarrow> e_expiresAt ([web_entry] ! i))\<rparr>]\<rparr>,
              v_updatedAt :=
                \<lparr>date_ref = 6 + 1,
                 date_value = TimeValue 1001\<rparr>\<rparr>" by blast
    from i have i0: "i = 0" by simp
    have "array_ref (v_entries v3) = 2 \<and> length (elems (v_entries v3)) = 1
      \<and> e_name (elems (v_entries v3) ! 0) = ascii ''post''
      \<and> e_updatedAt (elems (v_entries v3) ! 0) = \<lparr>date_ref = 6, date_value = TimeValue 1000\<rparr>
      \<and> v_updatedAt v3 = \<lparr>date_ref = 7, date_value = TimeValue 1001\<rparr>"
      by (simp add: v i0 t web_updates_def)
    with n show ?thesis by blast
  qed
  have a4: "v_entries v4 = \<lparr>array_ref = 6, elems = []\<rparr>
      \<and> v_updatedAt v4 = \<lparr>date_ref = 7, date_value = TimeValue 1000\<rparr> \<and> v4 \<noteq> web_vault"
  proof -
    note m = m4 [unfolded c t f]
    note v = m [THEN conjunct1]
    from m have n: "v4 \<noteq> web_vault" by blast
    have "v_entries v4 = \<lparr>array_ref = 6, elems = []\<rparr>
      \<and> v_updatedAt v4 = \<lparr>date_ref = 7, date_value = TimeValue 1000\<rparr>"
      by (simp add: v)
    with n show ?thesis by blast
  qed
  have a5: "array_ref (v_folders v5) = 3 \<and> length (elems (v_folders v5)) = 1
      \<and> f_name (elems (v_folders v5) ! 0) = ascii ''work''
      \<and> v_updatedAt v5 = \<lparr>date_ref = 8, date_value = TimeValue 1002\<rparr> \<and> v5 \<noteq> web_vault"
  proof -
    note m = m5 [unfolded c]
    note v = m [THEN conjunct1]
    from m have n: "v5 \<noteq> web_vault" by blast
    have "array_ref (v_folders v5) = 3 \<and> length (elems (v_folders v5)) = 1
      \<and> f_name (elems (v_folders v5) ! 0) = ascii ''work''
      \<and> v_updatedAt v5 = \<lparr>date_ref = 8, date_value = TimeValue 1002\<rparr>"
      by (simp add: v t web_new_folder_def)
    with n show ?thesis by blast
  qed
  from r h1 h2 h3 h4 h5 a1 a2 a3 a4 a5 show ?thesis by blast
qed

end
